(* ===== verification/Prelude.thy ===== *)
theory Prelude
  imports Main "HOL-Library.Word"
begin

text \<open>
  Shared vocabulary of the development: the C integer types as words, the big-endian
  GET/PUT macros of the PPP sources (\<^verbatim>\<open>target/h/netinet/ppp/pppd.h\<close>), writes into a byte
  buffer, and the generic lemmas on words and lists the component theories rely on.

  The three collections name the rules a component hands to its clients:
  \<^item> \<open>wire\<close>: encoding and decoding of packet fields;
  \<^item> \<open>frame\<close>: what an operation leaves unchanged;
  \<^item> \<open>inv_intro\<close>: preservation of a component invariant.
\<close>

unbundle bit_operations_syntax

named_theorems wire
named_theorems frame
named_theorems inv_intro

type_synonym u8 = "8 word"
type_synonym u16 = "16 word"
type_synonym u32 = "32 word"

section \<open>Packet fields\<close>

text \<open>
  \<^verbatim>\<open>PUTSHORT\<close> and \<^verbatim>\<open>PUTLONG\<close> store the most significant byte first; \<^verbatim>\<open>GETSHORT\<close> and
  \<^verbatim>\<open>GETLONG\<close> rebuild the value by shifting. \<^verbatim>\<open>u_short\<close> is 16 bits wide and \<^verbatim>\<open>u_long\<close> 32.
\<close>

definition PUTSHORT :: "u16 \<Rightarrow> u8 list" where
  "PUTSHORT s = [ucast (drop_bit 8 s), ucast s]"

definition PUTLONG :: "u32 \<Rightarrow> u8 list" where
  "PUTLONG l = [ucast (drop_bit 24 l), ucast (drop_bit 16 l), ucast (drop_bit 8 l), ucast l]"

definition GETSHORT :: "u8 \<Rightarrow> u8 \<Rightarrow> u16" where
  "GETSHORT a b = push_bit 8 (ucast a) OR ucast b"

definition GETLONG :: "u8 \<Rightarrow> u8 \<Rightarrow> u8 \<Rightarrow> u8 \<Rightarrow> u32" where
  "GETLONG a b c d =
     push_bit 8 (push_bit 8 (push_bit 8 (ucast a) OR ucast b) OR ucast c) OR ucast d"

lemma length_PUTSHORT [simp]: "length (PUTSHORT s) = 2"
  by (simp add: PUTSHORT_def)

lemma length_PUTLONG [simp]: "length (PUTLONG l) = 4"
  by (simp add: PUTLONG_def)

lemma byte_high_bit_clear: "8 \<le> n \<Longrightarrow> \<not> bit (b :: u8) n"
  using bit_imp_le_length by fastforce

lemma PUTSHORT_eq_iff [wire]: "PUTSHORT s = [a, b] \<longleftrightarrow> s = GETSHORT a b"
proof
  assume "PUTSHORT s = [a, b]"
  then show "s = GETSHORT a b"
    unfolding GETSHORT_def PUTSHORT_def by (auto intro!: bit_word_eqI simp: bit_simps)
next
  assume "s = GETSHORT a b"
  then show "PUTSHORT s = [a, b]"
    unfolding GETSHORT_def PUTSHORT_def
    by (auto intro!: bit_word_eqI simp: bit_simps byte_high_bit_clear)
qed

lemma byte_index_cases:
  fixes n :: nat
  assumes "n < 32"
  obtains "n < 8" | m where "n = 8 + m" "m < 8" | m where "n = 16 + m" "m < 8"
    | m where "n = 24 + m" "m < 8"
proof -
  consider "n < 8" | "8 \<le> n \<and> n < 16" | "16 \<le> n \<and> n < 24" | "24 \<le> n" by linarith
  then show thesis
  proof cases
    case 2
    then show ?thesis using that(2)[of "n - 8"] by linarith
  next
    case 3
    then show ?thesis using that(3)[of "n - 16"] by linarith
  next
    case 4
    then show ?thesis using assms that(4)[of "n - 24"] by linarith
  qed (rule that(1))
qed

lemma PUTLONG_eq_iff [wire]: "PUTLONG l = [a, b, c, d] \<longleftrightarrow> l = GETLONG a b c d"
proof
  assume eq: "PUTLONG l = [a, b, c, d]"
  show "l = GETLONG a b c d"
  proof (rule bit_word_eqI)
    fix n assume "n < LENGTH(32)"
    then have "n < 32" by simp
    then show "bit l n \<longleftrightarrow> bit (GETLONG a b c d) n"
      using eq by (cases rule: byte_index_cases) (auto simp: GETLONG_def PUTLONG_def bit_simps)
  qed
next
  assume "l = GETLONG a b c d"
  then show "PUTLONG l = [a, b, c, d]"
    unfolding GETLONG_def PUTLONG_def
    by (auto intro!: bit_word_eqI simp: bit_simps byte_high_bit_clear)
qed

lemma PUTSHORT_inject [simp]: "PUTSHORT s = PUTSHORT t \<longleftrightarrow> s = t"
proof -
  obtain a b where "PUTSHORT t = [a, b]" by (simp add: PUTSHORT_def)
  then show ?thesis using PUTSHORT_eq_iff by metis
qed

lemma PUTLONG_inject [simp]: "PUTLONG s = PUTLONG t \<longleftrightarrow> s = t"
proof -
  obtain a b c d where "PUTLONG t = [a, b, c, d]" by (simp add: PUTLONG_def)
  then show ?thesis using PUTLONG_eq_iff by metis
qed

section \<open>Writes into a buffer\<close>

text \<open>
  \<open>poke buf off bs\<close> stores \<open>bs\<close> at offset \<open>off\<close>. Storing past the end of the buffer
  lengthens the list, so "the buffer keeps its length" says that no store left it.
\<close>

definition poke :: "'a list \<Rightarrow> nat \<Rightarrow> 'a list \<Rightarrow> 'a list" where
  "poke buf off bs = take off buf @ bs @ drop (off + length bs) buf"

lemma poke_Nil [simp]: "poke buf off [] = buf"
  by (simp add: poke_def)

lemma length_poke:
  "off \<le> length buf \<Longrightarrow> length (poke buf off bs) = max (length buf) (off + length bs)"
  by (auto simp: poke_def max_def)

lemma length_poke_fits [simp]:
  "off + length bs \<le> length buf \<Longrightarrow> length (poke buf off bs) = length buf"
  by (simp add: length_poke)

lemma take_poke_before [simp]: "n \<le> off \<Longrightarrow> off \<le> length buf \<Longrightarrow> take n (poke buf off bs) = take n buf"
  by (simp add: poke_def min_def)

lemma drop_poke_after [simp]:
  "off + length bs \<le> n \<Longrightarrow> off \<le> length buf \<Longrightarrow> drop n (poke buf off bs) = drop n buf"
  by (simp add: poke_def)

lemma take_drop_poke [simp]:
  "off \<le> length buf \<Longrightarrow> take (length bs) (drop off (poke buf off bs)) = bs"
  by (simp add: poke_def)

lemma poke_self: "off + n \<le> length buf \<Longrightarrow> poke buf off (take n (drop off buf)) = buf"
  by (simp add: poke_def min_def) (metis add.commute append_take_drop_id drop_drop)

end
