(* ===== verification/Ppp_Timer.thy ===== *)
theory Ppp_Timer
  imports Prelude
begin

text \<open>
  The callout list of the PPP daemon (\<^verbatim>\<open>pppLib.c\<close>: \<open>ppp_timeout\<close>, \<open>ppp_untimeout\<close>,
  \<open>adjtimeout\<close>, \<open>alrm\<close>): pending timeouts as a delta list, each entry holding the seconds
  after its predecessor, and the one interval timer programmed for the head. The abstract
  agenda of absolute expiry times is what the list promises; every operation is shown to
  refine an operation on the agenda. The locale \<open>timer_service\<close> is the interface the
  protocol state machines use.
\<close>

section \<open>State\<close>

text \<open>
  \<^verbatim>\<open>struct callout\<close>: the routine and its argument together are the key \<open>'k\<close> that
  \<open>ppp_untimeout\<close> compares. The next pointer is the list structure.
\<close>

record 'k callout =
  c_time :: int
  c_key :: 'k

text \<open>
  The timer fields of \<^verbatim>\<open>PPP_TASK_VARS\<close>, with the value the interval timer was last
  programmed with (0 disarms it, as in \<^verbatim>\<open>timer_settime\<close>).
\<close>

record 'k timers =
  callouts :: "'k callout list"
  itimer :: int
  schedtime :: int

text \<open>What the operating system answers: the clock, and whether its calls succeed.\<close>

record timer_os =
  malloc_ok :: bool
  settime_ok :: bool
  time_ok :: bool
  now :: int

section \<open>Operations\<close>

text \<open>The loop of \<open>ppp_timeout\<close> that links the new entry in.\<close>

fun timeout_link :: "'k \<Rightarrow> int \<Rightarrow> 'k callout list \<Rightarrow> 'k callout list" where
  "timeout_link k seconds [] = [\<lparr>c_time = seconds, c_key = k\<rparr>]"
| "timeout_link k seconds (c # cs) =
     (if c_time c \<le> seconds then c # timeout_link k (seconds - c_time c) cs
      else \<lparr>c_time = seconds, c_key = k\<rparr> # c\<lparr>c_time := c_time c - seconds\<rparr> # cs)"

text \<open>The entry goes first exactly when the old head (if any) expires later.\<close>

fun links_first :: "int \<Rightarrow> 'k callout list \<Rightarrow> bool" where
  "links_first seconds [] = True"
| "links_first seconds (c # cs) = (seconds < c_time c)"

text \<open>
  Programming the interval timer and noting the time; \<open>None\<close> where the code gives up and
  calls \<open>die\<close>.
\<close>

definition set_itimer :: "timer_os \<Rightarrow> int \<Rightarrow> 'k timers \<Rightarrow> 'k timers option" where
  "set_itimer os secs t =
     (if settime_ok os \<and> time_ok os then Some (t\<lparr>itimer := secs, schedtime := now os\<rparr>) else None)"

definition ppp_timeout :: "timer_os \<Rightarrow> 'k \<Rightarrow> int \<Rightarrow> 'k timers \<Rightarrow> 'k timers option" where
  "ppp_timeout os k seconds t =
     (if \<not> malloc_ok os then None
      else let t' = t\<lparr>callouts := timeout_link k seconds (callouts t)\<rparr>
           in if links_first seconds (callouts t) then set_itimer os seconds t' else Some t')"

fun untimeout_unlink :: "'k \<Rightarrow> 'k callout list \<Rightarrow> 'k callout list" where
  "untimeout_unlink k [] = []"
| "untimeout_unlink k (c # cs) =
     (if c_key c = k
      then (case cs of [] \<Rightarrow> [] | d # ds \<Rightarrow> d\<lparr>c_time := c_time d + c_time c\<rparr> # ds)
      else c # untimeout_unlink k cs)"

definition ppp_untimeout :: "timer_os \<Rightarrow> 'k \<Rightarrow> 'k timers \<Rightarrow> 'k timers option" where
  "ppp_untimeout os k t =
     (let reschedule = (case callouts t of [] \<Rightarrow> False | c # _ \<Rightarrow> c_key c = k);
          cs = untimeout_unlink k (callouts t);
          t' = t\<lparr>callouts := cs\<rparr>
      in if reschedule
         then set_itimer os (case cs of [] \<Rightarrow> 0 | c # _ \<Rightarrow> c_time c) t'
         else Some t')"

definition adjtimeout :: "timer_os \<Rightarrow> 'k timers \<Rightarrow> 'k timers option" where
  "adjtimeout os t =
     (case callouts t of
        [] \<Rightarrow> Some t
      | c # cs \<Rightarrow>
          if \<not> time_ok os then None
          else let timediff = now os - schedtime t
               in if timediff < 0 \<or> timediff \<ge> c_time c then Some t
                  else Some (t\<lparr>callouts := c\<lparr>c_time := c_time c - timediff\<rparr> # cs\<rparr>))"

text \<open>
  \<open>alrm\<close> takes the head and every directly following entry with a zero delta off the list
  and returns their keys in the order in which it calls the routines.
\<close>

definition alrm :: "timer_os \<Rightarrow> 'k timers \<Rightarrow> ('k list \<times> 'k timers) option" where
  "alrm os t =
     (case callouts t of
        [] \<Rightarrow> Some ([], t)
      | c # cs \<Rightarrow>
          let due = c # takeWhile (\<lambda>d. c_time d = 0) cs;
              rest = dropWhile (\<lambda>d. c_time d = 0) cs;
              t' = t\<lparr>callouts := rest\<rparr>
          in map_option (Pair (map c_key due))
               (case rest of [] \<Rightarrow> Some t' | d # _ \<Rightarrow> set_itimer os (c_time d) t'))"

section \<open>The agenda: absolute expiry times\<close>

fun agenda :: "int \<Rightarrow> 'k callout list \<Rightarrow> (int \<times> 'k) list" where
  "agenda base [] = []"
| "agenda base (c # cs) = (base + c_time c, c_key c) # agenda (base + c_time c) cs"

definition agenda_insert :: "'k \<Rightarrow> int \<Rightarrow> (int \<times> 'k) list \<Rightarrow> (int \<times> 'k) list" where
  "agenda_insert k s xs = takeWhile (\<lambda>e. fst e \<le> s) xs @ (s, k) # dropWhile (\<lambda>e. fst e \<le> s) xs"

fun agenda_remove :: "'k \<Rightarrow> (int \<times> 'k) list \<Rightarrow> (int \<times> 'k) list" where
  "agenda_remove k [] = []"
| "agenda_remove k (e # es) = (if snd e = k then es else e # agenda_remove k es)"

definition callouts_wf :: "'k callout list \<Rightarrow> bool" where
  "callouts_wf cs \<longleftrightarrow> (\<forall>c \<in> set cs. 0 \<le> c_time c)"

lemma agenda_Nil_iff [simp]: "agenda b cs = [] \<longleftrightarrow> cs = []"
  by (cases cs) auto

lemma agenda_timeout_link:
  "agenda b (timeout_link k s cs) = agenda_insert k (b + s) (agenda b cs)"
proof (induction k s cs arbitrary: b rule: timeout_link.induct)
  case (2 k s c cs)
  then show ?case
    by (cases "c_time c \<le> s") (simp_all add: agenda_insert_def)
qed (simp add: agenda_insert_def)

lemma agenda_untimeout_unlink:
  "agenda b (untimeout_unlink k cs) = agenda_remove k (agenda b cs)"
  by (induction cs arbitrary: b) (auto split: list.splits simp: algebra_simps)

lemma agenda_append:
  "agenda b (xs @ ys) = agenda b xs @ agenda (b + sum_list (map c_time xs)) ys"
  by (induction xs arbitrary: b) (auto simp: algebra_simps)

lemma agenda_zero_prefix:
  "\<forall>c \<in> set cs. c_time c = 0 \<Longrightarrow> agenda b cs = map (\<lambda>c. (b, c_key c)) cs"
  by (induction cs) auto

lemma sum_list_zero_prefix: "\<forall>c \<in> set cs. c_time c = 0 \<Longrightarrow> sum_list (map c_time cs) = 0"
  by (induction cs) auto

lemma agenda_ge: "callouts_wf cs \<Longrightarrow> e \<in> set (agenda b cs) \<Longrightarrow> b \<le> fst e"
proof (induction cs arbitrary: b)
  case (Cons c cs)
  then have "0 \<le> c_time c" and wf: "callouts_wf cs" by (auto simp: callouts_wf_def)
  then show ?case using Cons.prems(2) Cons.IH[OF wf] by force
qed simp

lemma agenda_sorted: "callouts_wf cs \<Longrightarrow> sorted (map fst (agenda b cs))"
proof (induction cs arbitrary: b)
  case (Cons c cs)
  then have "callouts_wf cs" by (simp add: callouts_wf_def)
  then show ?case using Cons.IH agenda_ge by fastforce
qed simp

lemma callouts_wf_timeout_link [inv_intro]:
  "callouts_wf cs \<Longrightarrow> 0 \<le> s \<Longrightarrow> callouts_wf (timeout_link k s cs)"
  by (induction k s cs rule: timeout_link.induct) (auto simp: callouts_wf_def)

lemma callouts_wf_untimeout_unlink [inv_intro]:
  "callouts_wf cs \<Longrightarrow> callouts_wf (untimeout_unlink k cs)"
  by (induction k cs rule: untimeout_unlink.induct) (auto simp: callouts_wf_def split: list.splits)

section \<open>The interface of the protocol state machines\<close>

text \<open>
  The state machines only set a timeout for a key, cancel one, and rely on how many
  timeouts of each key are then pending.
\<close>

locale timer_service =
  fixes set_timer :: "'k \<Rightarrow> int \<Rightarrow> 's \<Rightarrow> 's"
    and cancel_timer :: "'k \<Rightarrow> 's \<Rightarrow> 's"
    and pending :: "'k \<Rightarrow> 's \<Rightarrow> nat"
  assumes pending_set: "pending k' (set_timer k secs s) = pending k' s + (if k' = k then 1 else 0)"
    and pending_cancel: "pending k' (cancel_timer k s) = pending k' s - (if k' = k then 1 else 0)"
begin

lemma armed_after_set: "0 < pending k (set_timer k secs s)"
  by (simp add: pending_set)

lemma rearm_keeps_armed: "0 < pending k (set_timer k secs (cancel_timer k s))"
  by (simp add: pending_set)

lemma set_other_key: "k' \<noteq> k \<Longrightarrow> pending k' (set_timer k secs s) = pending k' s"
  by (simp add: pending_set)

lemma cancel_other_key: "k' \<noteq> k \<Longrightarrow> pending k' (cancel_timer k s) = pending k' s"
  by (simp add: pending_cancel)

lemma set_keeps_armed: "0 < pending k' s \<Longrightarrow> 0 < pending k' (set_timer k secs s)"
  by (simp add: pending_set)

end

definition pending_count :: "'k \<Rightarrow> 'k callout list \<Rightarrow> nat" where
  "pending_count k cs = count_list (map c_key cs) k"

lemma pending_count_link:
  "pending_count k' (timeout_link k s cs) = pending_count k' cs + (if k' = k then 1 else 0)"
  by (induction k s cs rule: timeout_link.induct) (auto simp: pending_count_def)

lemma pending_count_unlink:
  "pending_count k' (untimeout_unlink k cs) = pending_count k' cs - (if k' = k then 1 else 0)"
proof -
  have keys: "map c_key (untimeout_unlink k cs) = remove1 k (map c_key cs)"
    by (induction cs) (simp_all split: list.split)
  have "count_list (remove1 k ks) k' = count_list ks k' - (if k' = k then 1 else 0)" for ks
    by (induction ks) auto
  then show ?thesis by (simp add: pending_count_def keys)
qed

interpretation co: timer_service timeout_link untimeout_unlink pending_count
  by unfold_locales (simp_all add: pending_count_link pending_count_unlink)

section \<open>Correctness\<close>

lemma set_itimer_Some:
  "set_itimer os secs t = Some t' \<Longrightarrow> callouts t' = callouts t \<and> itimer t' = secs \<and> schedtime t' = now os"
  by (auto simp: set_itimer_def split: if_splits)

lemma hd_timeout_link:
  "links_first s cs \<Longrightarrow> timeout_link k s cs \<noteq> [] \<and> c_time (hd (timeout_link k s cs)) = s"
  by (cases cs) auto

text \<open>
  C39: scheduling a timeout. The new entry expires exactly \<open>seconds\<close> from the base of the
  list, after every entry that expires no later; all other entries keep their absolute
  expiry time; deltas stay non-negative; and when the new entry is the first to expire the
  interval timer is programmed for it, otherwise it is left alone.
\<close>

theorem ppp_timeout_agenda:
  assumes "ppp_timeout os k seconds t = Some t'" and "callouts_wf (callouts t)" and "0 \<le> seconds"
  shows "agenda b (callouts t') = agenda_insert k (b + seconds) (agenda b (callouts t))
    \<and> callouts_wf (callouts t')
    \<and> sorted (map fst (agenda b (callouts t')))
    \<and> (if links_first seconds (callouts t) then itimer t' = c_time (hd (callouts t'))
       else itimer t' = itimer t)"
proof -
  have cs: "callouts t' = timeout_link k seconds (callouts t)"
    using assms(1) by (auto simp: ppp_timeout_def Let_def dest: set_itimer_Some split: if_splits)
  have wf: "callouts_wf (callouts t')" using assms(2,3) by (simp add: cs inv_intro)
  have "if links_first seconds (callouts t) then itimer t' = c_time (hd (callouts t'))
       else itimer t' = itimer t"
    using assms(1) hd_timeout_link[of seconds "callouts t" k]
    by (auto simp: ppp_timeout_def Let_def cs dest!: set_itimer_Some split: if_splits)
  then show ?thesis using wf agenda_sorted[OF wf] by (simp add: cs agenda_timeout_link)
qed

theorem ppp_timeout_agenda_witness:
  "agenda 0 (callouts \<lparr>callouts = [\<lparr>c_time = 3, c_key = ''a''\<rparr>, \<lparr>c_time = 2, c_key = ''b''\<rparr>,
       \<lparr>c_time = 2, c_key = ''c''\<rparr>], itimer = 3, schedtime = 100\<rparr>)
     = agenda_insert ''b'' 5 (agenda 0 [\<lparr>c_time = 3, c_key = ''a''\<rparr>, \<lparr>c_time = 4, c_key = ''c''\<rparr>])"
  using ppp_timeout_agenda [of "\<lparr>malloc_ok = True, settime_ok = True, time_ok = True, now = 100\<rparr>" "''b''" 5
      "\<lparr>callouts = [\<lparr>c_time = 3, c_key = ''a''\<rparr>, \<lparr>c_time = 4, c_key = ''c''\<rparr>], itimer = 3, schedtime = 100\<rparr>"
      "\<lparr>callouts = [\<lparr>c_time = 3, c_key = ''a''\<rparr>, \<lparr>c_time = 2, c_key = ''b''\<rparr>, \<lparr>c_time = 2, c_key = ''c''\<rparr>],
        itimer = 3, schedtime = 100\<rparr>" 0]
  by (simp add: ppp_timeout_def callouts_wf_def)

text \<open>
  C40: cancelling a timeout removes the first pending entry with that routine and argument
  from the agenda and nothing else; every other entry keeps its expiry time, and when the
  head is cancelled the interval timer is re-programmed for the new head (or disarmed).
\<close>

theorem ppp_untimeout_agenda:
  assumes "ppp_untimeout os k t = Some t'" and "callouts_wf (callouts t)"
  shows "agenda b (callouts t') = agenda_remove k (agenda b (callouts t))
    \<and> callouts_wf (callouts t')
    \<and> (callouts t \<noteq> [] \<and> c_key (hd (callouts t)) = k \<longrightarrow>
         itimer t' = (case callouts t' of [] \<Rightarrow> 0 | c # _ \<Rightarrow> c_time c))"
proof -
  let ?cs = "untimeout_unlink k (callouts t)"
  let ?hit = "case callouts t of [] \<Rightarrow> False | c # _ \<Rightarrow> c_key c = k"
  let ?next = "case ?cs of [] \<Rightarrow> 0 | c # _ \<Rightarrow> c_time c"
  have hit: "?hit \<longleftrightarrow> callouts t \<noteq> [] \<and> c_key (hd (callouts t)) = k"
    by (cases "callouts t") simp_all
  have cs: "callouts t' = ?cs \<and> (?hit \<longrightarrow> itimer t' = ?next)"
  proof (cases ?hit)
    case True
    with assms(1) have "set_itimer os ?next (t\<lparr>callouts := ?cs\<rparr>) = Some t'"
      by (simp add: ppp_untimeout_def Let_def)
    then show ?thesis by (auto dest: set_itimer_Some)
  next
    case False
    with assms(1) show ?thesis by (auto simp: ppp_untimeout_def Let_def)
  qed
  then show ?thesis using assms(2) unfolding hit by (simp add: agenda_untimeout_unlink inv_intro)
qed

theorem ppp_untimeout_agenda_witness:
  "agenda 0 [\<lparr>c_time = 5, c_key = ''c''\<rparr>]
     = agenda_remove ''a'' (agenda 0 [\<lparr>c_time = 3, c_key = ''a''\<rparr>, \<lparr>c_time = 2, c_key = ''c''\<rparr>])"
  using ppp_untimeout_agenda [of "\<lparr>malloc_ok = True, settime_ok = True, time_ok = True, now = 7\<rparr>" "''a''"
      "\<lparr>callouts = [\<lparr>c_time = 3, c_key = ''a''\<rparr>, \<lparr>c_time = 2, c_key = ''c''\<rparr>], itimer = 3, schedtime = 1\<rparr>"
      "\<lparr>callouts = [\<lparr>c_time = 5, c_key = ''c''\<rparr>], itimer = 5, schedtime = 7\<rparr>" 0]
  by (simp add: ppp_untimeout_def callouts_wf_def set_itimer_def)

lemma alrm_split:
  assumes "cs = takeWhile (\<lambda>d. c_time d = 0) cs @ rest"
  shows "agenda b (c # cs) =
     map (\<lambda>d. (b + c_time c, c_key d)) (c # takeWhile (\<lambda>d. c_time d = 0) cs) @ agenda (b + c_time c) rest"
proof -
  let ?z = "takeWhile (\<lambda>d. c_time d = 0) cs"
  have z: "\<forall>d \<in> set ?z. c_time d = 0" by (auto dest: set_takeWhileD)
  have "agenda (b + c_time c) cs = agenda (b + c_time c) (?z @ rest)" using assms by simp
  also have "\<dots> = map (\<lambda>d. (b + c_time c, c_key d)) ?z @ agenda (b + c_time c) rest"
    using agenda_zero_prefix[OF z] sum_list_zero_prefix[OF z] by (simp add: agenda_append)
  finally show ?thesis by simp
qed

lemma callouts_wf_dropWhile: "callouts_wf cs \<Longrightarrow> callouts_wf (dropWhile P cs)"
  by (auto simp: callouts_wf_def dest: set_dropWhileD)

lemma agenda_after_nonzero:
  assumes "callouts_wf (d # ds)" and "c_time d \<noteq> 0" and "e \<in> set (agenda b (d # ds))"
  shows "b < fst e"
proof -
  have pos: "0 < c_time d" and wf: "callouts_wf ds" using assms(1,2) by (auto simp: callouts_wf_def)
  then show ?thesis using assms(3) agenda_ge[OF wf, of _ "b + c_time d"] by fastforce
qed

text \<open>
  When the alarm goes off, the routines called are exactly the pending ones with the
  smallest expiry time, in the order in which they were scheduled for it; the entries left
  on the list are exactly the later ones, each with its expiry time unchanged, and the
  interval timer is programmed for the next of them.
\<close>

theorem alrm_fires_due:
  assumes "alrm os t = Some (due, t')" and "callouts_wf (callouts t)" and "callouts t = c # cs"
  shows "agenda b (callouts t) = map (Pair (b + c_time c)) due @ agenda (b + c_time c) (callouts t')
    \<and> due \<noteq> []
    \<and> (\<forall>e \<in> set (agenda (b + c_time c) (callouts t')). b + c_time c < fst e)
    \<and> (\<forall>d ds. callouts t' = d # ds \<longrightarrow> itimer t' = c_time d)"
proof -
  let ?z = "takeWhile (\<lambda>d. c_time d = 0) cs" and ?r = "dropWhile (\<lambda>d. c_time d = 0) cs"
  have due: "due = map c_key (c # ?z)"
    and res: "(case ?r of [] \<Rightarrow> Some (t\<lparr>callouts := ?r\<rparr>)
       | d # _ \<Rightarrow> set_itimer os (c_time d) (t\<lparr>callouts := ?r\<rparr>)) = Some t'"
    using assms(1) unfolding alrm_def assms(3) by (auto simp: Let_def)
  have "callouts t' = r \<and> (\<forall>d ds. r = d # ds \<longrightarrow> itimer t' = c_time d)"
    if "(case r of [] \<Rightarrow> Some (t\<lparr>callouts := r\<rparr>)
       | d # _ \<Rightarrow> set_itimer os (c_time d) (t\<lparr>callouts := r\<rparr>)) = Some t'" for r
    using that by (auto dest: set_itimer_Some split: list.splits)
  from this[OF res] have cs': "callouts t' = ?r"
    and it: "\<forall>d ds. ?r = d # ds \<longrightarrow> itimer t' = c_time d" by blast+
  have wf: "callouts_wf ?r"
    using assms(2,3) by (auto simp: callouts_wf_def dest: set_dropWhileD)
  have later: "\<forall>e \<in> set (agenda (b + c_time c) ?r). b + c_time c < fst e"
  proof (cases ?r)
    case Nil
    show ?thesis unfolding Nil by simp
  next
    case (Cons d ds)
    then have "c_time d \<noteq> 0" using hd_dropWhile[of "\<lambda>d. c_time d = 0" cs] by simp
    then show ?thesis using agenda_after_nonzero wf Cons by metis
  qed
  have "agenda b (c # cs) = map (\<lambda>d. (b + c_time c, c_key d)) (c # ?z) @ agenda (b + c_time c) ?r"
    by (rule alrm_split) simp
  then show ?thesis using due cs' it later assms(3) by simp
qed

theorem alrm_fires_due_witness:
  "agenda 0 [\<lparr>c_time = 3, c_key = ''a''\<rparr>, \<lparr>c_time = 0, c_key = ''b''\<rparr>, \<lparr>c_time = 2, c_key = ''c''\<rparr>]
     = map (Pair 3) [''a'', ''b''] @ agenda 3 [\<lparr>c_time = 2, c_key = ''c''\<rparr>]"
  using alrm_fires_due [of "\<lparr>malloc_ok = True, settime_ok = True, time_ok = True, now = 7\<rparr>"
      "\<lparr>callouts = [\<lparr>c_time = 3, c_key = ''a''\<rparr>, \<lparr>c_time = 0, c_key = ''b''\<rparr>, \<lparr>c_time = 2, c_key = ''c''\<rparr>],
        itimer = 3, schedtime = 1\<rparr>" "[''a'', ''b'']"
      "\<lparr>callouts = [\<lparr>c_time = 2, c_key = ''c''\<rparr>], itimer = 2, schedtime = 7\<rparr>" "\<lparr>c_time = 3, c_key = ''a''\<rparr>"
      "[\<lparr>c_time = 0, c_key = ''b''\<rparr>, \<lparr>c_time = 2, c_key = ''c''\<rparr>]" 0]
  by (simp add: alrm_def callouts_wf_def set_itimer_def)

text \<open>
  \<open>adjtimeout\<close> charges the time since \<open>schedtime\<close> to the head but leaves \<open>schedtime\<close>
  as it was, so a second call in the same alarm period charges the same seconds again: the
  whole agenda moves forward by \<open>2 * d\<close> although only \<open>d\<close> seconds have passed.
\<close>

theorem adjtimeout_charges_twice:
  assumes "callouts t = c # cs" and "time_ok os" and "d = now os - schedtime t"
    and "0 < d" and "2 * d < c_time c"
  shows "\<exists>t1 t2. adjtimeout os t = Some t1 \<and> adjtimeout os t1 = Some t2
    \<and> agenda d (callouts t1) = agenda 0 (callouts t)
    \<and> agenda (2 * d) (callouts t2) = agenda 0 (callouts t)
    \<and> agenda d (callouts t2) \<noteq> agenda 0 (callouts t)"
  using assms by (simp add: adjtimeout_def Let_def)

theorem adjtimeout_charges_twice_witness:
  "agenda 2 [\<lparr>c_time = 1, c_key = ''a''\<rparr>] = agenda 0 [\<lparr>c_time = 3, c_key = ''a''\<rparr>]"
  using adjtimeout_charges_twice [of "\<lparr>callouts = [\<lparr>c_time = 3, c_key = ''a''\<rparr>], itimer = 3, schedtime = 10\<rparr>"
      "\<lparr>c_time = 3, c_key = ''a''\<rparr>" "[]" "\<lparr>malloc_ok = True, settime_ok = True, time_ok = True, now = 11\<rparr>" 1]
  by (simp add: adjtimeout_def)

end
