(* ===== verification/Ppp_State.thy ===== *)
theory Ppp_State
  imports Ppp_Timer
begin

text \<open>
  The data of one PPP unit that the control protocols share: the protocol state machine
  record (\<^verbatim>\<open>fsm.h\<close>), the LCP option set (\<^verbatim>\<open>lcp.h\<close>) and the part of \<^verbatim>\<open>PPP_TASK_VARS\<close>
  (\<^verbatim>\<open>pppd.h\<close>) the state machine itself touches. Protocol-specific theories extend the
  record with their own fields.

  Two things stand for code outside the tree. Calls to \<^verbatim>\<open>output\<close> are recorded, in order,
  in \<open>wire_out\<close>. \<^verbatim>\<open>random()\<close> is the parameter \<open>rand_src\<close>: the successive values it returns.
  Logging (\<^verbatim>\<open>syslog\<close> and the debug macros) is left out.
\<close>

section \<open>Protocol state machines\<close>

datatype fsm_state =
    INITIAL | STARTING | CLOSED | STOPPED | CLOSING | STOPPING | REQSENT | ACKRCVD | ACKSENT | OPENED

record fsm =
  f_unit :: int
  f_protocol :: u16
  f_state :: fsm_state
  f_flags :: u32
  f_id :: u8
  f_reqid :: u8
  f_timeouttime :: int
  f_maxconfreqtransmits :: int
  f_retransmits :: int
  f_maxtermtransmits :: int
  f_nakloops :: int
  f_maxnakloops :: int

definition HEADERLEN :: nat where "HEADERLEN = 4"
definition DLLHEADERLEN :: nat where "DLLHEADERLEN = 4"
definition MTU :: nat where "MTU = 1500"

definition CONFREQ :: u8 where "CONFREQ = 1"
definition CONFACK :: u8 where "CONFACK = 2"
definition CONFNAK :: u8 where "CONFNAK = 3"
definition CONFREJ :: u8 where "CONFREJ = 4"
definition TERMREQ :: u8 where "TERMREQ = 5"
definition TERMACK :: u8 where "TERMACK = 6"
definition CODEREJ :: u8 where "CODEREJ = 7"

definition OPT_PASSIVE :: u32 where "OPT_PASSIVE = 1"
definition OPT_RESTART :: u32 where "OPT_RESTART = 2"
definition OPT_SILENT :: u32 where "OPT_SILENT = 4"

lemmas code_defs = CONFREQ_def CONFACK_def CONFNAK_def CONFREJ_def TERMREQ_def TERMACK_def CODEREJ_def
lemmas len_defs = HEADERLEN_def DLLHEADERLEN_def MTU_def

section \<open>LCP options\<close>

text \<open>
  \<^verbatim>\<open>struct lcp_options\<close>. The one-bit fields are truth values; \<^verbatim>\<open>passive\<close> and \<^verbatim>\<open>silent\<close> are
  also compared with the integer 1 by \<open>fsm_sconfreq\<close>, see \<open>signed_bitfields\<close> below.
\<close>

record lcp_options =
  o_passive :: bool
  o_silent :: bool
  o_restart :: bool
  neg_mru :: bool
  neg_asyncmap :: bool
  neg_upap :: bool
  neg_chap :: bool
  neg_magicnumber :: bool
  neg_pcompression :: bool
  neg_accompression :: bool
  neg_lqr :: bool
  mru :: u16
  chap_mdtype :: u8
  asyncmap :: u32
  magicnumber :: u32
  numloops :: int
  lqr_period :: u32

text \<open>All fields zero: what \<^verbatim>\<open>BZERO\<close> leaves.\<close>

definition zero_lcp_options :: lcp_options where
  "zero_lcp_options = \<lparr>o_passive = False, o_silent = False, o_restart = False, neg_mru = False,
     neg_asyncmap = False, neg_upap = False, neg_chap = False, neg_magicnumber = False,
     neg_pcompression = False, neg_accompression = False, neg_lqr = False, mru = 0,
     chap_mdtype = 0, asyncmap = 0, magicnumber = 0, numloops = 0, lqr_period = 0\<rparr>"

section \<open>The unit\<close>

text \<open>The (routine, argument) pairs the PPP code schedules.\<close>

datatype ppp_key =
    Fsm_timeout u16 | Lcp_echo_timer
  | Chap_challenge_timer | Chap_response_timer | Chap_rechallenge_timer

record ppp_io =
  peer_mru :: int
  outpacket_buf :: "u8 list"
  wire_out :: "u8 list list"
  callout_list :: "ppp_key callout list"
  lcp_wantoptions :: lcp_options
  magic_next :: u32
  rand_src :: "nat \<Rightarrow> u32"
  rand_pos :: nat
  signed_bitfields :: bool

definition random :: "'x ppp_io_scheme \<Rightarrow> u32 \<times> 'x ppp_io_scheme" where
  "random w = (rand_src w (rand_pos w), w\<lparr>rand_pos := Suc (rand_pos w)\<rparr>)"

text \<open>\<^verbatim>\<open>magic.c\<close>: the number computed by the previous call is handed out.\<close>

definition magic_init :: "u32 \<Rightarrow> 'x ppp_io_scheme \<Rightarrow> 'x ppp_io_scheme" where
  "magic_init ticks w = w\<lparr>magic_next := ticks\<rparr>"

definition magic :: "'x ppp_io_scheme \<Rightarrow> u32 \<times> 'x ppp_io_scheme" where
  "magic w = (let (r, w') = random w in (magic_next w, w'\<lparr>magic_next := r\<rparr>))"

text \<open>
  The value of a one-bit plain \<^verbatim>\<open>int\<close> bit-field that was assigned 1. Whether such a field is
  signed is the compiler's choice; \<open>signed_bitfields\<close> records it.
\<close>

definition bitfield_value :: "'x ppp_io_scheme \<Rightarrow> bool \<Rightarrow> int" where
  "bitfield_value w b = (if b then (if signed_bitfields w then -1 else 1) else 0)"

end
