(* ===== verification/Ppp_Fsm.thy ===== *)
theory Ppp_Fsm
  imports Ppp_State
begin

text \<open>
  The control protocol automaton shared by LCP and IPCP (\<^verbatim>\<open>fsm.c\<close>). Every routine of the
  file is one definition over a pair of the state machine and the rest of the unit. The
  protocol's callback table is an argument: a callback may change both components, so a
  callback that re-enters the automaton is covered.
\<close>

section \<open>Callbacks and elementary steps\<close>

type_synonym 'x pst = "fsm \<times> 'x ppp_io_scheme"

text \<open>
  \<^verbatim>\<open>struct fsm_callbacks\<close>, a null pointer being \<open>None\<close>. \<open>addci\<close> returns the bytes it stores at
  the output pointer and the new value of its length argument; \<open>reqci\<close> and \<open>extcode\<close> may
  rewrite the input buffer in place and return it. \<open>nakci\<close> of LCP contains a loop that need
  not end, so its result is an option: \<open>None\<close> when it does not return.
\<close>

record 'x fsm_callbacks =
  cb_resetci :: "('x pst \<Rightarrow> 'x pst) option"
  cb_cilen :: "('x pst \<Rightarrow> nat) option"
  cb_addci :: "('x pst \<Rightarrow> nat \<Rightarrow> u8 list \<times> nat \<times> 'x pst) option"
  cb_ackci :: "('x pst \<Rightarrow> u8 list \<Rightarrow> nat \<Rightarrow> bool \<times> 'x pst) option"
  cb_nakci :: "('x pst \<Rightarrow> u8 list \<Rightarrow> nat \<Rightarrow> (bool \<times> 'x pst) option) option"
  cb_rejci :: "('x pst \<Rightarrow> u8 list \<Rightarrow> nat \<Rightarrow> bool \<times> 'x pst) option"
  cb_reqci :: "('x pst \<Rightarrow> u8 list \<Rightarrow> nat \<Rightarrow> bool \<Rightarrow> u8 \<times> u8 list \<times> nat \<times> 'x pst) option"
  cb_up :: "('x pst \<Rightarrow> 'x pst) option"
  cb_down :: "('x pst \<Rightarrow> 'x pst) option"
  cb_starting :: "('x pst \<Rightarrow> 'x pst) option"
  cb_finished :: "('x pst \<Rightarrow> 'x pst) option"
  cb_retransmit :: "('x pst \<Rightarrow> 'x pst) option"
  cb_extcode :: "('x pst \<Rightarrow> u8 \<Rightarrow> u8 \<Rightarrow> u8 list \<Rightarrow> nat \<Rightarrow> bool \<times> u8 list \<times> 'x pst) option"

definition call :: "('s \<Rightarrow> 's) option \<Rightarrow> 's \<Rightarrow> 's" where
  "call cb s = (case cb of None \<Rightarrow> s | Some g \<Rightarrow> g s)"

definition on_fsm :: "(fsm \<Rightarrow> fsm) \<Rightarrow> 'x pst \<Rightarrow> 'x pst" where
  "on_fsm g st = (g (fst st), snd st)"

definition set_state :: "fsm_state \<Rightarrow> 'x pst \<Rightarrow> 'x pst" where
  "set_state s = on_fsm (\<lambda>f. f\<lparr>f_state := s\<rparr>)"

abbreviation st_of :: "'x pst \<Rightarrow> fsm_state" where
  "st_of st \<equiv> f_state (fst st)"

definition timer_key :: "fsm \<Rightarrow> ppp_key" where
  "timer_key f = Fsm_timeout (f_protocol f)"

text \<open>\<^verbatim>\<open>PPP_TIMEOUT(fsm_timeout, f, f->timeouttime)\<close> and \<^verbatim>\<open>PPP_UNTIMEOUT(fsm_timeout, f)\<close>.\<close>

definition TIMEOUT :: "'x pst \<Rightarrow> 'x pst" where
  "TIMEOUT st = (fst st, (snd st)\<lparr>callout_list :=
     timeout_link (timer_key (fst st)) (f_timeouttime (fst st)) (callout_list (snd st))\<rparr>)"

definition UNTIMEOUT :: "'x pst \<Rightarrow> 'x pst" where
  "UNTIMEOUT st = (fst st, (snd st)\<lparr>callout_list :=
     untimeout_unlink (timer_key (fst st)) (callout_list (snd st))\<rparr>)"

text \<open>
  \<^verbatim>\<open>peer_mru - HEADERLEN\<close>: \<open>HEADERLEN\<close> is a sum of \<^verbatim>\<open>sizeof\<close>s, so the subtraction and the
  comparisons with it are unsigned.
\<close>

definition mru_limit :: "int \<Rightarrow> int" where
  "mru_limit m = uint (word_of_int m - (4 :: u32))"

definition clamp_len :: "int \<Rightarrow> nat \<Rightarrow> nat" where
  "clamp_len m n = (if mru_limit m < int n then nat (mru_limit m) else n)"

section \<open>Sending\<close>

text \<open>
  \<open>fsm_sdata\<close>. The data is copied behind the two headers unless it is already there
  (\<open>None\<close>: the pointer is \<^verbatim>\<open>outp + DLLHEADERLEN + HEADERLEN\<close>, or the length is 0).
\<close>

definition fsm_sdata :: "u8 \<Rightarrow> u8 \<Rightarrow> u8 list option \<Rightarrow> nat \<Rightarrow> 'x pst \<Rightarrow> 'x pst" where
  "fsm_sdata code i data datalen st =
     (let f = fst st; w = snd st;
          n = clamp_len (peer_mru w) datalen;
          buf = (case data of
                   None \<Rightarrow> outpacket_buf w
                 | Some d \<Rightarrow> poke (outpacket_buf w) (DLLHEADERLEN + HEADERLEN) (take n d));
          outlen = n + HEADERLEN;
          buf' = poke buf 0 ([0xff, 0x03] @ PUTSHORT (f_protocol f) @ [code, i] @ PUTSHORT (of_nat outlen))
      in (f, w\<lparr>outpacket_buf := buf', wire_out := wire_out w @ [take (outlen + DLLHEADERLEN) buf']\<rparr>))"

text \<open>The string the passive or silent side writes before a Configure-Request.\<close>

definition CLIENT :: "u8 list" where
  "CLIENT = [67, 76, 73, 69, 78, 84]"

definition send_client :: "'x pst \<Rightarrow> 'x pst" where
  "send_client st =
     (let w = snd st
      in if bitfield_value w (o_passive (lcp_wantoptions w)) = 1
            \<or> bitfield_value w (o_silent (lcp_wantoptions w)) = 1
         then (fst st, w\<lparr>wire_out := wire_out w @ [CLIENT]\<rparr>) else st)"

definition fsm_sconfreq :: "'x fsm_callbacks \<Rightarrow> bool \<Rightarrow> 'x pst \<Rightarrow> 'x pst" where
  "fsm_sconfreq cb retransmit st0 =
     (let st1 = (if st_of st0 \<notin> {REQSENT, ACKRCVD, ACKSENT}
                 then on_fsm (\<lambda>f. f\<lparr>f_nakloops := 0\<rparr>) (call (cb_resetci cb) st0) else st0);
          st2 = (if \<not> retransmit
                 then on_fsm (\<lambda>f. f\<lparr>f_retransmits := f_maxconfreqtransmits f,
                                    f_reqid := f_id f + 1, f_id := f_id f + 1\<rparr>) st1 else st1);
          st3 = send_client st2;
          (cilen, st4) =
            (case (cb_cilen cb, cb_addci cb) of
               (Some cl, Some ad) \<Rightarrow>
                 (let (bytes, n, st') = ad st3 (clamp_len (peer_mru (snd st3)) (cl st3))
                  in (n, fst st', (snd st')\<lparr>outpacket_buf :=
                            poke (outpacket_buf (snd st')) (DLLHEADERLEN + HEADERLEN) bytes\<rparr>))
             | _ \<Rightarrow> (0, st3));
          st5 = fsm_sdata CONFREQ (f_reqid (fst st4)) None cilen st4
      in TIMEOUT (on_fsm (\<lambda>f. f\<lparr>f_retransmits := f_retransmits f - 1\<rparr>) st5))"

text \<open>\<^verbatim>\<open>fsm_sdata(f, TERMREQ, f->reqid = ++f->id, NULL, 0)\<close>, the timer, and the counter.\<close>

definition send_termreq :: "'x pst \<Rightarrow> 'x pst" where
  "send_termreq st =
     (let st1 = on_fsm (\<lambda>f. f\<lparr>f_id := f_id f + 1, f_reqid := f_id f + 1\<rparr>) st;
          st2 = TIMEOUT (fsm_sdata TERMREQ (f_reqid (fst st1)) None 0 st1)
      in on_fsm (\<lambda>f. f\<lparr>f_retransmits := f_retransmits f - 1\<rparr>) st2)"

definition send_termack :: "u8 \<Rightarrow> 'x pst \<Rightarrow> 'x pst" where
  "send_termack i = fsm_sdata TERMACK i None 0"

section \<open>Administrative events\<close>

definition fsm_init :: "'x pst \<Rightarrow> 'x pst" where
  "fsm_init st =
     (let (r, w) = random (snd st)
      in ((fst st)\<lparr>f_state := INITIAL, f_flags := 0, f_id := ucast r, f_timeouttime := 3,
            f_maxconfreqtransmits := 10, f_maxtermtransmits := 2, f_maxnakloops := 10\<rparr>, w))"

definition fsm_lowerup :: "'x fsm_callbacks \<Rightarrow> 'x pst \<Rightarrow> 'x pst" where
  "fsm_lowerup cb st =
     (case st_of st of
        INITIAL \<Rightarrow> set_state CLOSED st
      | STARTING \<Rightarrow>
          if f_flags (fst st) AND OPT_SILENT \<noteq> 0 then set_state STOPPED st
          else set_state REQSENT (fsm_sconfreq cb False st)
      | _ \<Rightarrow> st)"

definition fsm_lowerdown :: "'x fsm_callbacks \<Rightarrow> 'x pst \<Rightarrow> 'x pst" where
  "fsm_lowerdown cb st =
     (case st_of st of
        CLOSED \<Rightarrow> set_state INITIAL st
      | STOPPED \<Rightarrow> call (cb_starting cb) (set_state STARTING st)
      | CLOSING \<Rightarrow> UNTIMEOUT (set_state INITIAL st)
      | STOPPING \<Rightarrow> UNTIMEOUT (set_state STARTING st)
      | REQSENT \<Rightarrow> UNTIMEOUT (set_state STARTING st)
      | ACKRCVD \<Rightarrow> UNTIMEOUT (set_state STARTING st)
      | ACKSENT \<Rightarrow> UNTIMEOUT (set_state STARTING st)
      | OPENED \<Rightarrow> set_state STARTING (call (cb_down cb) st)
      | _ \<Rightarrow> st)"

definition fsm_open :: "'x fsm_callbacks \<Rightarrow> 'x pst \<Rightarrow> 'x pst" where
  "fsm_open cb st =
     (let restart = (\<lambda>st. if f_flags (fst st) AND OPT_RESTART \<noteq> 0
                          then fsm_lowerup cb (fsm_lowerdown cb st) else st)
      in case st_of st of
           INITIAL \<Rightarrow> call (cb_starting cb) (set_state STARTING st)
         | CLOSED \<Rightarrow>
             if f_flags (fst st) AND OPT_SILENT \<noteq> 0 then set_state STOPPED st
             else set_state REQSENT (fsm_sconfreq cb False st)
         | CLOSING \<Rightarrow> restart (set_state STOPPING st)
         | STOPPED \<Rightarrow> restart st
         | OPENED \<Rightarrow> restart st
         | _ \<Rightarrow> st)"

text \<open>
  The common part of the last four cases of \<open>fsm_close\<close>, and of \<open>fsm_protreject\<close>.
\<close>

definition start_termination :: "fsm_state \<Rightarrow> 'x pst \<Rightarrow> 'x pst" where
  "start_termination s st =
     set_state s (send_termreq (on_fsm (\<lambda>f. f\<lparr>f_retransmits := f_maxtermtransmits f\<rparr>) st))"

definition fsm_close :: "'x fsm_callbacks \<Rightarrow> 'x pst \<Rightarrow> 'x pst" where
  "fsm_close cb st =
     (case st_of st of
        STARTING \<Rightarrow> set_state INITIAL st
      | STOPPED \<Rightarrow> set_state CLOSED st
      | STOPPING \<Rightarrow> set_state CLOSING st
      | REQSENT \<Rightarrow> start_termination CLOSING (UNTIMEOUT st)
      | ACKRCVD \<Rightarrow> start_termination CLOSING (UNTIMEOUT st)
      | ACKSENT \<Rightarrow> start_termination CLOSING (UNTIMEOUT st)
      | OPENED \<Rightarrow> start_termination CLOSING (call (cb_down cb) st)
      | _ \<Rightarrow> st)"

definition fsm_timeout :: "'x fsm_callbacks \<Rightarrow> 'x pst \<Rightarrow> 'x pst" where
  "fsm_timeout cb st =
     (if st_of st \<in> {CLOSING, STOPPING} then
        (if f_retransmits (fst st) \<le> 0
         then call (cb_finished cb) (set_state (if st_of st = CLOSING then CLOSED else STOPPED) st)
         else send_termreq st)
      else if st_of st \<in> {REQSENT, ACKRCVD, ACKSENT} then
        (if f_retransmits (fst st) \<le> 0
         then (let st1 = set_state STOPPED st
               in if f_flags (fst st1) AND OPT_PASSIVE = 0 then call (cb_finished cb) st1 else st1)
         else (let st2 = fsm_sconfreq cb True (call (cb_retransmit cb) st)
               in if st_of st2 = ACKRCVD then set_state REQSENT st2 else st2))
      else st)"

definition fsm_protreject :: "'x fsm_callbacks \<Rightarrow> 'x pst \<Rightarrow> 'x pst" where
  "fsm_protreject cb st =
     (case st_of st of
        CLOSING \<Rightarrow> call (cb_finished cb) (set_state CLOSED (UNTIMEOUT st))
      | CLOSED \<Rightarrow> call (cb_finished cb) (set_state CLOSED st)
      | STOPPING \<Rightarrow> call (cb_finished cb) (set_state STOPPED (UNTIMEOUT st))
      | REQSENT \<Rightarrow> call (cb_finished cb) (set_state STOPPED (UNTIMEOUT st))
      | ACKRCVD \<Rightarrow> call (cb_finished cb) (set_state STOPPED (UNTIMEOUT st))
      | ACKSENT \<Rightarrow> call (cb_finished cb) (set_state STOPPED (UNTIMEOUT st))
      | STOPPED \<Rightarrow> call (cb_finished cb) (set_state STOPPED st)
      | OPENED \<Rightarrow> start_termination STOPPING (call (cb_down cb) st)
      | _ \<Rightarrow> st)"

section \<open>Received packets\<close>

definition fsm_rconfreq :: "'x fsm_callbacks \<Rightarrow> u8 \<Rightarrow> u8 list \<Rightarrow> nat \<Rightarrow> 'x pst \<Rightarrow> 'x pst" where
  "fsm_rconfreq cb i inp len st =
     (if st_of st = CLOSED then send_termack i st
      else if st_of st \<in> {CLOSING, STOPPING} then st
      else
        let st1 = (case st_of st of
                     OPENED \<Rightarrow> fsm_sconfreq cb False (call (cb_down cb) st)
                   | STOPPED \<Rightarrow> set_state REQSENT (fsm_sconfreq cb False st)
                   | _ \<Rightarrow> st);
            (code, inp', len', st2) =
              (case cb_reqci cb of
                 Some rq \<Rightarrow> rq st1 inp len (f_nakloops (fst st1) \<ge> f_maxnakloops (fst st1))
               | None \<Rightarrow> (if len \<noteq> 0 then CONFREJ else CONFACK, inp, len, st1));
            st3 = fsm_sdata code i (Some inp') len' st2
        in if code = CONFACK
           then on_fsm (\<lambda>f. f\<lparr>f_nakloops := 0\<rparr>)
                  (if st_of st3 = ACKRCVD
                   then call (cb_up cb) (set_state OPENED (UNTIMEOUT st3))
                   else set_state ACKSENT st3)
           else (let st4 = (if st_of st3 \<noteq> ACKRCVD then set_state REQSENT st3 else st3)
                 in if code = CONFNAK then on_fsm (\<lambda>f. f\<lparr>f_nakloops := f_nakloops f + 1\<rparr>) st4 else st4))"

definition restart_negotiation :: "'x fsm_callbacks \<Rightarrow> 'x pst \<Rightarrow> 'x pst" where
  "restart_negotiation cb st = set_state REQSENT (fsm_sconfreq cb False (call (cb_down cb) st))"

definition fsm_rconfack :: "'x fsm_callbacks \<Rightarrow> u8 \<Rightarrow> u8 list \<Rightarrow> nat \<Rightarrow> 'x pst \<Rightarrow> 'x pst" where
  "fsm_rconfack cb i inp len st =
     (if i \<noteq> f_reqid (fst st) then st
      else
        let (good, st1) = (case cb_ackci cb of Some ac \<Rightarrow> ac st inp len | None \<Rightarrow> (len = 0, st));
            st2 = on_fsm (\<lambda>f. f\<lparr>f_reqid := -1\<rparr>) st1
        in if \<not> good then st1
           else case st_of st2 of
               CLOSED \<Rightarrow> send_termack i st2
             | STOPPED \<Rightarrow> send_termack i st2
             | REQSENT \<Rightarrow> on_fsm (\<lambda>f. f\<lparr>f_state := ACKRCVD, f_retransmits := f_maxconfreqtransmits f\<rparr>) st2
             | ACKRCVD \<Rightarrow> set_state REQSENT (fsm_sconfreq cb False st2)
             | ACKSENT \<Rightarrow> call (cb_up cb)
                 (on_fsm (\<lambda>f. f\<lparr>f_state := OPENED, f_retransmits := f_maxconfreqtransmits f\<rparr>) (UNTIMEOUT st2))
             | OPENED \<Rightarrow> restart_negotiation cb st2
             | _ \<Rightarrow> st2)"

definition fsm_rconfnakrej :: "'x fsm_callbacks \<Rightarrow> u8 \<Rightarrow> u8 \<Rightarrow> u8 list \<Rightarrow> nat \<Rightarrow> 'x pst \<Rightarrow> 'x pst option" where
  "fsm_rconfnakrej cb code i inp len st =
     (if i \<noteq> f_reqid (fst st) then Some st
      else
        map_option (\<lambda>(good, st1).
          let st2 = on_fsm (\<lambda>f. f\<lparr>f_reqid := -1\<rparr>) st1
          in if \<not> good then st1
             else case st_of st2 of
                 CLOSED \<Rightarrow> send_termack i st2
               | STOPPED \<Rightarrow> send_termack i st2
               | REQSENT \<Rightarrow> fsm_sconfreq cb False (UNTIMEOUT st2)
               | ACKSENT \<Rightarrow> fsm_sconfreq cb False (UNTIMEOUT st2)
               | ACKRCVD \<Rightarrow> set_state REQSENT (fsm_sconfreq cb False st2)
               | OPENED \<Rightarrow> restart_negotiation cb st2
               | _ \<Rightarrow> st2)
          (if code = CONFNAK
           then (case cb_nakci cb of None \<Rightarrow> Some (False, st) | Some proc \<Rightarrow> proc st inp len)
           else Some (case cb_rejci cb of None \<Rightarrow> (False, st) | Some proc \<Rightarrow> proc st inp len)))"

definition fsm_rtermreq :: "'x fsm_callbacks \<Rightarrow> u8 \<Rightarrow> 'x pst \<Rightarrow> 'x pst" where
  "fsm_rtermreq cb i st =
     send_termack i
       (case st_of st of
          ACKRCVD \<Rightarrow> set_state REQSENT st
        | ACKSENT \<Rightarrow> set_state REQSENT st
        | OPENED \<Rightarrow> TIMEOUT (on_fsm (\<lambda>f. f\<lparr>f_retransmits := 0, f_state := STOPPING\<rparr>) (call (cb_down cb) st))
        | _ \<Rightarrow> st)"

definition fsm_rtermack :: "'x fsm_callbacks \<Rightarrow> 'x pst \<Rightarrow> 'x pst" where
  "fsm_rtermack cb st =
     (case st_of st of
        CLOSING \<Rightarrow> call (cb_finished cb) (set_state CLOSED st)
      | STOPPING \<Rightarrow> call (cb_finished cb) (set_state STOPPED st)
      | ACKRCVD \<Rightarrow> set_state REQSENT st
      | OPENED \<Rightarrow> fsm_sconfreq cb False (call (cb_down cb) st)
      | _ \<Rightarrow> st)"

definition fsm_rcoderej :: "nat \<Rightarrow> 'x pst \<Rightarrow> 'x pst" where
  "fsm_rcoderej len st =
     (if len < HEADERLEN then st
      else if st_of st = ACKRCVD then set_state REQSENT st else st)"

text \<open>The last case of the switch in \<open>fsm_input\<close>: a code the automaton does not know.\<close>

definition fsm_rextcode :: "'x fsm_callbacks \<Rightarrow> u8 \<Rightarrow> u8 \<Rightarrow> u8 list \<Rightarrow> nat \<Rightarrow> 'x pst \<Rightarrow> 'x pst" where
  "fsm_rextcode cb code i inpacket len st =
     (let (handled, inp', st1) =
            (case cb_extcode cb of
               None \<Rightarrow> (False, drop 4 inpacket, st)
             | Some ext \<Rightarrow> ext st code i (drop 4 inpacket) len)
      in if handled then st1
         else (let st2 = on_fsm (\<lambda>f. f\<lparr>f_id := f_id f + 1\<rparr>) st1
               in fsm_sdata CODEREJ (f_id (fst st2)) (Some (take 4 inpacket @ inp')) (len + HEADERLEN) st2))"

text \<open>
  \<open>fsm_input\<close>: \<open>inpacket\<close> is the receive buffer from the packet's first byte on, \<open>l\<close> the
  number of bytes received. The packet is processed only when its length field is
  consistent and the automaton is out of \<open>INITIAL\<close> and \<open>STARTING\<close>.
\<close>

definition fsm_input :: "'x fsm_callbacks \<Rightarrow> u8 list \<Rightarrow> nat \<Rightarrow> 'x pst \<Rightarrow> 'x pst option" where
  "fsm_input cb inpacket l st =
     (if l < HEADERLEN then Some st
      else
        let code = inpacket ! 0; i = inpacket ! 1;
            len0 = unat (GETSHORT (inpacket ! 2) (inpacket ! 3));
            inp = drop 4 inpacket; len = len0 - HEADERLEN
        in if len0 < HEADERLEN \<or> len0 > l then Some st
           else if st_of st \<in> {INITIAL, STARTING} then Some st
           else if code = CONFREQ then Some (fsm_rconfreq cb i inp len st)
           else if code = CONFACK then Some (fsm_rconfack cb i inp len st)
           else if code = CONFNAK \<or> code = CONFREJ then fsm_rconfnakrej cb code i inp len st
           else if code = TERMREQ then Some (fsm_rtermreq cb i st)
           else if code = TERMACK then Some (fsm_rtermack cb st)
           else if code = CODEREJ then Some (fsm_rcoderej len st)
           else Some (fsm_rextcode cb code i inpacket len st))"

end
