(* ===== verification/Ppp_Fsm_Client.thy ===== *)
theory Ppp_Fsm_Client
  imports Ppp_Fsm
begin

text \<open>
  What a protocol promises about its callbacks and what the automaton then guarantees.
  The locale \<open>fsm_protocol\<close> states the contract of a callback table; inside it the
  automaton's invariants are proved once for every event, and the protocol theories
  interpret it. Facts that hold for every callback table are plain lemmas.
\<close>

section \<open>Armed automata\<close>

definition waiting :: "fsm_state \<Rightarrow> bool" where
  "waiting s \<longleftrightarrow> s \<in> {CLOSING, STOPPING, REQSENT, ACKRCVD, ACKSENT}"

definition fsm_pending :: "'x pst \<Rightarrow> nat" where
  "fsm_pending st = pending_count (timer_key (fst st)) (callout_list (snd st))"

text \<open>An automaton that waits for the peer has a restart timer running.\<close>

definition armed :: "'x pst \<Rightarrow> bool" where
  "armed st \<longleftrightarrow> (waiting (st_of st) \<longrightarrow> 0 < fsm_pending st)"

text \<open>The part of the state a configuration-option callback must leave alone.\<close>

definition ci_frame :: "'x pst \<Rightarrow> 'x pst \<Rightarrow> bool" where
  "ci_frame st st' \<longleftrightarrow> fst st' = fst st \<and> callout_list (snd st') = callout_list (snd st)"

lemma st_of_on_fsm [simp]: "(\<And>f. f_state (g f) = f_state f) \<Longrightarrow> st_of (on_fsm g st) = st_of st"
  by (simp add: on_fsm_def)

lemma st_of_set_state [simp]: "st_of (set_state s st) = s"
  by (simp add: set_state_def on_fsm_def)

lemma st_of_TIMEOUT [simp]: "fst (TIMEOUT st) = fst st" "fst (UNTIMEOUT st) = fst st"
  by (simp_all add: TIMEOUT_def UNTIMEOUT_def)

lemma fst_fsm_sdata [simp]: "fst (fsm_sdata c i d n st) = fst st"
  by (simp add: fsm_sdata_def Let_def)

lemma callout_fsm_sdata [simp]: "callout_list (snd (fsm_sdata c i d n st)) = callout_list (snd st)"
  by (simp add: fsm_sdata_def Let_def)

lemma snd_set_state [simp]: "snd (set_state s st) = snd st" "snd (on_fsm g st) = snd st"
  by (simp_all add: set_state_def on_fsm_def)

lemma protocol_set_state [simp]: "f_protocol (fst (set_state s st)) = f_protocol (fst st)"
  by (simp add: set_state_def on_fsm_def)

lemma send_termack_frame [simp]:
  "fst (send_termack i st) = fst st" "callout_list (snd (send_termack i st)) = callout_list (snd st)"
  by (simp_all add: send_termack_def)

lemma send_client_frame [simp]:
  "fst (send_client st) = fst st" "callout_list (snd (send_client st)) = callout_list (snd st)"
  by (simp_all add: send_client_def Let_def)

lemma fsm_pending_cong:
  "f_protocol (fst st') = f_protocol (fst st) \<Longrightarrow> callout_list (snd st') = callout_list (snd st)
    \<Longrightarrow> fsm_pending st' = fsm_pending st"
  by (simp add: fsm_pending_def timer_key_def)

lemma fsm_pending_TIMEOUT [simp]: "fsm_pending (TIMEOUT st) = Suc (fsm_pending st)"
  by (simp add: fsm_pending_def TIMEOUT_def co.pending_set timer_key_def)

lemma fsm_pending_on_fsm [simp]:
  "(\<And>f. f_protocol (g f) = f_protocol f) \<Longrightarrow> fsm_pending (on_fsm g st) = fsm_pending st"
  by (rule fsm_pending_cong) (simp_all add: on_fsm_def)

lemma fsm_pending_set_state [simp]: "fsm_pending (set_state s st) = fsm_pending st"
  by (simp add: set_state_def)

lemma fsm_pending_fsm_sdata [simp]: "fsm_pending (fsm_sdata c i d n st) = fsm_pending st"
  "fsm_pending (send_termack j st) = fsm_pending st"
  by (rule fsm_pending_cong; simp)+

text \<open>Sending a request always leaves the timer running, whatever the callbacks did.\<close>

lemma fsm_pending_sconfreq: "0 < fsm_pending (fsm_sconfreq cb r st)"
  by (simp add: fsm_sconfreq_def Let_def split: prod.split)

lemma fsm_pending_termreq: "0 < fsm_pending (send_termreq st)"
  by (simp add: send_termreq_def Let_def)

lemma fsm_pending_start_termination: "0 < fsm_pending (start_termination s st)"
  by (simp add: start_termination_def fsm_pending_termreq)

lemmas pending_pos = fsm_pending_sconfreq fsm_pending_termreq fsm_pending_start_termination

lemma st_of_send_termreq [simp]: "st_of (send_termreq st) = st_of st"
  by (simp add: send_termreq_def Let_def)

lemma st_of_start_termination [simp]: "st_of (start_termination s st) = s"
  by (simp add: start_termination_def)

lemma armedI: "0 < fsm_pending st \<Longrightarrow> armed st"
  by (simp add: armed_def)

lemma armed_idle: "\<not> waiting (st_of st) \<Longrightarrow> armed st"
  by (simp add: armed_def)

lemma idle_states [simp]: "\<not> waiting INITIAL" "\<not> waiting STARTING" "\<not> waiting CLOSED"
  "\<not> waiting STOPPED" "\<not> waiting OPENED"
  by (simp_all add: waiting_def)

lemma waiting_states [simp]: "waiting CLOSING" "waiting STOPPING" "waiting REQSENT" "waiting ACKRCVD"
  "waiting ACKSENT"
  by (simp_all add: waiting_def)

lemma armedD: "armed st \<Longrightarrow> waiting (st_of st) \<Longrightarrow> 0 < fsm_pending st"
  by (simp add: armed_def)

lemma armed_cong:
  "st_of st' = st_of st \<Longrightarrow> fsm_pending st' = fsm_pending st \<Longrightarrow> armed st' = armed st"
  by (simp add: armed_def)

lemma armed_on_fsm [simp]:
  "(\<And>f. f_protocol (g f) = f_protocol f) \<Longrightarrow> (\<And>f. f_state (g f) = f_state f) \<Longrightarrow>
    armed (on_fsm g st) = armed st"
  by (rule armed_cong) simp_all

lemma armed_frame: "ci_frame st st' \<Longrightarrow> armed st' = armed st"
  unfolding ci_frame_def by (rule armed_cong) (auto intro: fsm_pending_cong)

lemma armed_send_termack [simp]: "armed (send_termack i st) = armed st" "armed (fsm_sdata c i d n st) = armed st"
  by (rule armed_cong; simp)+

lemma armed_set_idle [inv_intro]: "\<not> waiting s \<Longrightarrow> armed (set_state s st)"
  by (simp add: armed_def)

lemma armed_requests [inv_intro]:
  "armed (fsm_sconfreq cb r st)" "armed (set_state s (fsm_sconfreq cb r st))"
  "armed (send_termreq st)" "armed (start_termination s st)" "armed (TIMEOUT st)"
  by (simp_all add: armedI pending_pos)

lemma armed_set_waiting: "armed st \<Longrightarrow> waiting (st_of st) \<Longrightarrow> armed (set_state s st)"
  by (simp add: armed_def)

lemma call_None [simp]: "call None st = st"
  and call_Some [simp]: "call (Some g) st = g st"
  by (simp_all add: call_def)

text \<open>The branches of \<open>fsm_input\<close>.\<close>

lemma fsm_input_elim:
  assumes "fsm_input cb q l st = Some st'" and "n = unat (GETSHORT (q ! 2) (q ! 3)) - HEADERLEN"
  obtains "st' = st"
  | "q ! 0 = CONFREQ" "st' = fsm_rconfreq cb (q ! 1) (drop 4 q) n st"
  | "q ! 0 = CONFACK" "st' = fsm_rconfack cb (q ! 1) (drop 4 q) n st"
  | "q ! 0 = CONFNAK \<or> q ! 0 = CONFREJ" "fsm_rconfnakrej cb (q ! 0) (q ! 1) (drop 4 q) n st = Some st'"
  | "q ! 0 = TERMREQ" "st' = fsm_rtermreq cb (q ! 1) st"
  | "q ! 0 = TERMACK" "st' = fsm_rtermack cb st"
  | "q ! 0 = CODEREJ" "st' = fsm_rcoderej n st"
  | "st' = fsm_rextcode cb (q ! 0) (q ! 1) q n st"
  using assms unfolding fsm_input_def Let_def by (simp split: if_splits)

section \<open>Frames\<close>

text \<open>
  The frame \<open>fsm_sdata\<close> hands to \<open>output\<close>: address and control bytes, protocol, code,
  identifier, length and data.
\<close>

definition fsm_frame :: "u16 \<Rightarrow> u8 \<Rightarrow> u8 \<Rightarrow> u8 list \<Rightarrow> u8 list" where
  "fsm_frame proto code i data =
     [0xff, 0x03] @ PUTSHORT proto @ [code, i] @ PUTSHORT (of_nat (length data + HEADERLEN)) @ data"

lemma length_fsm_frame [simp]: "length (fsm_frame proto code i data) = length data + 8"
  by (simp add: fsm_frame_def)

lemma take_poke_prefix: "take (length bs + n) (poke buf 0 bs) = bs @ take n (drop (length bs) buf)"
  by (simp add: poke_def)

lemma clamp_len_le: "clamp_len m n \<le> n"
  by (auto simp: clamp_len_def)

lemma clamp_len_id: "4 \<le> m \<Longrightarrow> m < 2 ^ 31 \<Longrightarrow> clamp_len m n = min n (nat (m - 4))"
proof -
  assume m: "4 \<le> m" "m < 2 ^ 31"
  have le: "(4 :: u32) \<le> word_of_int m"
    using m by (simp add: word_le_def take_bit_int_eq_self uint_word_of_int_eq)
  have "uint (word_of_int m - (4 :: u32)) = uint (word_of_int m :: u32) - uint (4 :: u32)"
    using le unfolding word_le_def by (rule uint_sub_lem[THEN iffD1])
  also have "\<dots> = m - 4" using m by (simp add: take_bit_int_eq_self uint_word_of_int_eq)
  finally show ?thesis using m by (auto simp: clamp_len_def mru_limit_def)
qed

lemma sdata_wire:
  assumes "8 \<le> length (outpacket_buf (snd st))" and "clamp_len (peer_mru (snd st)) n \<le> length d"
  shows "wire_out (snd (fsm_sdata code i (Some d) n st)) =
    wire_out (snd st) @ [fsm_frame (f_protocol (fst st)) code i (take (clamp_len (peer_mru (snd st)) n) d)]"
proof -
  let ?k = "clamp_len (peer_mru (snd st)) n"
  let ?hdr = "[0xff, 0x03] @ PUTSHORT (f_protocol (fst st)) @ [code, i] @ PUTSHORT (of_nat (?k + HEADERLEN))"
  have k: "length (take ?k d) = ?k" using assms(2) by simp
  have "take (length ?hdr + ?k) (poke (poke (outpacket_buf (snd st)) 8 (take ?k d)) 0 ?hdr)
      = ?hdr @ take ?k (drop 8 (poke (outpacket_buf (snd st)) 8 (take ?k d)))"
    unfolding take_poke_prefix by simp
  also have "\<dots> = ?hdr @ take ?k d"
    using take_drop_poke[OF assms(1), of "take ?k d"] unfolding k by simp
  finally have "take (8 + ?k) (poke (poke (outpacket_buf (snd st)) 8 (take ?k d)) 0 ?hdr) = ?hdr @ take ?k d"
    by simp
  then show ?thesis using k by (simp add: fsm_sdata_def Let_def fsm_frame_def len_defs add.commute)
qed

lemma sdata_buffer_length:
  assumes "8 \<le> length (outpacket_buf (snd st))" and "clamp_len (peer_mru (snd st)) n \<le> length d"
  shows "length (outpacket_buf (snd (fsm_sdata code i (Some d) n st))) =
    max (length (outpacket_buf (snd st))) (8 + clamp_len (peer_mru (snd st)) n)"
  using assms by (simp add: fsm_sdata_def Let_def length_poke len_defs)

section \<open>The contract of a callback table\<close>

locale fsm_protocol =
  fixes cb :: "'x fsm_callbacks"
  assumes resetci_law: "cb_resetci cb = Some g1 \<Longrightarrow> ci_frame st (g1 st)"
    and addci_law: "cb_addci cb = Some g2 \<Longrightarrow> g2 st n = (bs, m, st') \<Longrightarrow> ci_frame st st'"
    and ackci_law: "cb_ackci cb = Some g3 \<Longrightarrow> g3 st inp n = (good, st') \<Longrightarrow> ci_frame st st'"
    and nakci_law: "cb_nakci cb = Some g4 \<Longrightarrow> g4 st inp n = Some (good, st') \<Longrightarrow> ci_frame st st'"
    and rejci_law: "cb_rejci cb = Some g3 \<Longrightarrow> g3 st inp n = (good, st') \<Longrightarrow> armed st \<Longrightarrow> armed st'"
    and reqci_law: "cb_reqci cb = Some g5 \<Longrightarrow> g5 st inp n rej = (code, inp', n', st') \<Longrightarrow> ci_frame st st'"
    and up_law: "armed st \<Longrightarrow> armed (call (cb_up cb) st)"
    and starting_law: "armed st \<Longrightarrow> armed (call (cb_starting cb) st)"
    and finished_law: "armed st \<Longrightarrow> armed (call (cb_finished cb) st)"
    and extcode_law: "cb_extcode cb = Some g6 \<Longrightarrow> g6 st code i inp n = (h, inp', st') \<Longrightarrow> armed st \<Longrightarrow> armed st'"
    and up_not_opening: "st_of (call (cb_up cb) st) = OPENED \<Longrightarrow> st_of st = OPENED"
    and down_not_opening: "st_of (call (cb_down cb) st) = OPENED \<Longrightarrow> st_of st = OPENED"
    and starting_not_opening: "st_of (call (cb_starting cb) st) = OPENED \<Longrightarrow> st_of st = OPENED"
    and finished_not_opening: "st_of (call (cb_finished cb) st) = OPENED \<Longrightarrow> st_of st = OPENED"
    and rejci_not_opening: "cb_rejci cb = Some g3 \<Longrightarrow> g3 st inp n = (good, st') \<Longrightarrow> st_of st' = OPENED \<Longrightarrow> st_of st = OPENED"
    and retransmit_not_opening: "st_of (call (cb_retransmit cb) st) = OPENED \<Longrightarrow> st_of st = OPENED"
    and extcode_not_opening:
      "cb_extcode cb = Some g6 \<Longrightarrow> g6 st code i inp n = (h, inp', st') \<Longrightarrow> st_of st' = OPENED \<Longrightarrow> st_of st = OPENED"
begin

lemma sconfreq_state: "st_of (fsm_sconfreq cb r st) = st_of st"
proof -
  have reset: "fst (call (cb_resetci cb) s) = fst s" for s
    using resetci_law by (cases "cb_resetci cb") (auto simp: ci_frame_def)
  have "st_of st' = st_of s" if "cb_addci cb = Some ad" "ad s n = (bs, m, st')" for s st' n bs m ad
    using addci_law[OF that] by (simp add: ci_frame_def)
  then show ?thesis
    by (auto simp: fsm_sconfreq_def Let_def reset on_fsm_def split: option.splits prod.splits)
qed

lemma armed_lowerup: "armed st \<Longrightarrow> armed (fsm_lowerup cb st)"
  by (simp add: fsm_lowerup_def inv_intro split: fsm_state.split)

lemma armed_UNTIMEOUT_idle: "\<not> waiting s \<Longrightarrow> armed (UNTIMEOUT (set_state s st))"
  by (rule armed_idle) simp

lemma armed_lowerdown: "armed st \<Longrightarrow> armed (fsm_lowerdown cb st)"
  by (simp add: fsm_lowerdown_def inv_intro armed_UNTIMEOUT_idle starting_law split: fsm_state.split)

lemma armed_finished_idle: "\<not> waiting s \<Longrightarrow> armed (call (cb_finished cb) (set_state s st))"
  by (intro finished_law inv_intro)

lemma armed_restart: "armed st \<Longrightarrow> armed (fsm_lowerup cb (fsm_lowerdown cb st))"
  by (intro armed_lowerup armed_lowerdown)

lemma armed_open: "armed st \<Longrightarrow> armed (fsm_open cb st)"
  by (simp add: fsm_open_def Let_def armed_restart armed_set_waiting starting_law inv_intro
      split: fsm_state.split)

lemma armed_close: "armed st \<Longrightarrow> armed (fsm_close cb st)"
  by (simp add: fsm_close_def armed_set_waiting inv_intro split: fsm_state.split)

lemma armed_timeout: "armed (fsm_timeout cb st)"
proof (cases "waiting (st_of st)")
  case True
  then show ?thesis
    by (auto simp: fsm_timeout_def Let_def armed_finished_idle inv_intro waiting_def)
next
  case False
  then have "fsm_timeout cb st = st" by (simp add: fsm_timeout_def waiting_def)
  with False show ?thesis by (simp add: armed_idle)
qed

lemma armed_protreject: "armed st \<Longrightarrow> armed (fsm_protreject cb st)"
  by (simp add: fsm_protreject_def armed_finished_idle inv_intro split: fsm_state.split)

lemma reqci_frame:
  "cb_reqci cb = Some rq \<Longrightarrow> fst (snd (snd (snd (rq st inp n rej)))) = fst st
    \<and> callout_list (snd (snd (snd (snd (rq st inp n rej))))) = callout_list (snd st)"
  using reqci_law[of rq st inp n rej] by (cases "rq st inp n rej") (auto simp: ci_frame_def)

lemma armed_restart_negotiation: "armed (restart_negotiation cb st)"
  by (simp add: restart_negotiation_def inv_intro)

lemma armed_rconfreq:
  assumes a: "armed st" and alive: "st_of st \<notin> {INITIAL, STARTING}"
  shows "armed (fsm_rconfreq cb i inp len st)"
proof -
  define st1 where "st1 = (case st_of st of
      OPENED \<Rightarrow> fsm_sconfreq cb False (call (cb_down cb) st)
    | STOPPED \<Rightarrow> set_state REQSENT (fsm_sconfreq cb False st) | _ \<Rightarrow> st)"
  obtain code inp' len' st2 where r:
    "(case cb_reqci cb of
        Some rq \<Rightarrow> rq st1 inp len (f_nakloops (fst st1) \<ge> f_maxnakloops (fst st1))
      | None \<Rightarrow> (if len \<noteq> 0 then CONFREJ else CONFACK, inp, len, st1)) = (code, inp', len', st2)"
    by (metis prod_cases4)
  then have "ci_frame st1 st2"
    using reqci_law by (auto simp: ci_frame_def split: option.splits)
  then have pend: "fsm_pending st2 = fsm_pending st1" and same: "st_of st2 = st_of st1"
    by (auto simp: ci_frame_def intro!: fsm_pending_cong)
  show ?thesis
  proof (cases "st_of st \<in> {CLOSED, CLOSING, STOPPING}")
    case False
    with alive have "0 < fsm_pending st1"
      using armedD[OF a] by (cases "st_of st") (simp_all add: st1_def pending_pos)
    then have "0 < fsm_pending st2" by (simp add: pend)
    then show ?thesis using False
      by (simp add: fsm_rconfreq_def st1_def[symmetric] r Let_def up_law inv_intro armedI)
  qed (use a in \<open>auto simp: fsm_rconfreq_def\<close>)
qed

lemma armed_rconfack: "armed st \<Longrightarrow> armed (fsm_rconfack cb i inp len st)"
proof -
  assume a: "armed st"
  obtain good st1 where r:
    "(case cb_ackci cb of Some ac \<Rightarrow> ac st inp len | None \<Rightarrow> (len = 0, st)) = (good, st1)"
    by (metis surj_pair)
  then have "ci_frame st st1" using ackci_law by (auto simp: ci_frame_def split: option.splits)
  then have a1: "armed st1" using a armed_frame by blast
  have "armed (on_fsm (\<lambda>f. f\<lparr>f_state := ACKRCVD, f_retransmits := f_maxconfreqtransmits f\<rparr>) s)"
    if "armed s" "st_of s = REQSENT" for s :: "'x pst"
    using armedD[OF that(1)] that(2) by (intro armedI) simp
  moreover have "armed (call (cb_up cb)
      (on_fsm (\<lambda>f. f\<lparr>f_state := OPENED, f_retransmits := f_maxconfreqtransmits f\<rparr>) s))" for s
    by (intro up_law armed_idle) (simp add: on_fsm_def)
  ultimately show ?thesis using a a1
    by (simp add: fsm_rconfack_def r Let_def armed_restart_negotiation inv_intro split: fsm_state.split)
qed

lemma armed_rconfnakrej:
  "armed st \<Longrightarrow> fsm_rconfnakrej cb code i inp len st = Some st' \<Longrightarrow> armed st'"
proof (cases "i = f_reqid (fst st)")
  assume a: "armed st" and res: "fsm_rconfnakrej cb code i inp len st = Some st'"
  case True
  define proc where "proc = (if code = CONFNAK
     then (case cb_nakci cb of None \<Rightarrow> Some (False, st) | Some proc \<Rightarrow> proc st inp len)
     else Some (case cb_rejci cb of None \<Rightarrow> (False, st) | Some proc \<Rightarrow> proc st inp len))"
  then obtain good st1 where p: "proc = Some (good, st1)"
    using res True by (auto simp: fsm_rconfnakrej_def)
  then have a1: "armed st1" using a nakci_law[THEN armed_frame] rejci_law
    by (auto simp: proc_def split: if_splits option.splits)
  with res True p show ?thesis
    by (auto simp: fsm_rconfnakrej_def proc_def[symmetric] Let_def armed_restart_negotiation inv_intro
        split: if_splits fsm_state.splits)
qed (simp add: fsm_rconfnakrej_def)

lemma armed_rtermreq: "armed st \<Longrightarrow> armed (fsm_rtermreq cb i st)"
  by (simp add: fsm_rtermreq_def armed_set_waiting inv_intro split: fsm_state.split)

lemma armed_rtermack: "armed st \<Longrightarrow> armed (fsm_rtermack cb st)"
  by (simp add: fsm_rtermack_def armed_set_waiting armed_finished_idle inv_intro split: fsm_state.split)

lemma armed_rextcode: "armed st \<Longrightarrow> armed (fsm_rextcode cb code i inpacket len st)"
  using extcode_law by (auto simp: fsm_rextcode_def Let_def split: option.splits prod.splits)

lemma armed_input: "armed st \<Longrightarrow> fsm_input cb inpacket l st = Some st' \<Longrightarrow> armed st'"
  using armed_set_waiting[of st REQSENT]
  by (auto simp: fsm_input_def Let_def fsm_rcoderej_def armed_rconfreq armed_rconfack armed_rtermreq armed_rtermack
      armed_rextcode intro: armed_rconfnakrej split: if_splits)

text \<open>
  Which events can bring the automaton into \<open>OPENED\<close>: only a Configure-Request answered
  with an Ack after our own request was acknowledged, or the acknowledgement of our
  request after we acknowledged the peer's.
\<close>

lemma lowerup_not_opening: "st_of (fsm_lowerup cb st) = OPENED \<Longrightarrow> st_of st = OPENED"
  by (auto simp: fsm_lowerup_def split: fsm_state.splits if_splits)

lemma lowerdown_not_opening: "st_of (fsm_lowerdown cb st) \<noteq> OPENED"
  using starting_not_opening[of "set_state STARTING st"]
  by (auto simp: fsm_lowerdown_def split: fsm_state.splits)

lemma restart_not_opening: "st_of (fsm_lowerup cb (fsm_lowerdown cb st)) \<noteq> OPENED"
  using lowerup_not_opening lowerdown_not_opening by blast

lemma starting_idle_not_opening: "st_of (call (cb_starting cb) (set_state STARTING st)) \<noteq> OPENED"
  using starting_not_opening[of "set_state STARTING st"] by auto

lemma open_not_opening: "st_of (fsm_open cb st) = OPENED \<Longrightarrow> st_of st = OPENED"
  by (cases "st_of st")
    (simp_all add: fsm_open_def Let_def restart_not_opening starting_idle_not_opening split: if_splits)

lemma close_not_opening: "st_of (fsm_close cb st) \<noteq> OPENED"
  by (auto simp: fsm_close_def split: fsm_state.splits)

lemma finished_idle_not_opening:
  "s \<noteq> OPENED \<Longrightarrow> st_of (call (cb_finished cb) (set_state s st)) \<noteq> OPENED"
  using finished_not_opening[of "set_state s st"] by auto

lemma timeout_not_opening: "st_of (fsm_timeout cb st) = OPENED \<Longrightarrow> st_of st = OPENED"
  using retransmit_not_opening[of st]
  by (auto simp: fsm_timeout_def Let_def finished_idle_not_opening sconfreq_state split: if_splits)

lemma protreject_not_opening: "st_of (fsm_protreject cb st) \<noteq> OPENED"
  by (auto simp: fsm_protreject_def finished_idle_not_opening split: fsm_state.splits)

lemma rconfreq_opening:
  assumes op: "st_of (fsm_rconfreq cb i inp len st) = OPENED" and no: "st_of st \<noteq> OPENED"
  shows "st_of st = ACKRCVD \<and>
    (case cb_reqci cb of None \<Rightarrow> len = 0
     | Some rq \<Rightarrow> fst (rq st inp len (f_nakloops (fst st) \<ge> f_maxnakloops (fst st))) = CONFACK)"
proof -
  let ?rq = "\<lambda>st. case cb_reqci cb of
        Some rq \<Rightarrow> rq st inp len (f_nakloops (fst st) \<ge> f_maxnakloops (fst st))
      | None \<Rightarrow> (if len \<noteq> 0 then CONFREJ else CONFACK, inp, len, st)"
  define st1 where "st1 = (case st_of st of
      OPENED \<Rightarrow> fsm_sconfreq cb False (call (cb_down cb) st)
    | STOPPED \<Rightarrow> set_state REQSENT (fsm_sconfreq cb False st) | _ \<Rightarrow> st)"
  obtain code inp' len' st2 where r: "?rq st1 = (code, inp', len', st2)"
    by (metis prod_cases4)
  then have "ci_frame st1 st2"
    using reqci_law by (auto simp: ci_frame_def split: option.splits)
  then have same: "st_of st2 = st_of st1" by (simp add: ci_frame_def)
  have run: "st_of st \<notin> {CLOSED, CLOSING, STOPPING}"
    using op no by (auto simp: fsm_rconfreq_def)
  then have eq: "fsm_rconfreq cb i inp len st =
      (let st3 = fsm_sdata code i (Some inp') len' st2
       in if code = CONFACK
          then on_fsm (\<lambda>f. f\<lparr>f_nakloops := 0\<rparr>)
                 (if st_of st3 = ACKRCVD
                  then call (cb_up cb) (set_state OPENED (UNTIMEOUT st3))
                  else set_state ACKSENT st3)
          else (let st4 = (if st_of st3 \<noteq> ACKRCVD then set_state REQSENT st3 else st3)
                in if code = CONFNAK then on_fsm (\<lambda>f. f\<lparr>f_nakloops := f_nakloops f + 1\<rparr>) st4 else st4))"
    by (simp add: fsm_rconfreq_def st1_def[symmetric] r)
  have "code = CONFACK \<and> st_of st2 = ACKRCVD"
    using op unfolding eq Let_def
    by (cases "code = CONFACK"; cases "code = CONFNAK"; cases "st_of st2 = ACKRCVD") simp_all
  then have "code = CONFACK" and ar: "st_of st2 = ACKRCVD" by blast+
  moreover from ar same no have "st_of st = ACKRCVD" and "st1 = st"
    by (cases "st_of st"; simp add: st1_def)+
  ultimately show ?thesis using r
    by (cases "cb_reqci cb"; cases "len = 0") (simp_all add: code_defs)
qed

lemma rconfack_opening:
  assumes op: "st_of (fsm_rconfack cb i inp len st) = OPENED" and no: "st_of st \<noteq> OPENED"
  shows "st_of st = ACKSENT \<and> i = f_reqid (fst st) \<and>
    (case cb_ackci cb of None \<Rightarrow> len = 0 | Some ac \<Rightarrow> fst (ac st inp len))"
proof -
  obtain good st1 where r:
    "(case cb_ackci cb of Some ac \<Rightarrow> ac st inp len | None \<Rightarrow> (len = 0, st)) = (good, st1)"
    by (metis surj_pair)
  then have "ci_frame st st1" using ackci_law by (auto simp: ci_frame_def split: option.splits)
  then have same: "st_of st1 = st_of st" by (simp add: ci_frame_def)
  have i: "i = f_reqid (fst st)" and good
    using op no same by (auto simp: fsm_rconfack_def r Let_def split: if_splits)
  then have "st_of st = ACKSENT"
    using op no same
    by (cases "st_of st") (simp_all add: fsm_rconfack_def r Let_def restart_negotiation_def on_fsm_def)
  then show ?thesis using r i \<open>good\<close> by (auto split: option.splits)
qed

lemma rconfnakrej_not_opening:
  assumes res: "fsm_rconfnakrej cb code i inp len st = Some st'" and op: "st_of st' = OPENED"
  shows "st_of st = OPENED"
proof (rule ccontr)
  assume no: "st_of st \<noteq> OPENED"
  then have "i = f_reqid (fst st)" using res op by (auto simp: fsm_rconfnakrej_def split: if_splits)
  moreover define proc where "proc = (if code = CONFNAK
     then (case cb_nakci cb of None \<Rightarrow> Some (False, st) | Some proc \<Rightarrow> proc st inp len)
     else Some (case cb_rejci cb of None \<Rightarrow> (False, st) | Some proc \<Rightarrow> proc st inp len))"
  ultimately obtain good st1 where p: "proc = Some (good, st1)" and i: "i = f_reqid (fst st)"
    using res by (auto simp: fsm_rconfnakrej_def)
  then have "st_of st1 \<noteq> OPENED" using no nakci_law[of _ st inp len good st1] rejci_not_opening[of _ st inp len good st1]
    by (auto simp: proc_def ci_frame_def split: if_splits option.splits)
  with res op p i show False
    by (cases "st_of st1") (auto simp: fsm_rconfnakrej_def proc_def[symmetric] Let_def sconfreq_state
        restart_negotiation_def split: if_splits)
qed

lemma rtermreq_not_opening: "st_of (fsm_rtermreq cb i st) = OPENED \<Longrightarrow> st_of st = OPENED"
  by (cases "st_of st") (simp_all add: fsm_rtermreq_def)

lemma rtermack_not_opening: "st_of (fsm_rtermack cb st) = OPENED \<Longrightarrow> st_of st = OPENED"
  by (cases "st_of st") (simp_all add: fsm_rtermack_def finished_idle_not_opening)

lemma rextcode_not_opening: "st_of (fsm_rextcode cb code i inpacket len st) = OPENED \<Longrightarrow> st_of st = OPENED"
  using extcode_not_opening by (auto simp: fsm_rextcode_def Let_def split: option.splits prod.splits if_splits)

text \<open>Retransmission: each expiry uses one of the remaining attempts.\<close>

lemma sconfreq_retransmit:
  assumes "st_of st \<in> {REQSENT, ACKRCVD, ACKSENT}"
  shows "fst (fsm_sconfreq cb True st) = (fst st)\<lparr>f_retransmits := f_retransmits (fst st) - 1\<rparr>"
proof -
  have "fst st' = fst s" if "cb_addci cb = Some ad" "ad s n = (bs, m, st')" for s st' n bs m ad
    using addci_law[OF that] by (simp add: ci_frame_def)
  then show ?thesis using assms
    by (auto simp: fsm_sconfreq_def Let_def on_fsm_def split: option.splits prod.splits)
qed

lemma timeout_retransmits:
  assumes "cb_retransmit cb = None" and "st_of st = REQSENT" and "0 < f_retransmits (fst st)"
  shows "fst (fsm_timeout cb st) = (fst st)\<lparr>f_retransmits := f_retransmits (fst st) - 1\<rparr>"
  using assms by (simp add: fsm_timeout_def Let_def sconfreq_retransmit)

lemma timeouts_exhaust:
  assumes "cb_retransmit cb = None" and "st_of st = REQSENT" and "f_retransmits (fst st) = int n"
  shows "fst ((fsm_timeout cb ^^ n) st) = (fst st)\<lparr>f_retransmits := 0\<rparr>"
  using assms(2,3)
proof (induction n arbitrary: st)
  case 0
  then show ?case by (cases "fst st") simp
next
  case (Suc n)
  have step: "fst (fsm_timeout cb st) = (fst st)\<lparr>f_retransmits := int n\<rparr>"
    using timeout_retransmits[OF assms(1)] Suc.prems by simp
  then show ?case using Suc.prems Suc.IH[of "fsm_timeout cb st"] by (simp add: funpow_Suc_right del: funpow.simps)
qed

end

section \<open>The layer above\<close>

text \<open>
  \<open>layer\<close> tells whether the protocols above have been told that this one is up (by the
  callback \<open>up\<close>) and not since that it is down. The automaton keeps it in step with the
  state \<open>OPENED\<close>, with one exception: a Terminate-Ack received in \<open>OPENED\<close>.
\<close>

definition in_step :: "('x ppp_io_scheme \<Rightarrow> bool) \<Rightarrow> 'x pst \<Rightarrow> bool" where
  "in_step layer st \<longleftrightarrow> (st_of st = OPENED) = layer (snd st)"

locale fsm_layer_below = fsm_protocol cb for cb :: "'x fsm_callbacks" +
  fixes layer :: "'x ppp_io_scheme \<Rightarrow> bool"
  assumes layer_io: "layer (w\<lparr>callout_list := c\<rparr>) = layer w"
      "layer (w\<lparr>outpacket_buf := b\<rparr>) = layer w" "layer (w\<lparr>wire_out := o'\<rparr>) = layer w"
    and resetci_layer: "cb_resetci cb = Some g1 \<Longrightarrow> layer (snd (g1 st)) = layer (snd st)"
    and addci_layer: "cb_addci cb = Some g2 \<Longrightarrow> layer (snd (snd (snd (g2 st n)))) = layer (snd st)"
    and ackci_layer: "cb_ackci cb = Some g3 \<Longrightarrow> layer (snd (snd (g3 st inp n))) = layer (snd st)"
    and nakci_layer: "cb_nakci cb = Some g4 \<Longrightarrow> g4 st inp n = Some r \<Longrightarrow> layer (snd (snd r)) = layer (snd st)"
    and rejci_layer: "cb_rejci cb = Some g3 \<Longrightarrow> g3 st inp n = (good, st') \<Longrightarrow> in_step layer st \<Longrightarrow> in_step layer st'"
    and reqci_layer:
      "cb_reqci cb = Some g5 \<Longrightarrow> layer (snd (snd (snd (snd (g5 st inp n rej))))) = layer (snd st)"
    and down_layer: "\<not> layer (snd (call (cb_down cb) st))" "st_of (call (cb_down cb) st) = st_of st"
    and starting_layer: "in_step layer st \<Longrightarrow> in_step layer (call (cb_starting cb) st)"
    and finished_layer: "in_step layer st \<Longrightarrow> in_step layer (call (cb_finished cb) st)"
    and retransmit_layer: "layer (snd (call (cb_retransmit cb) st)) = layer (snd st)"
    and extcode_layer: "cb_extcode cb = Some g6 \<Longrightarrow> g6 st code i inp n = (h, inp', st')
        \<Longrightarrow> in_step layer st \<Longrightarrow> in_step layer st'"
begin

lemma layer_sdata [simp]: "layer (snd (fsm_sdata c i d n st)) = layer (snd st)"
proof -
  have "layer (w\<lparr>outpacket_buf := b, wire_out := o'\<rparr>) = layer w" for w b o'
    using layer_io(2,3) by metis
  then show ?thesis by (simp add: fsm_sdata_def Let_def)
qed

lemma layer_timers [simp]: "layer (snd (TIMEOUT st)) = layer (snd st)" "layer (snd (UNTIMEOUT st)) = layer (snd st)"
  by (simp_all add: TIMEOUT_def UNTIMEOUT_def layer_io)

lemma layer_send [simp]: "layer (snd (send_termack i st)) = layer (snd st)"
  "layer (snd (send_termreq st)) = layer (snd st)" "layer (snd (start_termination s st)) = layer (snd st)"
  "layer (snd (send_client st)) = layer (snd st)"
  by (simp_all add: send_termack_def send_termreq_def start_termination_def send_client_def Let_def layer_io)

lemma layer_sconfreq [simp]: "layer (snd (fsm_sconfreq cb r st)) = layer (snd st)"
proof -
  have reset: "layer (snd (call (cb_resetci cb) s)) = layer (snd s)" for s
    using resetci_layer by (cases "cb_resetci cb") simp_all
  have add: "layer (snd st') = layer (snd s)" if "cb_addci cb = Some ad" "ad s n = (bs, m, st')" for s st' n bs m ad
    using addci_layer[OF that(1), of s n] that(2) by simp
  show ?thesis
    by (auto simp: fsm_sconfreq_def Let_def reset layer_io dest: add split: option.splits prod.splits)
qed

lemma layer_restart_negotiation: "\<not> layer (snd (restart_negotiation cb st))"
  "st_of (restart_negotiation cb st) = REQSENT"
  by (simp_all add: restart_negotiation_def down_layer)

lemma in_step_idle: "\<not> layer (snd st) \<Longrightarrow> s \<noteq> OPENED \<Longrightarrow> in_step layer (set_state s st)"
  by (simp add: in_step_def)

lemma in_step_finished: "\<not> layer (snd st) \<Longrightarrow> s \<noteq> OPENED \<Longrightarrow> in_step layer (call (cb_finished cb) (set_state s st))"
  using finished_layer[of "set_state s st"] by (simp add: in_step_def)

lemma in_step_starting: "\<not> layer (snd st) \<Longrightarrow> in_step layer (call (cb_starting cb) (set_state STARTING st))"
  using starting_layer[of "set_state STARTING st"] by (simp add: in_step_def)

lemma in_step_lowerup: "in_step layer st \<Longrightarrow> in_step layer (fsm_lowerup cb st)"
  by (cases "st_of st") (simp_all add: fsm_lowerup_def in_step_def)

lemma in_step_lowerdown: "in_step layer st \<Longrightarrow> in_step layer (fsm_lowerdown cb st)"
  using in_step_starting[of st]
  by (cases "st_of st") (simp_all add: fsm_lowerdown_def in_step_def down_layer)

lemma in_step_open: "in_step layer st \<Longrightarrow> in_step layer (fsm_open cb st)"
  using in_step_starting[of st] in_step_lowerup[OF in_step_lowerdown, of st]
    in_step_lowerup[OF in_step_lowerdown, of "set_state STOPPING st"]
  by (cases "st_of st") (simp_all add: fsm_open_def in_step_def Let_def)

lemma in_step_close: "in_step layer st \<Longrightarrow> in_step layer (fsm_close cb st)"
  by (cases "st_of st") (simp_all add: fsm_close_def in_step_def down_layer)

lemma in_step_timeout: "in_step layer st \<Longrightarrow> in_step layer (fsm_timeout cb st)"
  using in_step_finished[of st CLOSED] in_step_finished[of st STOPPED] retransmit_not_opening[of st]
    retransmit_layer[of st]
  by (cases "st_of st") (auto simp: fsm_timeout_def in_step_def Let_def sconfreq_state)

lemma in_step_protreject: "in_step layer st \<Longrightarrow> in_step layer (fsm_protreject cb st)"
  using in_step_finished[of "UNTIMEOUT st"] in_step_finished[of st]
  by (cases "st_of st") (simp_all add: fsm_protreject_def in_step_def down_layer)

lemma in_step_rtermack: "in_step layer st \<Longrightarrow> st_of st \<noteq> OPENED \<Longrightarrow> in_step layer (fsm_rtermack cb st)"
  using in_step_finished[of st] by (cases "st_of st") (simp_all add: fsm_rtermack_def in_step_def)

lemma rtermack_out_of_step:
  "st_of st = OPENED \<Longrightarrow> st_of (fsm_rtermack cb st) = OPENED \<and> \<not> layer (snd (fsm_rtermack cb st))"
  by (simp add: fsm_rtermack_def down_layer sconfreq_state)

lemma in_step_rtermreq: "in_step layer st \<Longrightarrow> in_step layer (fsm_rtermreq cb i st)"
  by (cases "st_of st") (simp_all add: fsm_rtermreq_def in_step_def down_layer on_fsm_def)

lemma in_step_rcoderej: "in_step layer st \<Longrightarrow> in_step layer (fsm_rcoderej len st)"
  by (auto simp: fsm_rcoderej_def in_step_def)

lemma in_step_rextcode:
  assumes "in_step layer st" shows "in_step layer (fsm_rextcode cb code i inpacket len st)"
proof (cases "cb_extcode cb")
  case None
  then show ?thesis using assms by (simp add: fsm_rextcode_def Let_def in_step_def)
next
  case (Some ext)
  obtain h inp' st' where e: "ext st code i (drop 4 inpacket) len = (h, inp', st')"
    by (metis prod_cases3)
  then have "in_step layer st'" using extcode_layer[OF Some e] assms by simp
  then show ?thesis using Some e by (simp add: fsm_rextcode_def Let_def in_step_def)
qed

lemma in_step_rconfnakrej:
  assumes st: "in_step layer st" and res: "fsm_rconfnakrej cb code i inp len st = Some st'"
  shows "in_step layer st'"
proof (cases "i = f_reqid (fst st)")
  case True
  define proc where "proc = (if code = CONFNAK
     then (case cb_nakci cb of None \<Rightarrow> Some (False, st) | Some proc \<Rightarrow> proc st inp len)
     else Some (case cb_rejci cb of None \<Rightarrow> (False, st) | Some proc \<Rightarrow> proc st inp len))"
  then obtain good st1 where p: "proc = Some (good, st1)"
    using res True by (auto simp: fsm_rconfnakrej_def)
  have nak: "in_step layer st1" if "cb_nakci cb = Some g" "g st inp len = Some (good, st1)" for g
    using nakci_law[OF that] nakci_layer[OF that] st by (simp add: in_step_def ci_frame_def)
  have in1: "in_step layer st1"
    using p st nak rejci_layer[of _ st inp len good st1]
    by (cases "cb_nakci cb"; cases "cb_rejci cb"; cases "code = CONFNAK") (auto simp: proc_def)
  show ?thesis using res True p in1
    by (cases "st_of st1"; cases good)
      (simp_all add: fsm_rconfnakrej_def proc_def[symmetric] Let_def in_step_def sconfreq_state
        layer_restart_negotiation, auto simp: sconfreq_state layer_restart_negotiation)
qed (use assms in \<open>simp add: fsm_rconfnakrej_def\<close>)

end

text \<open>With the law for the callback \<open>up\<close>, every event is covered.\<close>

locale fsm_layered = fsm_layer_below +
  assumes up_layer: "st_of st = OPENED \<Longrightarrow> in_step layer (call (cb_up cb) st)"
begin

lemma in_step_rconfack:
  assumes "in_step layer st" shows "in_step layer (fsm_rconfack cb i inp len st)"
proof -
  obtain good st1 where r:
    "(case cb_ackci cb of Some ac \<Rightarrow> ac st inp len | None \<Rightarrow> (len = 0, st)) = (good, st1)"
    by (metis surj_pair)
  have "ci_frame st st1 \<and> layer (snd st1) = layer (snd st)"
    using ackci_law[of _ st inp len good st1] ackci_layer[of _ st inp len] r
    by (cases "cb_ackci cb") (auto simp: ci_frame_def)
  then have in1: "in_step layer st1" using assms by (simp add: in_step_def ci_frame_def)
  let ?s = "on_fsm (\<lambda>f. f\<lparr>f_state := OPENED, f_retransmits := f_maxconfreqtransmits f\<rparr>)
      (UNTIMEOUT (on_fsm (\<lambda>f. f\<lparr>f_reqid := -1\<rparr>) st1))"
  have "in_step layer (call (cb_up cb) ?s)" by (rule up_layer) (simp add: on_fsm_def)
  then show ?thesis using assms in1
    by (cases "st_of st1")
      (simp_all add: fsm_rconfack_def r Let_def in_step_def sconfreq_state layer_restart_negotiation on_fsm_def)
qed

lemma in_step_rconfreq:
  assumes "in_step layer st" shows "in_step layer (fsm_rconfreq cb i inp len st)"
proof -
  let ?rq = "\<lambda>st. case cb_reqci cb of
        Some rq \<Rightarrow> rq st inp len (f_nakloops (fst st) \<ge> f_maxnakloops (fst st))
      | None \<Rightarrow> (if len \<noteq> 0 then CONFREJ else CONFACK, inp, len, st)"
  define st1 where "st1 = (case st_of st of
      OPENED \<Rightarrow> fsm_sconfreq cb False (call (cb_down cb) st)
    | STOPPED \<Rightarrow> set_state REQSENT (fsm_sconfreq cb False st) | _ \<Rightarrow> st)"
  obtain code inp' len' st2 where r: "?rq st1 = (code, inp', len', st2)"
    by (metis prod_cases4)
  have same: "st_of st2 = st_of st1 \<and> layer (snd st2) = layer (snd st1)"
  proof (cases "cb_reqci cb")
    case (Some rq)
    with r have rq: "rq st1 inp len (f_nakloops (fst st1) \<ge> f_maxnakloops (fst st1)) = (code, inp', len', st2)"
      by simp
    show ?thesis
      using reqci_law[OF Some rq] reqci_layer[OF Some, of st1 inp len] rq
      by (simp add: ci_frame_def) (metis snd_conv)
  qed (use r in simp)
  have down: "\<not> layer (snd st1)"
    using assms by (cases "st_of st") (simp_all add: st1_def in_step_def down_layer)
  have up: "in_step layer (call (cb_up cb) (set_state OPENED s))" for s
    by (rule up_layer) simp
  show ?thesis
  proof (cases "st_of st \<in> {CLOSED, CLOSING, STOPPING}")
    case False
    then show ?thesis using same down up[of "UNTIMEOUT (fsm_sdata code i (Some inp') len' st2)"]
      by (cases "code = CONFACK"; cases "code = CONFNAK")
        (simp_all add: fsm_rconfreq_def st1_def[symmetric] r Let_def in_step_def code_defs)
  qed (use assms in \<open>auto simp: fsm_rconfreq_def in_step_def\<close>)
qed

text \<open>Everything the peer sends keeps the layers in step, except a Terminate-Ack in \<open>OPENED\<close>.\<close>

lemma in_step_input:
  assumes "in_step layer st" and "fsm_input cb inpacket l st = Some st'"
    and "st_of st = OPENED \<longrightarrow> inpacket ! 0 \<noteq> TERMACK"
  shows "in_step layer st'"
  using assms in_step_rtermack[of st]
  by (auto simp: fsm_input_def Let_def in_step_rconfreq in_step_rconfack in_step_rtermreq in_step_rcoderej
      in_step_rextcode intro: in_step_rconfnakrej split: if_splits)

end

end
