(* ===== verification/Ppp_Lcp_Options.thy ===== *)
theory Ppp_Lcp_Options
  imports Ppp_State
begin

text \<open>
  LCP option negotiation (\<^verbatim>\<open>lcp.c\<close>, \<open>lcp_cilen\<close> to \<open>lcp_reqci\<close>) as functions of the option
  sets and the packet bytes. The macro families of the file (\<^verbatim>\<open>ADDCI...\<close>, \<^verbatim>\<open>ACKCI...\<close>,
  \<^verbatim>\<open>NAKCI...\<close>, \<^verbatim>\<open>REJCI...\<close>) are one definition per macro. A packet position is the rest of
  the buffer together with the number of unread bytes of the packet.
\<close>

section \<open>Option codes and lengths\<close>

definition CI_MRU :: u8 where "CI_MRU = 1"
definition CI_ASYNCMAP :: u8 where "CI_ASYNCMAP = 2"
definition CI_AUTHTYPE :: u8 where "CI_AUTHTYPE = 3"
definition CI_QUALITY :: u8 where "CI_QUALITY = 4"
definition CI_MAGICNUMBER :: u8 where "CI_MAGICNUMBER = 5"
definition CI_PCOMPRESSION :: u8 where "CI_PCOMPRESSION = 7"
definition CI_ACCOMPRESSION :: u8 where "CI_ACCOMPRESSION = 8"

definition CILEN_VOID :: nat where "CILEN_VOID = 2"
definition CILEN_SHORT :: nat where "CILEN_SHORT = 4"
definition CILEN_CHAP :: nat where "CILEN_CHAP = 5"
definition CILEN_LONG :: nat where "CILEN_LONG = 6"
definition CILEN_LQR :: nat where "CILEN_LQR = 8"

definition UPAP :: u16 where "UPAP = 0xc023"
definition CHAP :: u16 where "CHAP = 0xc223"
definition LQR :: u16 where "LQR = 0xc025"

definition MINMRU :: u16 where "MINMRU = 128"
definition DEFMRU :: u16 where "DEFMRU = 1500"
definition MAXMRU :: u16 where "MAXMRU = 16384"
definition CHAP_DIGEST_MD5 :: u8 where "CHAP_DIGEST_MD5 = 5"

lemmas ci_defs = CI_MRU_def CI_ASYNCMAP_def CI_AUTHTYPE_def CI_QUALITY_def CI_MAGICNUMBER_def
  CI_PCOMPRESSION_def CI_ACCOMPRESSION_def
lemmas cilen_defs = CILEN_VOID_def CILEN_SHORT_def CILEN_CHAP_def CILEN_LONG_def CILEN_LQR_def
lemmas proto_defs = UPAP_def CHAP_def LQR_def

text \<open>\<^verbatim>\<open>GETSHORT\<close> and \<^verbatim>\<open>GETLONG\<close> at the head of a buffer.\<close>

definition get_short :: "u8 list \<Rightarrow> u16" where
  "get_short p = GETSHORT (p ! 0) (p ! 1)"

definition get_long :: "u8 list \<Rightarrow> u32" where
  "get_long p = GETLONG (p ! 0) (p ! 1) (p ! 2) (p ! 3)"

section \<open>Our request\<close>

definition lcp_cilen :: "lcp_options \<Rightarrow> nat" where
  "lcp_cilen go =
     (if neg_mru go then CILEN_SHORT else 0) +
     (if neg_asyncmap go then CILEN_LONG else 0) +
     (if neg_chap go then CILEN_CHAP else 0) +
     (if \<not> neg_chap go \<and> neg_upap go then CILEN_SHORT else 0) +
     (if neg_lqr go then CILEN_LQR else 0) +
     (if neg_magicnumber go then CILEN_LONG else 0) +
     (if neg_pcompression go then CILEN_VOID else 0) +
     (if neg_accompression go then CILEN_VOID else 0)"

definition ADDCIVOID :: "u8 \<Rightarrow> bool \<Rightarrow> u8 list" where
  "ADDCIVOID opt neg = (if neg then [opt, of_nat CILEN_VOID] else [])"

definition ADDCISHORT :: "u8 \<Rightarrow> bool \<Rightarrow> u16 \<Rightarrow> u8 list" where
  "ADDCISHORT opt neg val = (if neg then [opt, of_nat CILEN_SHORT] @ PUTSHORT val else [])"

definition ADDCICHAP :: "u8 \<Rightarrow> bool \<Rightarrow> u16 \<Rightarrow> u8 \<Rightarrow> u8 list" where
  "ADDCICHAP opt neg val digest =
     (if neg then [opt, of_nat CILEN_CHAP] @ PUTSHORT val @ [digest] else [])"

definition ADDCILONG :: "u8 \<Rightarrow> bool \<Rightarrow> u32 \<Rightarrow> u8 list" where
  "ADDCILONG opt neg val = (if neg then [opt, of_nat CILEN_LONG] @ PUTLONG val else [])"

definition ADDCILQR :: "u8 \<Rightarrow> bool \<Rightarrow> u32 \<Rightarrow> u8 list" where
  "ADDCILQR opt neg val =
     (if neg then [opt, of_nat CILEN_LQR] @ PUTSHORT LQR @ PUTLONG val else [])"

definition lcp_addci :: "lcp_options \<Rightarrow> u8 list" where
  "lcp_addci go =
     ADDCISHORT CI_MRU (neg_mru go) (mru go) @
     ADDCILONG CI_ASYNCMAP (neg_asyncmap go) (asyncmap go) @
     ADDCICHAP CI_AUTHTYPE (neg_chap go) CHAP (chap_mdtype go) @
     ADDCISHORT CI_AUTHTYPE (\<not> neg_chap go \<and> neg_upap go) UPAP @
     ADDCILQR CI_QUALITY (neg_lqr go) (lqr_period go) @
     ADDCILONG CI_MAGICNUMBER (neg_magicnumber go) (magicnumber go) @
     ADDCIVOID CI_PCOMPRESSION (neg_pcompression go) @
     ADDCIVOID CI_ACCOMPRESSION (neg_accompression go)"

lemmas addci_defs = ADDCIVOID_def ADDCISHORT_def ADDCICHAP_def ADDCILONG_def ADDCILQR_def

section \<open>Configure-Ack\<close>

text \<open>A position in the packet; \<open>None\<close> after \<^verbatim>\<open>goto bad\<close>.\<close>

type_synonym cursor = "(u8 list \<times> nat) option"

definition ACKCIVOID :: "u8 \<Rightarrow> bool \<Rightarrow> cursor \<Rightarrow> cursor" where
  "ACKCIVOID opt neg c = Option.bind c (\<lambda>(p, len).
     if \<not> neg then Some (p, len)
     else if len < CILEN_VOID then None
     else if p ! 1 \<noteq> of_nat CILEN_VOID \<or> p ! 0 \<noteq> opt then None
     else Some (drop CILEN_VOID p, len - CILEN_VOID))"

definition ACKCISHORT :: "u8 \<Rightarrow> bool \<Rightarrow> u16 \<Rightarrow> cursor \<Rightarrow> cursor" where
  "ACKCISHORT opt neg val c = Option.bind c (\<lambda>(p, len).
     if \<not> neg then Some (p, len)
     else if len < CILEN_SHORT then None
     else if p ! 1 \<noteq> of_nat CILEN_SHORT \<or> p ! 0 \<noteq> opt then None
     else if get_short (drop 2 p) \<noteq> val then None
     else Some (drop CILEN_SHORT p, len - CILEN_SHORT))"

definition ACKCICHAP :: "u8 \<Rightarrow> bool \<Rightarrow> u16 \<Rightarrow> u8 \<Rightarrow> cursor \<Rightarrow> cursor" where
  "ACKCICHAP opt neg val digest c = Option.bind c (\<lambda>(p, len).
     if \<not> neg then Some (p, len)
     else if len < CILEN_CHAP then None
     else if p ! 1 \<noteq> of_nat CILEN_CHAP \<or> p ! 0 \<noteq> opt then None
     else if get_short (drop 2 p) \<noteq> val then None
     else if p ! 4 \<noteq> digest then None
     else Some (drop CILEN_CHAP p, len - CILEN_CHAP))"

definition ACKCILONG :: "u8 \<Rightarrow> bool \<Rightarrow> u32 \<Rightarrow> cursor \<Rightarrow> cursor" where
  "ACKCILONG opt neg val c = Option.bind c (\<lambda>(p, len).
     if \<not> neg then Some (p, len)
     else if len < CILEN_LONG then None
     else if p ! 1 \<noteq> of_nat CILEN_LONG \<or> p ! 0 \<noteq> opt then None
     else if get_long (drop 2 p) \<noteq> val then None
     else Some (drop CILEN_LONG p, len - CILEN_LONG))"

definition ACKCILQR :: "u8 \<Rightarrow> bool \<Rightarrow> u32 \<Rightarrow> cursor \<Rightarrow> cursor" where
  "ACKCILQR opt neg val c = Option.bind c (\<lambda>(p, len).
     if \<not> neg then Some (p, len)
     else if len < CILEN_LQR then None
     else if p ! 1 \<noteq> of_nat CILEN_LQR \<or> p ! 0 \<noteq> opt then None
     else if get_short (drop 2 p) \<noteq> LQR then None
     else if get_long (drop 4 p) \<noteq> val then None
     else Some (drop CILEN_LQR p, len - CILEN_LQR))"

definition lcp_ackci :: "lcp_options \<Rightarrow> u8 list \<Rightarrow> nat \<Rightarrow> bool" where
  "lcp_ackci go p len =
     (case ACKCIVOID CI_ACCOMPRESSION (neg_accompression go)
          (ACKCIVOID CI_PCOMPRESSION (neg_pcompression go)
          (ACKCILONG CI_MAGICNUMBER (neg_magicnumber go) (magicnumber go)
          (ACKCILQR CI_QUALITY (neg_lqr go) (lqr_period go)
          (ACKCISHORT CI_AUTHTYPE (\<not> neg_chap go \<and> neg_upap go) UPAP
          (ACKCICHAP CI_AUTHTYPE (neg_chap go) CHAP (chap_mdtype go)
          (ACKCILONG CI_ASYNCMAP (neg_asyncmap go) (asyncmap go)
          (ACKCISHORT CI_MRU (neg_mru go) (mru go) (Some (p, len))))))))) of
        None \<Rightarrow> False
      | Some (_, rest) \<Rightarrow> rest = 0)"

section \<open>Correctness of requests and acknowledgements\<close>

text \<open>
  The length \<open>lcp_cilen\<close> announces is the number of bytes \<open>lcp_addci\<close> stores, for
  every option set, so the check at the end of \<open>lcp_addci\<close> never fires.
\<close>

theorem lcp_addci_length: "length (lcp_addci go) = lcp_cilen go"
  by (simp add: lcp_addci_def lcp_cilen_def addci_defs cilen_defs)

text \<open>What an \<^verbatim>\<open>ACKCI\<close> macro does: it consumes exactly the bytes the \<^verbatim>\<open>ADDCI\<close> macro stores.\<close>

definition expect :: "u8 list \<Rightarrow> cursor \<Rightarrow> cursor" where
  "expect bs c = Option.bind c (\<lambda>(p, len).
     if length bs \<le> len \<and> take (length bs) p = bs then Some (drop (length bs) p, len - length bs) else None)"

lemma expect_append: "expect bs' (expect bs c) = expect (bs @ bs') c"
proof (cases c)
  case (Some pl)
  obtain p len where pl: "pl = (p, len)" by force
  show ?thesis
  proof (cases "length bs \<le> len \<and> take (length bs) p = bs")
    case True
    then have "take (length bs + length bs') p = bs @ bs' \<longleftrightarrow> take (length bs') (drop (length bs) p) = bs'"
      by (simp add: take_add)
    then show ?thesis using True by (auto simp: expect_def Some pl add.commute)
  next
    case False
    have "take (length bs) p = bs" if "take (length bs + length bs') p = bs @ bs'"
      using arg_cong[OF that, of "take (length bs)"] by (simp add: min_def)
    then have "\<not> (length (bs @ bs') \<le> len \<and> take (length (bs @ bs')) p = bs @ bs')"
      using False by auto
    with False show ?thesis by (auto simp: expect_def Some pl)
  qed
qed (simp add: expect_def)

definition cursor_ok :: "cursor \<Rightarrow> bool" where
  "cursor_ok c \<longleftrightarrow> (case c of None \<Rightarrow> True | Some (p, len) \<Rightarrow> len \<le> length p)"

lemma cursor_ok_expect [simp]: "cursor_ok c \<Longrightarrow> cursor_ok (expect bs c)"
  by (auto simp: cursor_ok_def expect_def split: option.splits if_splits)

lemma expect_None [simp]: "expect bs None = None"
  by (simp add: expect_def)

lemma expect_Nil [simp]: "expect [] c = c"
  by (cases c) (auto simp: expect_def)

text \<open>Long enough buffers, opened up to their first bytes.\<close>

lemma take_drop_short:
  assumes "k + 2 \<le> length p" shows "take 2 (drop k p) = PUTSHORT v \<longleftrightarrow> get_short (drop k p) = v"
proof -
  have "take 2 (drop k p) = [drop k p ! 0, drop k p ! 1]"
    using assms by (auto simp: take_Suc_conv_app_nth numeral_2_eq_2)
  then show ?thesis using PUTSHORT_eq_iff by (metis get_short_def)
qed

lemma take_drop_long:
  assumes "k + 4 \<le> length p" shows "take 4 (drop k p) = PUTLONG v \<longleftrightarrow> get_long (drop k p) = v"
proof -
  have "take 4 (drop k p) = [drop k p ! 0, drop k p ! 1, drop k p ! 2, drop k p ! 3]"
    using assms by (auto simp: take_Suc_conv_app_nth eval_nat_numeral)
  then show ?thesis using PUTLONG_eq_iff by (metis get_long_def)
qed

lemma take_split:
  "length xs = m \<Longrightarrow> m + n \<le> length p \<Longrightarrow>
    take (m + n) p = xs @ ys \<longleftrightarrow> take m p = xs \<and> take n (drop m p) = ys"
  by (auto simp: take_add)

text \<open>One configuration option: type, length and the body.\<close>

lemma expect_ci:
  assumes "len \<le> length p" and "length body = n"
  shows "expect (opt # k # body) (Some (p, len)) =
    (if len < n + 2 then None
     else if p ! 1 \<noteq> k \<or> p ! 0 \<noteq> opt then None
     else if take n (drop 2 p) \<noteq> body then None
     else Some (drop (n + 2) p, len - (n + 2)))"
proof (cases "n + 2 \<le> len")
  case True
  then obtain x y q where "p = x # y # q" using assms(1) by (metis Suc_le_length_iff add_2_eq_Suc' order_trans)
  with True assms(2) show ?thesis by (auto simp: expect_def)
qed (use assms in \<open>simp add: expect_def\<close>)

lemma ACKCIVOID_expect: "cursor_ok c \<Longrightarrow> ACKCIVOID opt neg c = expect (ADDCIVOID opt neg) c"
  by (auto simp: ACKCIVOID_def ADDCIVOID_def cursor_ok_def cilen_defs expect_ci[where n=0]
      numeral_2_eq_2 split: option.splits)

lemma ACKCISHORT_expect: "cursor_ok c \<Longrightarrow> ACKCISHORT opt neg val c = expect (ADDCISHORT opt neg val) c"
  by (auto simp: ACKCISHORT_def ADDCISHORT_def cursor_ok_def cilen_defs expect_ci[where n=2]
      take_drop_short split: option.splits)

lemma ACKCILONG_expect: "cursor_ok c \<Longrightarrow> ACKCILONG opt neg val c = expect (ADDCILONG opt neg val) c"
  by (auto simp: ACKCILONG_def ADDCILONG_def cursor_ok_def cilen_defs expect_ci[where n=4]
      take_drop_long split: option.splits)

lemma ACKCICHAP_expect:
  "cursor_ok c \<Longrightarrow> ACKCICHAP opt neg val digest c = expect (ADDCICHAP opt neg val digest) c"
proof (cases c)
  case (Some pl)
  moreover obtain p len where "pl = (p, len)" by force
  moreover have "take 3 (drop 2 p) = PUTSHORT val @ [digest] \<longleftrightarrow> get_short (drop 2 p) = val \<and> p ! 4 = digest"
    if "5 \<le> length p"
    using that take_split[of "PUTSHORT val" 2 1 "drop 2 p" "[digest]"] take_drop_short[of 2 p val]
    by (auto simp: take_Suc_conv_app_nth)
  moreover assume "cursor_ok c"
  ultimately show ?thesis
    by (auto simp: ACKCICHAP_def ADDCICHAP_def cursor_ok_def cilen_defs expect_ci[where n=3])
qed (simp add: ACKCICHAP_def expect_def)

lemma ACKCILQR_expect: "cursor_ok c \<Longrightarrow> ACKCILQR opt neg val c = expect (ADDCILQR opt neg val) c"
proof (cases c)
  case (Some pl)
  moreover obtain p len where "pl = (p, len)" by force
  moreover have "take 6 (drop 2 p) = PUTSHORT LQR @ PUTLONG val
      \<longleftrightarrow> get_short (drop 2 p) = LQR \<and> get_long (drop 4 p) = val" if "8 \<le> length p"
    using that take_split[of "PUTSHORT LQR" 2 4 "drop 2 p" "PUTLONG val"] take_drop_short[of 2 p LQR]
      take_drop_long[of 4 p val] by simp
  moreover assume "cursor_ok c"
  ultimately show ?thesis
    by (auto simp: ACKCILQR_def ADDCILQR_def cursor_ok_def cilen_defs expect_ci[where n=6])
qed (simp add: ACKCILQR_def expect_def)

lemmas ackci_expect = ACKCIVOID_expect ACKCISHORT_expect ACKCICHAP_expect ACKCILONG_expect ACKCILQR_expect

lemma ackci_accepts:
  assumes "len \<le> length p"
  shows "lcp_ackci go p len \<longleftrightarrow> take len p = lcp_addci go"
proof -
  let ?c = "Some (p, len)"
  have ok: "cursor_ok ?c" using assms by (simp add: cursor_ok_def)
  have "lcp_ackci go p len \<longleftrightarrow> (case expect (lcp_addci go) ?c of None \<Rightarrow> False | Some (_, r) \<Rightarrow> r = 0)"
    unfolding lcp_ackci_def by (simp add: ok ackci_expect expect_append lcp_addci_def)
  also have "\<dots> \<longleftrightarrow> take len p = lcp_addci go"
  proof
    assume "take len p = lcp_addci go"
    moreover from this assms have "length (lcp_addci go) = len" by (metis length_take min.absorb2)
    ultimately show "case expect (lcp_addci go) ?c of None \<Rightarrow> False | Some (_, r) \<Rightarrow> r = 0"
      by (simp add: expect_def)
  qed (auto simp: expect_def split: if_splits)
  finally show ?thesis .
qed

text \<open>
  C30: an acknowledgement is accepted exactly when it repeats, byte for byte and in the
  same order, the options of our request. What \<open>lcp_addci\<close> wrote is accepted, and nothing
  else is.
\<close>

theorem lcp_ackci_iff:
  assumes "len \<le> length p"
  shows "lcp_ackci go p len \<longleftrightarrow> take len p = lcp_addci go"
  by (rule ackci_accepts[OF assms])

theorem lcp_ackci_iff_witness:
  "lcp_ackci (zero_lcp_options\<lparr>neg_mru := True, mru := 1500\<rparr>) [1, 4, 5, 220, 9] 4"
  using lcp_ackci_iff[of 4 "[1, 4, 5, 220, 9]" "zero_lcp_options\<lparr>neg_mru := True, mru := 1500\<rparr>"]
  by (simp add: lcp_addci_def addci_defs zero_lcp_options_def PUTSHORT_def ci_defs cilen_defs)

section \<open>Configure-Nak\<close>

text \<open>
  The variables of \<open>lcp_nakci\<close>: the position, the options seen in Naks (\<open>no\<close>), the options to
  request next (\<open>try\<close>) and the unit, whose magic number generator may be used.
\<close>

record 'w nak_state =
  nk_p :: "u8 list"
  nk_len :: nat
  nk_no :: lcp_options
  nk_try :: lcp_options
  nk_io :: 'w

text \<open>
  The shape all \<^verbatim>\<open>NAKCI\<close> macros share: the guard on the flag, the remaining length and the
  option header, then the position, the \<open>no\<close> flag and the code of the call site, which is
  given the option's bytes.
\<close>

definition nak_step :: "nat \<Rightarrow> u8 \<Rightarrow> bool \<Rightarrow> (lcp_options \<Rightarrow> lcp_options)
    \<Rightarrow> (u8 list \<Rightarrow> 'w nak_state \<Rightarrow> 'w nak_state) \<Rightarrow> 'w nak_state \<Rightarrow> 'w nak_state" where
  "nak_step cilen opt neg seen code s =
     (let p = nk_p s
      in if neg \<and> nk_len s \<ge> cilen \<and> p ! 1 = of_nat cilen \<and> p ! 0 = opt
         then code p (s\<lparr>nk_p := drop cilen p, nk_len := nk_len s - cilen, nk_no := seen (nk_no s)\<rparr>)
         else s)"

definition NAKCIVOID :: "u8 \<Rightarrow> bool \<Rightarrow> (lcp_options \<Rightarrow> lcp_options)
    \<Rightarrow> ('w nak_state \<Rightarrow> 'w nak_state) \<Rightarrow> 'w nak_state \<Rightarrow> 'w nak_state" where
  "NAKCIVOID opt neg seen code = nak_step CILEN_VOID opt neg seen (\<lambda>_. code)"

definition NAKCICHAP :: "u8 \<Rightarrow> bool \<Rightarrow> (lcp_options \<Rightarrow> lcp_options)
    \<Rightarrow> (u16 \<Rightarrow> u8 \<Rightarrow> 'w nak_state \<Rightarrow> 'w nak_state) \<Rightarrow> 'w nak_state \<Rightarrow> 'w nak_state" where
  "NAKCICHAP opt neg seen code =
     nak_step CILEN_CHAP opt neg seen (\<lambda>p. code (get_short (drop 2 p)) (p ! 4))"

definition NAKCISHORT :: "u8 \<Rightarrow> bool \<Rightarrow> (lcp_options \<Rightarrow> lcp_options)
    \<Rightarrow> (u16 \<Rightarrow> 'w nak_state \<Rightarrow> 'w nak_state) \<Rightarrow> 'w nak_state \<Rightarrow> 'w nak_state" where
  "NAKCISHORT opt neg seen code = nak_step CILEN_SHORT opt neg seen (\<lambda>p. code (get_short (drop 2 p)))"

definition NAKCILONG :: "u8 \<Rightarrow> bool \<Rightarrow> (lcp_options \<Rightarrow> lcp_options)
    \<Rightarrow> (u32 \<Rightarrow> 'w nak_state \<Rightarrow> 'w nak_state) \<Rightarrow> 'w nak_state \<Rightarrow> 'w nak_state" where
  "NAKCILONG opt neg seen code = nak_step CILEN_LONG opt neg seen (\<lambda>p. code (get_long (drop 2 p)))"

definition NAKCILQR :: "u8 \<Rightarrow> bool \<Rightarrow> (lcp_options \<Rightarrow> lcp_options)
    \<Rightarrow> (u16 \<Rightarrow> u32 \<Rightarrow> 'w nak_state \<Rightarrow> 'w nak_state) \<Rightarrow> 'w nak_state \<Rightarrow> 'w nak_state" where
  "NAKCILQR opt neg seen code =
     nak_step CILEN_LQR opt neg seen (\<lambda>p. code (get_short (drop 2 p)) (get_long (drop 4 p)))"

definition on_try :: "(lcp_options \<Rightarrow> lcp_options) \<Rightarrow> 'w nak_state \<Rightarrow> 'w nak_state" where
  "on_try g s = s\<lparr>nk_try := g (nk_try s)\<rparr>"

text \<open>The eight macro calls of \<open>lcp_nakci\<close>, in order.\<close>

definition nak_options ::
    "lcp_options \<Rightarrow> lcp_options \<Rightarrow> 'x ppp_io_scheme nak_state \<Rightarrow> 'x ppp_io_scheme nak_state" where
  "nak_options go wo s0 =
     (let s1 = NAKCISHORT CI_MRU (neg_mru go) (\<lambda>n. n\<lparr>neg_mru := True\<rparr>)
                 (\<lambda>cishort. if cishort \<le> mru wo \<or> cishort < DEFMRU
                            then on_try (\<lambda>t. t\<lparr>mru := cishort\<rparr>) else id) s0;
          s2 = NAKCILONG CI_ASYNCMAP (neg_asyncmap go) (\<lambda>n. n\<lparr>neg_asyncmap := True\<rparr>)
                 (\<lambda>cilong. on_try (\<lambda>t. t\<lparr>asyncmap := asyncmap go OR cilong\<rparr>)) s1;
          s3 = NAKCICHAP CI_AUTHTYPE (neg_chap go) (\<lambda>n. n\<lparr>neg_chap := True\<rparr>)
                 (\<lambda>_ _. on_try (\<lambda>t. t\<lparr>neg_chap := False\<rparr>)) s2;
          s4 = (if \<not> neg_chap go
                then NAKCISHORT CI_AUTHTYPE (neg_upap go) (\<lambda>n. n\<lparr>neg_upap := True\<rparr>)
                       (\<lambda>_. on_try (\<lambda>t. t\<lparr>neg_upap := False\<rparr>)) s3
                else s3);
          s5 = NAKCILQR CI_QUALITY (neg_lqr go) (\<lambda>n. n\<lparr>neg_lqr := True\<rparr>)
                 (\<lambda>cishort cilong. if cishort \<noteq> LQR then on_try (\<lambda>t. t\<lparr>neg_lqr := False\<rparr>)
                                   else on_try (\<lambda>t. t\<lparr>lqr_period := cilong\<rparr>)) s4;
          s6 = NAKCILONG CI_MAGICNUMBER (neg_magicnumber go) (\<lambda>n. n\<lparr>neg_magicnumber := True\<rparr>)
                 (\<lambda>_ s. let (m, io) = magic (nk_io s)
                        in on_try (\<lambda>t. t\<lparr>magicnumber := m, numloops := numloops t + 1\<rparr>) (s\<lparr>nk_io := io\<rparr>)) s5;
          s7 = NAKCIVOID CI_PCOMPRESSION (neg_pcompression go) (\<lambda>n. n\<lparr>neg_pcompression := True\<rparr>)
                 (on_try (\<lambda>t. t\<lparr>neg_pcompression := False\<rparr>)) s6
      in NAKCIVOID CI_ACCOMPRESSION (neg_accompression go) (\<lambda>n. n\<lparr>neg_accompression := True\<rparr>)
           (on_try (\<lambda>t. t\<lparr>neg_accompression := False\<rparr>)) s7)"

text \<open>The switch in the loop over the remaining options: is the option refused?\<close>

definition nak_bad :: "lcp_options \<Rightarrow> lcp_options \<Rightarrow> u8 \<Rightarrow> nat \<Rightarrow> bool" where
  "nak_bad go no citype cilen =
     (if citype = CI_MRU then neg_mru go \<or> neg_mru no \<or> cilen \<noteq> CILEN_SHORT
      else if citype = CI_ASYNCMAP then neg_asyncmap go \<or> neg_asyncmap no \<or> cilen \<noteq> CILEN_LONG
      else if citype = CI_AUTHTYPE then neg_chap go \<or> neg_chap no \<or> neg_upap go \<or> neg_upap no
      else if citype = CI_MAGICNUMBER then neg_magicnumber go \<or> neg_magicnumber no \<or> cilen \<noteq> CILEN_LONG
      else if citype = CI_PCOMPRESSION then neg_pcompression go \<or> neg_pcompression no \<or> cilen \<noteq> CILEN_VOID
      else if citype = CI_ACCOMPRESSION then neg_accompression go \<or> neg_accompression no \<or> cilen \<noteq> CILEN_VOID
      else if citype = CI_QUALITY then neg_lqr go \<or> neg_lqr no \<or> cilen \<noteq> CILEN_LQR
      else True)"

text \<open>
  The loop. It steps by the length byte of each option, which an Authentication-Protocol
  option may have zero: then it makes no progress.
\<close>

partial_function (option) nak_rest :: "lcp_options \<Rightarrow> lcp_options \<Rightarrow> u8 list \<Rightarrow> nat \<Rightarrow> bool option" where
  "nak_rest go no p len =
     (if len \<le> CILEN_VOID then Some (len = 0)
      else if len < unat (p ! 1) then Some False
      else if nak_bad go no (p ! 0) (unat (p ! 1)) then Some False
      else nak_rest go no (drop (unat (p ! 1)) p) (len - unat (p ! 1)))"

text \<open>
  \<open>lcp_nakci\<close>: the verdict, our option set afterwards and the unit; \<open>None\<close> when the loop does
  not return.
\<close>

definition lcp_nakci :: "bool \<Rightarrow> lcp_options \<Rightarrow> lcp_options \<Rightarrow> 'x ppp_io_scheme \<Rightarrow> u8 list \<Rightarrow> nat
    \<Rightarrow> (bool \<times> lcp_options \<times> 'x ppp_io_scheme) option" where
  "lcp_nakci opened go wo io p len =
     (let s = nak_options go wo \<lparr>nk_p = p, nk_len = len, nk_no = zero_lcp_options, nk_try = go, nk_io = io\<rparr>
      in map_option (\<lambda>good. (good, if good \<and> \<not> opened then nk_try s else go, nk_io s))
           (nak_rest go (nk_no s) (nk_p s) (nk_len s)))"

section \<open>Configure-Reject\<close>

text \<open>The position together with the options to request next; \<open>None\<close> after \<^verbatim>\<open>goto bad\<close>.\<close>

type_synonym rej_cursor = "(u8 list \<times> nat \<times> lcp_options) option"

definition REJCIVOID :: "u8 \<Rightarrow> bool \<Rightarrow> (lcp_options \<Rightarrow> lcp_options) \<Rightarrow> rej_cursor \<Rightarrow> rej_cursor" where
  "REJCIVOID opt neg off c = Option.bind c (\<lambda>(p, len, tryo).
     if neg \<and> len \<ge> CILEN_VOID \<and> p ! 1 = of_nat CILEN_VOID \<and> p ! 0 = opt
     then Some (drop CILEN_VOID p, len - CILEN_VOID, off tryo)
     else Some (p, len, tryo))"

definition REJCISHORT :: "u8 \<Rightarrow> bool \<Rightarrow> (lcp_options \<Rightarrow> lcp_options) \<Rightarrow> u16 \<Rightarrow> rej_cursor \<Rightarrow> rej_cursor" where
  "REJCISHORT opt neg off val c = Option.bind c (\<lambda>(p, len, tryo).
     if neg \<and> len \<ge> CILEN_SHORT \<and> p ! 1 = of_nat CILEN_SHORT \<and> p ! 0 = opt
     then if get_short (drop 2 p) \<noteq> val then None
          else Some (drop CILEN_SHORT p, len - CILEN_SHORT, off tryo)
     else Some (p, len, tryo))"

definition REJCICHAP :: "u8 \<Rightarrow> bool \<Rightarrow> (lcp_options \<Rightarrow> lcp_options) \<Rightarrow> u16 \<Rightarrow> u8 \<Rightarrow> rej_cursor \<Rightarrow> rej_cursor" where
  "REJCICHAP opt neg off val digest c = Option.bind c (\<lambda>(p, len, tryo).
     if neg \<and> len \<ge> CILEN_CHAP \<and> p ! 1 = of_nat CILEN_CHAP \<and> p ! 0 = opt
     then if get_short (drop 2 p) \<noteq> val \<or> p ! 4 \<noteq> digest then None
          else Some (drop CILEN_CHAP p, len - CILEN_CHAP, off tryo)
     else Some (p, len, tryo))"

definition REJCILONG :: "u8 \<Rightarrow> bool \<Rightarrow> (lcp_options \<Rightarrow> lcp_options) \<Rightarrow> u32 \<Rightarrow> rej_cursor \<Rightarrow> rej_cursor" where
  "REJCILONG opt neg off val c = Option.bind c (\<lambda>(p, len, tryo).
     if neg \<and> len \<ge> CILEN_LONG \<and> p ! 1 = of_nat CILEN_LONG \<and> p ! 0 = opt
     then if get_long (drop 2 p) \<noteq> val then None
          else Some (drop CILEN_LONG p, len - CILEN_LONG, off tryo)
     else Some (p, len, tryo))"

definition REJCILQR :: "u8 \<Rightarrow> bool \<Rightarrow> (lcp_options \<Rightarrow> lcp_options) \<Rightarrow> u32 \<Rightarrow> rej_cursor \<Rightarrow> rej_cursor" where
  "REJCILQR opt neg off val c = Option.bind c (\<lambda>(p, len, tryo).
     if neg \<and> len \<ge> CILEN_LQR \<and> p ! 1 = of_nat CILEN_LQR \<and> p ! 0 = opt
     then if get_short (drop 2 p) \<noteq> LQR \<or> get_long (drop 4 p) \<noteq> val then None
          else Some (drop CILEN_LQR p, len - CILEN_LQR, off tryo)
     else Some (p, len, tryo))"

definition rej_options :: "lcp_options \<Rightarrow> rej_cursor \<Rightarrow> rej_cursor" where
  "rej_options go c0 =
     (let c1 = REJCISHORT CI_MRU (neg_mru go) (\<lambda>t. t\<lparr>neg_mru := False\<rparr>) (mru go) c0;
          c2 = REJCILONG CI_ASYNCMAP (neg_asyncmap go) (\<lambda>t. t\<lparr>neg_asyncmap := False\<rparr>) (asyncmap go) c1;
          c3 = REJCICHAP CI_AUTHTYPE (neg_chap go) (\<lambda>t. t\<lparr>neg_chap := False\<rparr>) CHAP (chap_mdtype go) c2;
          c4 = (if \<not> neg_chap go
                then REJCISHORT CI_AUTHTYPE (neg_upap go) (\<lambda>t. t\<lparr>neg_upap := False\<rparr>) UPAP c3 else c3);
          c5 = REJCILQR CI_QUALITY (neg_lqr go) (\<lambda>t. t\<lparr>neg_lqr := False\<rparr>) (lqr_period go) c4;
          c6 = REJCILONG CI_MAGICNUMBER (neg_magicnumber go) (\<lambda>t. t\<lparr>neg_magicnumber := False\<rparr>) (magicnumber go) c5;
          c7 = REJCIVOID CI_PCOMPRESSION (neg_pcompression go) (\<lambda>t. t\<lparr>neg_pcompression := False\<rparr>) c6
      in REJCIVOID CI_ACCOMPRESSION (neg_accompression go) (\<lambda>t. t\<lparr>neg_accompression := False\<rparr>) c7)"

definition lcp_rejci :: "bool \<Rightarrow> lcp_options \<Rightarrow> u8 list \<Rightarrow> nat \<Rightarrow> bool \<times> lcp_options" where
  "lcp_rejci opened go p len =
     (case rej_options go (Some (p, len, go)) of
        None \<Rightarrow> (False, go)
      | Some (_, rest, tryo) \<Rightarrow>
          if rest \<noteq> 0 then (False, go) else (True, if opened then go else tryo))"

section \<open>Naks\<close>

lemma nak_bad_zero_length:
  "nak_bad go no t 0 \<or> (t = CI_AUTHTYPE \<and> \<not> neg_chap go \<and> \<not> neg_upap go)"
  by (auto simp: nak_bad_def cilen_defs)

lemma nak_rest_returns:
  assumes "neg_chap go \<or> neg_upap go"
  shows "\<exists>b. nak_rest go no p len = Some b"
proof (induction len arbitrary: p rule: less_induct)
  case (less len)
  show ?case
  proof (cases "len \<le> CILEN_VOID \<or> len < unat (p ! 1) \<or> nak_bad go no (p ! 0) (unat (p ! 1))")
    case False
    then have "0 < unat (p ! 1)" using nak_bad_zero_length[of go no "p ! 0"] assms by (auto intro: gr0I)
    then have "\<exists>b. nak_rest go no (drop (unat (p ! 1)) p) (len - unat (p ! 1)) = Some b"
      using False less.IH[of "len - unat (p ! 1)"] by (simp add: cilen_defs)
    then show ?thesis using False by (subst nak_rest.simps) simp
  qed (subst nak_rest.simps, auto)
qed

lemma nak_rest_stuck:
  assumes "p ! 0 = CI_AUTHTYPE" and "p ! 1 = 0" and "2 < len"
    and "\<not> nak_bad go no CI_AUTHTYPE 0"
  shows "nak_rest go no p len = None"
proof (rule ccontr)
  assume "nak_rest go no p len \<noteq> None"
  then obtain b where b: "nak_rest go no p len = Some b" by blast
  have "\<not> (p ! 0 = CI_AUTHTYPE \<and> p ! 1 = 0 \<and> 2 < len \<and> \<not> nak_bad go no CI_AUTHTYPE 0)"
  proof (rule nak_rest.raw_induct[where P = "\<lambda>go no p len _.
      \<not> (p ! 0 = CI_AUTHTYPE \<and> p ! 1 = 0 \<and> 2 < len \<and> \<not> nak_bad go no CI_AUTHTYPE 0)", OF _ b])
    fix rec go no p len y
    assume ih: "\<And>go no p len y. rec go no p len = Some y \<Longrightarrow>
        \<not> (p ! 0 = CI_AUTHTYPE \<and> p ! 1 = 0 \<and> 2 < len \<and> \<not> nak_bad go no CI_AUTHTYPE 0)"
      and run: "(if len \<le> CILEN_VOID then Some (len = 0)
        else if len < unat (p ! 1) then Some False
        else if nak_bad go no (p ! 0) (unat (p ! 1)) then Some False
        else rec go no (drop (unat (p ! 1)) p) (len - unat (p ! 1))) = Some y"
    show "\<not> (p ! 0 = CI_AUTHTYPE \<and> p ! 1 = 0 \<and> 2 < len \<and> \<not> nak_bad go no CI_AUTHTYPE 0)"
      using ih[of go no p len y] run by (auto simp: cilen_defs split: if_splits)
  qed
  with assms show False by blast
qed

text \<open>What the macro calls may change: flags are only turned off, the asyncmap only grows.\<close>

definition nak_narrows :: "lcp_options \<Rightarrow> lcp_options \<Rightarrow> lcp_options \<Rightarrow> bool" where
  "nak_narrows go wo t \<longleftrightarrow>
     neg_mru t = neg_mru go \<and> neg_asyncmap t = neg_asyncmap go \<and> neg_magicnumber t = neg_magicnumber go
     \<and> (neg_chap t \<longrightarrow> neg_chap go) \<and> (neg_upap t \<longrightarrow> neg_upap go) \<and> (neg_lqr t \<longrightarrow> neg_lqr go)
     \<and> (neg_pcompression t \<longrightarrow> neg_pcompression go) \<and> (neg_accompression t \<longrightarrow> neg_accompression go)
     \<and> asyncmap go AND asyncmap t = asyncmap go
     \<and> (mru t = mru go \<or> mru t \<le> mru wo \<or> mru t < DEFMRU)
     \<and> chap_mdtype t = chap_mdtype go"

lemma and_or_same: "a AND (a OR b) = (a :: u32)"
  by (rule bit_word_eqI) (auto simp: bit_simps)

lemma nak_narrows_updates [simp]:
  "nak_narrows go wo t \<Longrightarrow> nak_narrows go wo (t\<lparr>neg_chap := False\<rparr>)"
  "nak_narrows go wo t \<Longrightarrow> nak_narrows go wo (t\<lparr>neg_upap := False\<rparr>)"
  "nak_narrows go wo t \<Longrightarrow> nak_narrows go wo (t\<lparr>neg_lqr := False\<rparr>)"
  "nak_narrows go wo t \<Longrightarrow> nak_narrows go wo (t\<lparr>lqr_period := l\<rparr>)"
  "nak_narrows go wo t \<Longrightarrow> nak_narrows go wo (t\<lparr>neg_pcompression := False\<rparr>)"
  "nak_narrows go wo t \<Longrightarrow> nak_narrows go wo (t\<lparr>neg_accompression := False\<rparr>)"
  "nak_narrows go wo t \<Longrightarrow> nak_narrows go wo (t\<lparr>magicnumber := m, numloops := n\<rparr>)"
  "nak_narrows go wo t \<Longrightarrow> nak_narrows go wo (t\<lparr>asyncmap := asyncmap go OR l\<rparr>)"
  "nak_narrows go wo t \<Longrightarrow> k \<le> mru wo \<or> k < DEFMRU \<Longrightarrow> nak_narrows go wo (t\<lparr>mru := k\<rparr>)"
  by (auto simp: nak_narrows_def and_or_same)

lemma nak_step_narrows:
  assumes "\<And>p s'. nak_narrows go wo (nk_try s') \<Longrightarrow> nak_narrows go wo (nk_try (code p s'))"
    and "nak_narrows go wo (nk_try s)"
  shows "nak_narrows go wo (nk_try (nak_step n opt neg seen code s))"
  using assms by (simp add: nak_step_def Let_def)

lemma nak_options_narrows:
  assumes "nak_narrows go wo (nk_try s)"
  shows "nak_narrows go wo (nk_try (nak_options go wo s))"
proof -
  have if_step: "nak_narrows go wo (nk_try (if b then s1 else s2))"
    if "nak_narrows go wo (nk_try s1)" "nak_narrows go wo (nk_try s2)" for b and s1 s2 :: "'a ppp_io_scheme nak_state"
    using that by simp
  show ?thesis
    unfolding nak_options_def Let_def NAKCISHORT_def NAKCILONG_def NAKCICHAP_def NAKCILQR_def NAKCIVOID_def
    by (intro nak_step_narrows if_step assms)
      (simp_all add: on_try_def split: prod.split)
qed



text \<open>
  When we asked for an authentication protocol, processing a Nak always ends, whatever
  bytes the peer sends.
\<close>

theorem lcp_nakci_returns:
  assumes "neg_chap go \<or> neg_upap go"
  shows "\<exists>good go' io'. lcp_nakci opened go wo io p len = Some (good, go', io')"
  using nak_rest_returns[OF assms] by (auto simp: lcp_nakci_def Let_def)

theorem lcp_nakci_returns_witness:
  "\<exists>good go' io'. lcp_nakci False (zero_lcp_options\<lparr>neg_upap := True\<rparr>) zero_lcp_options
     (undefined :: ppp_io) [3, 0, 7] 3 = Some (good, go', io')"
  using lcp_nakci_returns[of "zero_lcp_options\<lparr>neg_upap := True\<rparr>" False zero_lcp_options undefined "[3, 0, 7]" 3]
  by simp

text \<open>
  When we did not ask for authentication (the default), a Nak that starts with an
  Authentication-Protocol option of length zero is never finished with: the loop over the
  remaining options does not advance. Any such packet of at least three bytes hangs the
  daemon.
\<close>

theorem lcp_nakci_hangs:
  assumes "\<not> neg_chap go" and "\<not> neg_upap go" and "2 < len"
  shows "lcp_nakci opened go wo io (CI_AUTHTYPE # 0 # q) len = None"
proof -
  let ?s = "\<lparr>nk_p = CI_AUTHTYPE # 0 # q, nk_len = len, nk_no = zero_lcp_options, nk_try = go, nk_io = io\<rparr>"
  have "nak_options go wo ?s = ?s"
    using assms(1,2)
    by (simp add: nak_options_def NAKCISHORT_def NAKCILONG_def NAKCICHAP_def NAKCILQR_def NAKCIVOID_def
        nak_step_def ci_defs cilen_defs)
  moreover have "nak_rest go zero_lcp_options (CI_AUTHTYPE # 0 # q) len = None"
    using assms by (intro nak_rest_stuck) (simp_all add: nak_bad_def ci_defs zero_lcp_options_def)
  ultimately show ?thesis by (simp add: lcp_nakci_def Let_def)
qed

theorem lcp_nakci_hangs_witness:
  "lcp_nakci False (zero_lcp_options\<lparr>neg_mru := True, mru := 1500\<rparr>) zero_lcp_options
     (undefined :: ppp_io) [CI_AUTHTYPE, 0, 7] 3 = None"
  using lcp_nakci_hangs[of "zero_lcp_options\<lparr>neg_mru := True, mru := 1500\<rparr>" 3 False zero_lcp_options undefined "[7]"]
  by (simp add: zero_lcp_options_def)

section \<open>Rejects\<close>

text \<open>
  The option set whose request a Reject repeats: some of the options of \<open>go\<close>, with their
  values. UPAP counts only when CHAP is not requested, because otherwise it was not sent.
\<close>

definition rej_subset :: "lcp_options \<Rightarrow> lcp_options \<Rightarrow> bool" where
  "rej_subset r go \<longleftrightarrow>
     (neg_mru r \<longrightarrow> neg_mru go) \<and> (neg_asyncmap r \<longrightarrow> neg_asyncmap go) \<and> (neg_chap r \<longrightarrow> neg_chap go)
     \<and> (neg_upap r \<longrightarrow> neg_upap go \<and> \<not> neg_chap go) \<and> (neg_lqr r \<longrightarrow> neg_lqr go)
     \<and> (neg_magicnumber r \<longrightarrow> neg_magicnumber go) \<and> (neg_pcompression r \<longrightarrow> neg_pcompression go)
     \<and> (neg_accompression r \<longrightarrow> neg_accompression go)
     \<and> mru r = mru go \<and> asyncmap r = asyncmap go \<and> chap_mdtype r = chap_mdtype go
     \<and> lqr_period r = lqr_period go \<and> magicnumber r = magicnumber go"

definition rej_without :: "lcp_options \<Rightarrow> lcp_options \<Rightarrow> lcp_options" where
  "rej_without go r = go\<lparr>
     neg_mru := neg_mru go \<and> \<not> neg_mru r, neg_asyncmap := neg_asyncmap go \<and> \<not> neg_asyncmap r,
     neg_chap := neg_chap go \<and> \<not> neg_chap r, neg_upap := neg_upap go \<and> \<not> neg_upap r,
     neg_lqr := neg_lqr go \<and> \<not> neg_lqr r, neg_magicnumber := neg_magicnumber go \<and> \<not> neg_magicnumber r,
     neg_pcompression := neg_pcompression go \<and> \<not> neg_pcompression r,
     neg_accompression := neg_accompression go \<and> \<not> neg_accompression r\<rparr>"

text \<open>
  The position of a Reject is a position an acknowledgement of the rejected options alone
  would have reached, and \<open>T\<close> is the option set it has computed so far.
\<close>

definition tracks :: "cursor \<Rightarrow> rej_cursor \<Rightarrow> lcp_options \<Rightarrow> bool" where
  "tracks a c T \<longleftrightarrow> (case c of None \<Rightarrow> True | Some (p, n, t) \<Rightarrow> a = Some (p, n) \<and> t = T)"

lemma tracks_step:
  assumes rej: "\<And>p n t. rej (Some (p, n, t)) =
      (if neg \<and> n \<ge> cilen \<and> p ! 1 = of_nat cilen \<and> p ! 0 = opt
       then (if bad p then None else Some (drop cilen p, n - cilen, off t)) else Some (p, n, t))"
    and ack: "\<And>b p n. ack b (Some (p, n)) =
      (if \<not> b then Some (p, n)
       else if n \<ge> cilen \<and> p ! 1 = of_nat cilen \<and> p ! 0 = opt \<and> \<not> bad p then Some (drop cilen p, n - cilen) else None)"
    and none: "rej None = None" and tr: "tracks a c T"
  shows "\<exists>b. (b \<longrightarrow> neg) \<and> tracks (ack b a) (rej c) (if b then off T else T)"
proof (cases c)
  case (Some x)
  then obtain p n where c: "c = Some (p, n, T)" and a: "a = Some (p, n)"
    using tr by (cases x) (auto simp: tracks_def)
  show ?thesis
  proof (cases "neg \<and> n \<ge> cilen \<and> p ! 1 = of_nat cilen \<and> p ! 0 = opt")
    case True
    then show ?thesis by (intro exI[of _ True]) (auto simp: c a tracks_def rej ack)
  next
    case False
    then show ?thesis by (intro exI[of _ False]) (auto simp: c a tracks_def rej ack)
  qed
qed (auto simp: tracks_def none)

lemma REJCIVOID_tracks:
  "tracks a c T \<Longrightarrow>
    \<exists>b. (b \<longrightarrow> neg) \<and> tracks (ACKCIVOID opt b a) (REJCIVOID opt neg off c) (if b then off T else T)"
  by (rule tracks_step[where cilen = CILEN_VOID and opt = opt and bad = "\<lambda>p. False"])
    (auto simp: REJCIVOID_def ACKCIVOID_def bind_eq_None_conv split: option.split)

lemma REJCISHORT_tracks:
  "tracks a c T \<Longrightarrow>
    \<exists>b. (b \<longrightarrow> neg) \<and> tracks (ACKCISHORT opt b val a) (REJCISHORT opt neg off val c) (if b then off T else T)"
  by (rule tracks_step[where cilen = CILEN_SHORT and opt = opt and bad = "\<lambda>p. get_short (drop 2 p) \<noteq> val"])
    (auto simp: REJCISHORT_def ACKCISHORT_def bind_eq_None_conv split: option.split)

lemma REJCILONG_tracks:
  "tracks a c T \<Longrightarrow>
    \<exists>b. (b \<longrightarrow> neg) \<and> tracks (ACKCILONG opt b val a) (REJCILONG opt neg off val c) (if b then off T else T)"
  by (rule tracks_step[where cilen = CILEN_LONG and opt = opt and bad = "\<lambda>p. get_long (drop 2 p) \<noteq> val"])
    (auto simp: REJCILONG_def ACKCILONG_def bind_eq_None_conv split: option.split)

lemma REJCICHAP_tracks:
  "tracks a c T \<Longrightarrow>
    \<exists>b. (b \<longrightarrow> neg) \<and> tracks (ACKCICHAP opt b val d a) (REJCICHAP opt neg off val d c) (if b then off T else T)"
  by (rule tracks_step[where cilen = CILEN_CHAP and opt = opt and bad = "\<lambda>p. get_short (drop 2 p) \<noteq> val \<or> p ! 4 \<noteq> d"])
    (auto simp: REJCICHAP_def ACKCICHAP_def bind_eq_None_conv split: option.split)

lemma REJCILQR_tracks:
  "tracks a c T \<Longrightarrow>
    \<exists>b. (b \<longrightarrow> neg) \<and> tracks (ACKCILQR opt b val a) (REJCILQR opt neg off val c) (if b then off T else T)"
  by (rule tracks_step[where cilen = CILEN_LQR and opt = opt and bad = "\<lambda>p. get_short (drop 2 p) \<noteq> LQR \<or> get_long (drop 4 p) \<noteq> val"])
    (auto simp: REJCILQR_def ACKCILQR_def bind_eq_None_conv split: option.split)

lemma ACKCISHORT_off: "ACKCISHORT opt False val c = c"
  by (cases c) (auto simp: ACKCISHORT_def)

lemma UPAP_tracks:
  assumes "tracks a c T"
  shows "\<exists>b. (b \<longrightarrow> neg_upap go \<and> \<not> neg_chap go) \<and> tracks (ACKCISHORT CI_AUTHTYPE b UPAP a)
    (if \<not> neg_chap go then REJCISHORT CI_AUTHTYPE (neg_upap go) off UPAP c else c) (if b then off T else T)"
proof (cases "neg_chap go")
  case True
  then show ?thesis using assms by (intro exI[of _ False]) (simp add: ACKCISHORT_off)
next
  case False
  then show ?thesis
    using REJCISHORT_tracks[OF assms, of "neg_upap go" CI_AUTHTYPE UPAP off] by simp
qed

lemma flag_off_if:
  "(if b then t\<lparr>neg_mru := False\<rparr> else t) = t\<lparr>neg_mru := neg_mru t \<and> \<not> b\<rparr>"
  "(if b then t\<lparr>neg_asyncmap := False\<rparr> else t) = t\<lparr>neg_asyncmap := neg_asyncmap t \<and> \<not> b\<rparr>"
  "(if b then t\<lparr>neg_chap := False\<rparr> else t) = t\<lparr>neg_chap := neg_chap t \<and> \<not> b\<rparr>"
  "(if b then t\<lparr>neg_upap := False\<rparr> else t) = t\<lparr>neg_upap := neg_upap t \<and> \<not> b\<rparr>"
  "(if b then t\<lparr>neg_lqr := False\<rparr> else t) = t\<lparr>neg_lqr := neg_lqr t \<and> \<not> b\<rparr>"
  "(if b then t\<lparr>neg_magicnumber := False\<rparr> else t) = t\<lparr>neg_magicnumber := neg_magicnumber t \<and> \<not> b\<rparr>"
  "(if b then t\<lparr>neg_pcompression := False\<rparr> else t) = t\<lparr>neg_pcompression := neg_pcompression t \<and> \<not> b\<rparr>"
  "(if b then t\<lparr>neg_accompression := False\<rparr> else t) = t\<lparr>neg_accompression := neg_accompression t \<and> \<not> b\<rparr>"
  by (cases t; simp)+

lemma rej_options_sound:
  "\<exists>r. rej_subset r go \<and>
     (\<forall>p' tryo. rej_options go (Some (p, len, go)) = Some (p', 0, tryo) \<longrightarrow>
        lcp_ackci r p len \<and> tryo = rej_without go r)"
proof -
  let ?a0 = "Some (p, len)" and ?c0 = "Some (p, len, go)"
  have t0: "tracks ?a0 ?c0 go" by (simp add: tracks_def)
  let ?c1 = "REJCISHORT CI_MRU (neg_mru go) (\<lambda>t. t\<lparr>neg_mru := False\<rparr>) (mru go) ?c0"
  obtain b1 where b1: "b1 \<longrightarrow> neg_mru go"
    and t1: "tracks (ACKCISHORT CI_MRU b1 (mru go) ?a0) ?c1 (if b1 then go\<lparr>neg_mru := False\<rparr> else go)"
    using REJCISHORT_tracks[OF t0] by blast
  let ?a1 = "ACKCISHORT CI_MRU b1 (mru go) ?a0" and ?T1 = "if b1 then go\<lparr>neg_mru := False\<rparr> else go"
  let ?c2 = "REJCILONG CI_ASYNCMAP (neg_asyncmap go) (\<lambda>t. t\<lparr>neg_asyncmap := False\<rparr>) (asyncmap go) ?c1"
  obtain b2 where b2: "b2 \<longrightarrow> neg_asyncmap go"
    and t2: "tracks (ACKCILONG CI_ASYNCMAP b2 (asyncmap go) ?a1) ?c2 (if b2 then ?T1\<lparr>neg_asyncmap := False\<rparr> else ?T1)"
    using REJCILONG_tracks[OF t1] by blast
  let ?a2 = "ACKCILONG CI_ASYNCMAP b2 (asyncmap go) ?a1" and ?T2 = "if b2 then ?T1\<lparr>neg_asyncmap := False\<rparr> else ?T1"
  let ?c3 = "REJCICHAP CI_AUTHTYPE (neg_chap go) (\<lambda>t. t\<lparr>neg_chap := False\<rparr>) CHAP (chap_mdtype go) ?c2"
  obtain b3 where b3: "b3 \<longrightarrow> neg_chap go"
    and t3: "tracks (ACKCICHAP CI_AUTHTYPE b3 CHAP (chap_mdtype go) ?a2) ?c3 (if b3 then ?T2\<lparr>neg_chap := False\<rparr> else ?T2)"
    using REJCICHAP_tracks[OF t2] by blast
  let ?a3 = "ACKCICHAP CI_AUTHTYPE b3 CHAP (chap_mdtype go) ?a2" and ?T3 = "if b3 then ?T2\<lparr>neg_chap := False\<rparr> else ?T2"
  let ?c4 = "if \<not> neg_chap go then REJCISHORT CI_AUTHTYPE (neg_upap go) (\<lambda>t. t\<lparr>neg_upap := False\<rparr>) UPAP ?c3 else ?c3"
  obtain b4 where b4: "b4 \<longrightarrow> neg_upap go \<and> \<not> neg_chap go"
    and t4: "tracks (ACKCISHORT CI_AUTHTYPE b4 UPAP ?a3) ?c4 (if b4 then ?T3\<lparr>neg_upap := False\<rparr> else ?T3)"
    using UPAP_tracks[OF t3] by blast
  let ?a4 = "ACKCISHORT CI_AUTHTYPE b4 UPAP ?a3" and ?T4 = "if b4 then ?T3\<lparr>neg_upap := False\<rparr> else ?T3"
  let ?c5 = "REJCILQR CI_QUALITY (neg_lqr go) (\<lambda>t. t\<lparr>neg_lqr := False\<rparr>) (lqr_period go) ?c4"
  obtain b5 where b5: "b5 \<longrightarrow> neg_lqr go"
    and t5: "tracks (ACKCILQR CI_QUALITY b5 (lqr_period go) ?a4) ?c5 (if b5 then ?T4\<lparr>neg_lqr := False\<rparr> else ?T4)"
    using REJCILQR_tracks[OF t4] by blast
  let ?a5 = "ACKCILQR CI_QUALITY b5 (lqr_period go) ?a4" and ?T5 = "if b5 then ?T4\<lparr>neg_lqr := False\<rparr> else ?T4"
  let ?c6 = "REJCILONG CI_MAGICNUMBER (neg_magicnumber go) (\<lambda>t. t\<lparr>neg_magicnumber := False\<rparr>) (magicnumber go) ?c5"
  obtain b6 where b6: "b6 \<longrightarrow> neg_magicnumber go"
    and t6: "tracks (ACKCILONG CI_MAGICNUMBER b6 (magicnumber go) ?a5) ?c6 (if b6 then ?T5\<lparr>neg_magicnumber := False\<rparr> else ?T5)"
    using REJCILONG_tracks[OF t5] by blast
  let ?a6 = "ACKCILONG CI_MAGICNUMBER b6 (magicnumber go) ?a5" and ?T6 = "if b6 then ?T5\<lparr>neg_magicnumber := False\<rparr> else ?T5"
  let ?c7 = "REJCIVOID CI_PCOMPRESSION (neg_pcompression go) (\<lambda>t. t\<lparr>neg_pcompression := False\<rparr>) ?c6"
  obtain b7 where b7: "b7 \<longrightarrow> neg_pcompression go"
    and t7: "tracks (ACKCIVOID CI_PCOMPRESSION b7 ?a6) ?c7 (if b7 then ?T6\<lparr>neg_pcompression := False\<rparr> else ?T6)"
    using REJCIVOID_tracks[OF t6] by blast
  let ?a7 = "ACKCIVOID CI_PCOMPRESSION b7 ?a6" and ?T7 = "if b7 then ?T6\<lparr>neg_pcompression := False\<rparr> else ?T6"
  let ?c8 = "REJCIVOID CI_ACCOMPRESSION (neg_accompression go) (\<lambda>t. t\<lparr>neg_accompression := False\<rparr>) ?c7"
  obtain b8 where b8: "b8 \<longrightarrow> neg_accompression go"
    and t8: "tracks (ACKCIVOID CI_ACCOMPRESSION b8 ?a7) ?c8 (if b8 then ?T7\<lparr>neg_accompression := False\<rparr> else ?T7)"
    using REJCIVOID_tracks[OF t7] by blast
  let ?a8 = "ACKCIVOID CI_ACCOMPRESSION b8 ?a7" and ?T8 = "if b8 then ?T7\<lparr>neg_accompression := False\<rparr> else ?T7"
  let ?r = "go\<lparr>neg_mru := b1, neg_asyncmap := b2, neg_chap := b3, neg_upap := b4, neg_lqr := b5,
    neg_magicnumber := b6, neg_pcompression := b7, neg_accompression := b8\<rparr>"
  have upap: "\<not> b3 \<and> b4 \<longleftrightarrow> b4" using b3 b4 by blast
  have sub: "rej_subset ?r go" using b1 b2 b3 b4 b5 b6 b7 b8 by (simp add: rej_subset_def)
  have T: "?T8 = rej_without go ?r"
    unfolding flag_off_if rej_without_def by simp
  have ack: "lcp_ackci ?r p len \<longleftrightarrow> (case ?a8 of None \<Rightarrow> False | Some (_, r) \<Rightarrow> r = 0)"
    using upap by (simp add: lcp_ackci_def)
  have c: "rej_options go ?c0 = ?c8" unfolding rej_options_def Let_def by (rule refl)
  have "tracks ?a8 (rej_options go ?c0) (rej_without go ?r)" using t8 unfolding T c .
  then have "lcp_ackci ?r p len \<and> t = rej_without go ?r" if "rej_options go ?c0 = Some (p', 0, t)" for p' t
    unfolding ack using that by (simp add: tracks_def)
  with sub show ?thesis by blast
qed

text \<open>
  A Reject is accepted only when it repeats, byte for byte, the request for some of
  the options we asked for; exactly those options are then dropped from the next request
  and nothing else changes. A bad Reject, and any Reject in the \<open>OPENED\<close> state, changes
  nothing.
\<close>

theorem lcp_rejci_sound:
  assumes "lcp_rejci opened go p len = (good, go')" and "len \<le> length p"
  shows "(good \<longrightarrow> (\<exists>r. rej_subset r go \<and> take len p = lcp_addci r
      \<and> go' = (if opened then go else rej_without go r)))
    \<and> (\<not> good \<longrightarrow> go' = go)"
proof -
  obtain r where r: "rej_subset r go" "\<And>p' t. rej_options go (Some (p, len, go)) = Some (p', 0, t) \<Longrightarrow>
      lcp_ackci r p len \<and> t = rej_without go r"
    using rej_options_sound[of go p len] by blast
  have "take len p = lcp_addci r \<and> go' = (if opened then go else rej_without go r)" if good
  proof -
    obtain p' t where run: "rej_options go (Some (p, len, go)) = Some (p', 0, t)"
      and go': "go' = (if opened then go else t)"
      using assms(1) \<open>good\<close> unfolding lcp_rejci_def
      by (cases "rej_options go (Some (p, len, go))") (auto split: if_splits)
    have ack: "lcp_ackci r p len" and t: "t = rej_without go r" using r(2)[OF run] by auto
    show ?thesis using go' t ackci_accepts[OF assms(2)] ack by simp
  qed
  then show ?thesis using assms(1) r(1)
    by (auto simp: lcp_rejci_def split: option.splits if_splits)
qed

theorem lcp_rejci_sound_witness:
  "\<exists>r. rej_subset r (zero_lcp_options\<lparr>neg_mru := True, neg_pcompression := True\<rparr>)
     \<and> [7, 2] = lcp_addci r"
  using lcp_rejci_sound[of False "zero_lcp_options\<lparr>neg_mru := True, neg_pcompression := True\<rparr>"
      "[7, 2, 9]" 2 True "zero_lcp_options\<lparr>neg_mru := True\<rparr>"]
  by (auto simp: lcp_rejci_def rej_options_def REJCISHORT_def REJCILONG_def REJCICHAP_def REJCILQR_def
      REJCIVOID_def ci_defs cilen_defs zero_lcp_options_def)

end
