(* ===== verification/Ppp_Lcp_Reqci.thy ===== *)
theory Ppp_Lcp_Reqci
  imports Ppp_Lcp_Options
begin

text \<open>
  \<open>lcp_reqci\<close>: judging the peer's Configure-Request. The routine works in place on the
  receive buffer: it compacts the options to reject to the front of the packet while it
  reads on, collects Naks in a buffer of its own and fills in the peer's option set. It is
  proved equivalent to a pass over the option list that keeps the three apart.
\<close>

section \<open>One option\<close>

text \<open>
  What the switch over the option type computes: the verdict \<open>orc\<close>, the peer's options,
  the bytes appended to the Nak buffer, the value written back over the option's data (only
  the MRU and the async map are hinted at this way) and the unit.
\<close>

record 'w ci_verdict =
  v_orc :: u8
  v_ho :: lcp_options
  v_nak :: "u8 list"
  v_hint :: "u8 list"
  v_io :: 'w

definition verdict :: "u8 \<Rightarrow> lcp_options \<Rightarrow> 'w \<Rightarrow> 'w ci_verdict" where
  "verdict orc ho io = \<lparr>v_orc = orc, v_ho = ho, v_nak = [], v_hint = [], v_io = io\<rparr>"

definition reqci_mru :: "lcp_options \<Rightarrow> bool \<Rightarrow> nat \<Rightarrow> u8 list \<Rightarrow> lcp_options \<Rightarrow> 'w \<Rightarrow> 'w ci_verdict" where
  "reqci_mru ao rid cilen p ho io =
     (if \<not> neg_mru ao \<or> cilen \<noteq> CILEN_SHORT then verdict CONFREJ ho io
      else let cishort = get_short p
           in if cishort < MINMRU
              then (verdict CONFNAK ho io)\<lparr>v_hint := if rid then [] else PUTSHORT MINMRU\<rparr>
              else verdict CONFACK (ho\<lparr>neg_mru := True, mru := cishort\<rparr>) io)"

definition reqci_asyncmap :: "lcp_options \<Rightarrow> bool \<Rightarrow> nat \<Rightarrow> u8 list \<Rightarrow> lcp_options \<Rightarrow> 'w \<Rightarrow> 'w ci_verdict" where
  "reqci_asyncmap ao rid cilen p ho io =
     (if \<not> neg_asyncmap ao \<or> cilen \<noteq> CILEN_LONG then verdict CONFREJ ho io
      else let cilong = get_long p
           in if asyncmap ao AND NOT cilong \<noteq> 0
              then (verdict CONFNAK ho io)\<lparr>v_hint := if rid then [] else PUTLONG (asyncmap ao OR cilong)\<rparr>
              else verdict CONFACK (ho\<lparr>neg_asyncmap := True, asyncmap := cilong\<rparr>) io)"

text \<open>The two suggestions \<open>lcp_reqci\<close> makes for an authentication protocol.\<close>

definition nak_chap :: "lcp_options \<Rightarrow> u8 list" where
  "nak_chap ao = [CI_AUTHTYPE, of_nat CILEN_CHAP] @ PUTSHORT CHAP @ [chap_mdtype ao]"

definition nak_upap :: "u8 list" where
  "nak_upap = [CI_AUTHTYPE, of_nat CILEN_SHORT] @ PUTSHORT UPAP"

definition reqci_authtype :: "lcp_options \<Rightarrow> nat \<Rightarrow> u8 list \<Rightarrow> lcp_options \<Rightarrow> 'w \<Rightarrow> 'w ci_verdict" where
  "reqci_authtype ao cilen p ho io =
     (if cilen < CILEN_SHORT \<or> \<not> (neg_upap ao \<or> neg_chap ao) then verdict CONFREJ ho io
      else let cishort = get_short p
           in if cishort = UPAP then
                (if neg_chap ho \<or> cilen \<noteq> CILEN_SHORT then verdict CONFREJ ho io
                 else if \<not> neg_upap ao then (verdict CONFNAK ho io)\<lparr>v_nak := nak_chap ao\<rparr>
                 else verdict CONFACK (ho\<lparr>neg_upap := True\<rparr>) io)
              else if cishort = CHAP then
                (if neg_upap ho \<or> cilen \<noteq> CILEN_CHAP then verdict CONFREJ ho io
                 else if \<not> neg_chap ao then (verdict CONFNAK ho io)\<lparr>v_nak := nak_upap\<rparr>
                 else if p ! 2 \<noteq> chap_mdtype ao then (verdict CONFNAK ho io)\<lparr>v_nak := nak_chap ao\<rparr>
                 else verdict CONFACK (ho\<lparr>chap_mdtype := p ! 2, neg_chap := True\<rparr>) io)
              else (verdict CONFNAK ho io)\<lparr>v_nak := if neg_chap ao then nak_chap ao else nak_upap\<rparr>)"

definition reqci_quality :: "lcp_options \<Rightarrow> nat \<Rightarrow> u8 list \<Rightarrow> lcp_options \<Rightarrow> 'w \<Rightarrow> 'w ci_verdict" where
  "reqci_quality ao cilen p ho io =
     (if \<not> neg_lqr ao \<or> cilen \<noteq> CILEN_LQR then verdict CONFREJ ho io
      else if get_short p \<noteq> LQR
      then (verdict CONFNAK ho io)\<lparr>v_nak := [CI_QUALITY, of_nat CILEN_LQR] @ PUTSHORT LQR @ PUTLONG (lqr_period ao)\<rparr>
      else verdict CONFACK ho io)"

definition reqci_magicnumber :: "lcp_options \<Rightarrow> lcp_options \<Rightarrow> nat \<Rightarrow> u8 list \<Rightarrow> lcp_options
    \<Rightarrow> 'x ppp_io_scheme \<Rightarrow> 'x ppp_io_scheme ci_verdict" where
  "reqci_magicnumber go ao cilen p ho io =
     (if \<not> (neg_magicnumber ao \<or> neg_magicnumber go) \<or> cilen \<noteq> CILEN_LONG then verdict CONFREJ ho io
      else let cilong = get_long p
           in if neg_magicnumber go \<and> cilong = magicnumber go
              then (let (m, io') = magic io
                    in (verdict CONFNAK ho io')\<lparr>v_nak := [CI_MAGICNUMBER, of_nat CILEN_LONG] @ PUTLONG m\<rparr>)
              else verdict CONFACK (ho\<lparr>neg_magicnumber := True, magicnumber := cilong\<rparr>) io)"

definition reqci_pcompression :: "lcp_options \<Rightarrow> nat \<Rightarrow> lcp_options \<Rightarrow> 'w \<Rightarrow> 'w ci_verdict" where
  "reqci_pcompression ao cilen ho io =
     (if \<not> neg_pcompression ao \<or> cilen \<noteq> CILEN_VOID then verdict CONFREJ ho io
      else verdict CONFACK (ho\<lparr>neg_pcompression := True\<rparr>) io)"

definition reqci_accompression :: "lcp_options \<Rightarrow> nat \<Rightarrow> lcp_options \<Rightarrow> 'w \<Rightarrow> 'w ci_verdict" where
  "reqci_accompression ao cilen ho io =
     (if \<not> neg_accompression ao \<or> cilen \<noteq> CILEN_VOID then verdict CONFREJ ho io
      else verdict CONFACK (ho\<lparr>neg_accompression := True\<rparr>) io)"

text \<open>The switch: \<open>p\<close> is the buffer from the option's data on.\<close>

definition reqci_option :: "lcp_options \<Rightarrow> lcp_options \<Rightarrow> bool \<Rightarrow> u8 \<Rightarrow> nat \<Rightarrow> u8 list \<Rightarrow> lcp_options
    \<Rightarrow> 'x ppp_io_scheme \<Rightarrow> 'x ppp_io_scheme ci_verdict" where
  "reqci_option go ao rid citype cilen p ho io =
     (if citype = CI_MRU then reqci_mru ao rid cilen p ho io
      else if citype = CI_ASYNCMAP then reqci_asyncmap ao rid cilen p ho io
      else if citype = CI_AUTHTYPE then reqci_authtype ao cilen p ho io
      else if citype = CI_QUALITY then reqci_quality ao cilen p ho io
      else if citype = CI_MAGICNUMBER then reqci_magicnumber go ao cilen p ho io
      else if citype = CI_PCOMPRESSION then reqci_pcompression ao cilen ho io
      else if citype = CI_ACCOMPRESSION then reqci_accompression ao cilen ho io
      else verdict CONFREJ ho io)"

lemma reqci_option_rule:
  assumes "P (reqci_mru ao rid n p ho io)" and "P (reqci_asyncmap ao rid n p ho io)"
    and "P (reqci_authtype ao n p ho io)" and "P (reqci_quality ao n p ho io)"
    and "P (reqci_magicnumber go ao n p ho io)" and "P (reqci_pcompression ao n ho io)"
    and "P (reqci_accompression ao n ho io)" and "P (verdict CONFREJ ho io)"
  shows "P (reqci_option go ao rid t n p ho io)"
  unfolding reqci_option_def using assms by (simp only: if_split) blast

lemmas reqci_option_defs = reqci_mru_def reqci_asyncmap_def reqci_authtype_def
  reqci_quality_def reqci_magicnumber_def reqci_pcompression_def reqci_accompression_def verdict_def

section \<open>The loop\<close>

text \<open>
  The variables of the loop: the buffer, the offset of the next option, the bytes left, the
  Nak buffer, the offset up to which rejected options were moved, the code to return, the
  peer's options and the unit.
\<close>

record 'w req_state =
  rq_buf :: "u8 list"
  rq_next :: nat
  rq_left :: nat
  rq_nak :: "u8 list"
  rq_rej :: nat
  rq_rc :: u8
  rq_ho :: lcp_options
  rq_io :: 'w

text \<open>
  From the label \<^verbatim>\<open>endswitch\<close> on: \<open>cip\<close> is the offset of the option, \<open>cilen\<close> its length.
  With \<open>rid\<close> a Nak becomes a Reject, except for the magic number.
\<close>

definition reqci_endswitch :: "bool \<Rightarrow> u8 \<Rightarrow> u8 \<Rightarrow> nat \<Rightarrow> nat \<Rightarrow> 'w req_state \<Rightarrow> 'w req_state" where
  "reqci_endswitch rid orc citype cip cilen s =
     (if orc = CONFACK \<and> rq_rc s \<noteq> CONFACK then s
      else
        let toreject = orc = CONFREJ \<or> (orc = CONFNAK \<and> rid \<and> citype \<noteq> CI_MAGICNUMBER)
        in if toreject
           then s\<lparr>rq_rc := CONFREJ,
                  rq_buf := (if cip \<noteq> rq_rej s then poke (rq_buf s) (rq_rej s) (take cilen (drop cip (rq_buf s)))
                             else rq_buf s),
                  rq_rej := rq_rej s + cilen\<rparr>
           else if orc = CONFNAK then (if rq_rc s = CONFREJ then s else s\<lparr>rq_rc := CONFNAK\<rparr>)
           else s)"

text \<open>
  One iteration. When the header of the option is bad the rest of the packet is rejected;
  its length is kept in the byte \<^verbatim>\<open>cilen\<close>, modulo 256.
\<close>

definition reqci_step :: "lcp_options \<Rightarrow> lcp_options \<Rightarrow> bool
    \<Rightarrow> 'x ppp_io_scheme req_state \<Rightarrow> 'x ppp_io_scheme req_state" where
  "reqci_step go ao rid s =
     (let cip = rq_next s; p = drop cip (rq_buf s); l = rq_left s
      in if l < 2 \<or> unat (p ! 1) < 2 \<or> unat (p ! 1) > l
         then reqci_endswitch rid CONFREJ 0 cip (unat (of_nat l :: u8)) (s\<lparr>rq_left := 0\<rparr>)
         else let citype = p ! 0; cilen = unat (p ! 1);
                  v = reqci_option go ao rid citype cilen (drop 2 p) (rq_ho s) (rq_io s)
              in reqci_endswitch rid (v_orc v) citype cip cilen
                   (s\<lparr>rq_left := l - cilen, rq_next := cip + cilen,
                      rq_buf := poke (rq_buf s) (cip + 2) (v_hint v),
                      rq_nak := rq_nak s @ v_nak v, rq_ho := v_ho v, rq_io := v_io v\<rparr>))"

lemma rq_left_endswitch [simp]: "rq_left (reqci_endswitch rid orc t cip n s) = rq_left s"
  by (simp add: reqci_endswitch_def Let_def)

lemma reqci_step_progress: "rq_left s \<noteq> 0 \<Longrightarrow> rq_left (reqci_step go ao rid s) < rq_left s"
  by (auto simp: reqci_step_def Let_def)

function reqci_loop :: "lcp_options \<Rightarrow> lcp_options \<Rightarrow> bool
    \<Rightarrow> 'x ppp_io_scheme req_state \<Rightarrow> 'x ppp_io_scheme req_state" where
  "reqci_loop go ao rid s = (if rq_left s = 0 then s else reqci_loop go ao rid (reqci_step go ao rid s))"
  by pat_completeness auto

termination
  by (relation "measure (\<lambda>(_, _, _, s). rq_left s)") (simp_all add: reqci_step_progress)

declare reqci_loop.simps [simp del]

definition lcp_reqci :: "lcp_options \<Rightarrow> lcp_options \<Rightarrow> 'x ppp_io_scheme \<Rightarrow> u8 list \<Rightarrow> nat \<Rightarrow> bool
    \<Rightarrow> u8 \<times> u8 list \<times> nat \<times> lcp_options \<times> 'x ppp_io_scheme" where
  "lcp_reqci go ao io inp len rid =
     (let s = reqci_loop go ao rid \<lparr>rq_buf = inp, rq_next = 0, rq_left = len, rq_nak = [], rq_rej = 0,
                rq_rc = CONFACK, rq_ho = zero_lcp_options, rq_io = io\<rparr>;
          (buf, n) = (if rq_rc s = CONFACK then (rq_buf s, rq_next s)
                      else if rq_rc s = CONFNAK then (poke (rq_buf s) 0 (rq_nak s), length (rq_nak s))
                      else (rq_buf s, rq_rej s))
      in (rq_rc s, buf, n, rq_ho s, rq_io s))"

section \<open>The specification: a pass over the list of options\<close>

text \<open>The first option of a request and what follows; a malformed header takes all the rest.\<close>

definition next_ci :: "u8 list \<Rightarrow> u8 list \<times> u8 list" where
  "next_ci xs =
     (if length xs < 2 \<or> unat (xs ! 1) < 2 \<or> unat (xs ! 1) > length xs then (xs, [])
      else (take (unat (xs ! 1)) xs, drop (unat (xs ! 1)) xs))"

function split_cis :: "u8 list \<Rightarrow> u8 list list" where
  "split_cis xs = (if xs = [] then [] else fst (next_ci xs) # split_cis (snd (next_ci xs)))"
  by pat_completeness auto

termination
  by (relation "measure length") (auto simp: next_ci_def)

declare split_cis.simps [simp del]

definition wf_ci :: "u8 list \<Rightarrow> bool" where
  "wf_ci c \<longleftrightarrow> 2 \<le> length c \<and> unat (c ! 1) = length c"

record 'w req_acc =
  a_rc :: u8
  a_rej :: "u8 list"
  a_nak :: "u8 list"
  a_ho :: lcp_options
  a_io :: 'w

definition judge :: "lcp_options \<Rightarrow> lcp_options \<Rightarrow> bool \<Rightarrow> u8 list \<Rightarrow> lcp_options
    \<Rightarrow> 'x ppp_io_scheme \<Rightarrow> 'x ppp_io_scheme ci_verdict" where
  "judge go ao rid c ho io =
     (if wf_ci c then reqci_option go ao rid (c ! 0) (length c) (drop 2 c) ho io else verdict CONFREJ ho io)"

definition rejects :: "bool \<Rightarrow> u8 list \<Rightarrow> u8 \<Rightarrow> bool" where
  "rejects rid c orc \<longleftrightarrow> orc = CONFREJ \<or> (orc = CONFNAK \<and> rid \<and> c ! 0 \<noteq> CI_MAGICNUMBER)"

definition combine_rc :: "bool \<Rightarrow> u8 list \<Rightarrow> u8 \<Rightarrow> u8 \<Rightarrow> u8" where
  "combine_rc rid c orc rc =
     (if rejects rid c orc then CONFREJ
      else if orc = CONFNAK \<and> rc \<noteq> CONFREJ then CONFNAK else rc)"

definition spec_step :: "lcp_options \<Rightarrow> lcp_options \<Rightarrow> bool \<Rightarrow> 'x ppp_io_scheme req_acc
    \<Rightarrow> u8 list \<Rightarrow> 'x ppp_io_scheme req_acc" where
  "spec_step go ao rid acc c =
     (let v = judge go ao rid c (a_ho acc) (a_io acc)
      in \<lparr>a_rc = combine_rc rid c (v_orc v) (a_rc acc),
          a_rej = a_rej acc @ (if rejects rid c (v_orc v)
                     then (if wf_ci c then c else take (length c mod 256) c) else []),
          a_nak = a_nak acc @ v_nak v, a_ho = v_ho v, a_io = v_io v\<rparr>)"

definition reqci_spec :: "lcp_options \<Rightarrow> lcp_options \<Rightarrow> bool \<Rightarrow> 'x ppp_io_scheme \<Rightarrow> u8 list
    \<Rightarrow> 'x ppp_io_scheme req_acc" where
  "reqci_spec go ao rid io request =
     foldl (spec_step go ao rid)
       \<lparr>a_rc = CONFACK, a_rej = [], a_nak = [], a_ho = zero_lcp_options, a_io = io\<rparr> (split_cis request)"

section \<open>The loop implements the specification\<close>

text \<open>An option is judged by its own bytes only.\<close>

lemma get_short_take: "2 \<le> n \<Longrightarrow> get_short (take n p) = get_short p"
  by (simp add: get_short_def)

lemma get_long_take: "4 \<le> n \<Longrightarrow> get_long (take n p) = get_long p"
  by (simp add: get_long_def)

lemma reqci_local:
  "reqci_mru ao rid n (take (n - 2) p) ho io = reqci_mru ao rid n p ho io"
  "reqci_asyncmap ao rid n (take (n - 2) p) ho io = reqci_asyncmap ao rid n p ho io"
  "reqci_authtype ao n (take (n - 2) p) ho io = reqci_authtype ao n p ho io"
  "reqci_quality ao n (take (n - 2) p) ho io = reqci_quality ao n p ho io"
  "reqci_magicnumber go ao n (take (n - 2) p) ho io = reqci_magicnumber go ao n p ho io"
  by (simp_all add: reqci_option_defs cilen_defs get_short_take get_long_take Let_def)

lemma reqci_option_local:
  "reqci_option go ao rid t n (take (n - 2) p) ho io = reqci_option go ao rid t n p ho io"
  by (simp only: reqci_option_def reqci_local)

lemma hint_length: "length (v_hint (reqci_option go ao rid t n p ho io)) \<le> n - 2"
  by (rule reqci_option_rule) (simp_all add: reqci_option_defs cilen_defs Let_def split: prod.split)

lemma verdict_codes: "v_orc (reqci_option go ao rid t n p ho io) \<in> {CONFACK, CONFNAK, CONFREJ}"
  by (rule reqci_option_rule) (simp_all add: reqci_option_defs Let_def split: prod.split)

lemma hint_only_nak:
  "v_orc (reqci_option go ao rid t n p ho io) \<noteq> CONFNAK \<or> rid
    \<longrightarrow> v_hint (reqci_option go ao rid t n p ho io) = []"
  by (rule reqci_option_rule) (simp_all add: reqci_option_defs Let_def code_defs split: prod.split)

text \<open>The relation between the loop's variables and the specification's accumulator.\<close>

definition simulates :: "u8 list \<Rightarrow> nat \<Rightarrow> 'w req_state \<Rightarrow> 'w req_acc \<Rightarrow> u8 list \<Rightarrow> bool" where
  "simulates inp len s acc xs \<longleftrightarrow>
     rq_left s = length xs \<and> take (rq_left s) (drop (rq_next s) (rq_buf s)) = xs
     \<and> rq_next s + rq_left s \<le> length (rq_buf s)
     \<and> rq_rej s = length (a_rej acc) \<and> take (rq_rej s) (rq_buf s) = a_rej acc
     \<and> (xs \<noteq> [] \<longrightarrow> rq_rej s \<le> rq_next s) \<and> rq_rej s \<le> length (rq_buf s)
     \<and> rq_rc s = a_rc acc \<and> rq_nak s = a_nak acc \<and> rq_ho s = a_ho acc \<and> rq_io s = a_io acc
     \<and> (rq_rc s = CONFACK \<longrightarrow> rq_buf s = inp \<and> rq_next s + rq_left s = len)
     \<and> rq_rc s \<in> {CONFACK, CONFNAK, CONFREJ}"

lemma code_distinct [simp]: "CONFACK \<noteq> CONFNAK" "CONFNAK \<noteq> CONFACK" "CONFACK \<noteq> CONFREJ" "CONFREJ \<noteq> CONFACK"
  "CONFNAK \<noteq> CONFREJ" "CONFREJ \<noteq> CONFNAK"
  by (simp_all add: code_defs)

lemma endswitch_reject:
  assumes "orc = CONFREJ \<or> (orc = CONFNAK \<and> rid \<and> t \<noteq> CI_MAGICNUMBER)" and "cip + n \<le> length (rq_buf s)"
  shows "reqci_endswitch rid orc t cip n s = s\<lparr>rq_rc := CONFREJ,
    rq_buf := poke (rq_buf s) (rq_rej s) (take n (drop cip (rq_buf s))), rq_rej := rq_rej s + n\<rparr>"
  using assms poke_self[of cip n "rq_buf s"] by (auto simp: reqci_endswitch_def Let_def)

lemma endswitch_keep:
  assumes "orc \<in> {CONFACK, CONFNAK, CONFREJ}"
    and "\<not> (orc = CONFREJ \<or> (orc = CONFNAK \<and> rid \<and> t \<noteq> CI_MAGICNUMBER))"
  shows "reqci_endswitch rid orc t cip n s =
    s\<lparr>rq_rc := if orc = CONFNAK \<and> rq_rc s \<noteq> CONFREJ then CONFNAK else rq_rc s\<rparr>"
  using assms by (auto simp: reqci_endswitch_def Let_def)

lemma take_poke_upto: "off \<le> length buf \<Longrightarrow> take (off + length bs) (poke buf off bs) = take off buf @ bs"
  by (simp add: poke_def)

text \<open>Moving a rejected option down behind the ones already there.\<close>

lemma compact:
  assumes "take rej buf = moved" and "length moved = rej" and "rej \<le> cip" and "cip + n \<le> length buf"
    and "buf' = poke buf rej (take n (drop cip buf))"
  shows "take (rej + n) buf' = moved @ take n (drop cip buf)" and "length buf' = length buf"
    and "cip + n \<le> k \<Longrightarrow> drop k buf' = drop k buf"
proof -
  have n: "length (take n (drop cip buf)) = n" using assms(4) by simp
  show "take (rej + n) buf' = moved @ take n (drop cip buf)"
    using take_poke_upto[of rej buf "take n (drop cip buf)"] assms unfolding n by simp
  show "length buf' = length buf" using assms n by simp
  show "drop k buf' = drop k buf" if "cip + n \<le> k" using assms n that by simp
qed

lemma sim_bad:
  assumes sim: "simulates inp len s acc xs" and ne: "xs \<noteq> []"
    and bad: "length xs < 2 \<or> unat (xs ! 1) < 2 \<or> unat (xs ! 1) > length xs"
  shows "simulates inp len (reqci_step go ao rid s) (spec_step go ao rid acc xs) []"
proof -
  define buf cip rej l where d: "buf = rq_buf s" "cip = rq_next s" "rej = rq_rej s" "l = length xs"
  have fit: "cip + l \<le> length buf" "rej \<le> cip" and xs: "take l (drop cip buf) = xs"
    and rejd: "take rej buf = a_rej acc" "length (a_rej acc) = rej" and left: "rq_left s = l"
    using sim ne by (auto simp: simulates_def d)
  have "l < 2 \<or> unat (drop cip buf ! 1) < 2 \<or> unat (drop cip buf ! 1) > l"
    using bad xs nth_take[of 1 l "drop cip buf"] by (cases "l < 2") (simp_all add: d(4))
  then have step: "reqci_step go ao rid s =
      reqci_endswitch rid CONFREJ 0 cip (l mod 256) (s\<lparr>rq_left := 0\<rparr>)"
    by (simp add: reqci_step_def left d(1,2) unat_of_nat)
  let ?n = "l mod 256" and ?buf = "poke buf rej (take (l mod 256) (drop cip buf))"
  have n: "cip + ?n \<le> length buf" using fit(1) mod_less_eq_dividend[of l 256] by linarith
  have tl: "take ?n (drop cip buf) = take ?n xs"
    using xs mod_less_eq_dividend[of l 256] by (metis min.absorb1 take_take)
  have step': "reqci_step go ao rid s = s\<lparr>rq_left := 0, rq_rc := CONFREJ, rq_buf := ?buf, rq_rej := rej + ?n\<rparr>"
    unfolding step using n by (subst endswitch_reject) (simp_all add: d)
  have "\<not> wf_ci xs" using bad by (auto simp: wf_ci_def)
  then have "spec_step go ao rid acc xs = acc\<lparr>a_rc := CONFREJ, a_rej := a_rej acc @ take ?n xs\<rparr>"
    by (simp add: spec_step_def judge_def verdict_def rejects_def combine_rc_def d(4))
  moreover have "take (rej + ?n) ?buf = a_rej acc @ take ?n xs" "length ?buf = length buf"
    using compact[OF rejd fit(2) n refl] by (simp_all add: tl)
  ultimately show ?thesis using sim fit n rejd unfolding step'
    by (auto simp: simulates_def d)
qed

lemma take_within: "n + k \<le> l \<Longrightarrow> take n (drop k (take l xs)) = take n (drop k xs)"
  by (simp add: drop_take min_def)

lemma sim_good:
  assumes sim: "simulates inp len s acc xs" and ne: "xs \<noteq> []"
    and ok: "2 \<le> length xs" "2 \<le> unat (xs ! 1)" "unat (xs ! 1) \<le> length xs"
  defines "n \<equiv> unat (xs ! 1)"
  shows "simulates inp len (reqci_step go ao rid s) (spec_step go ao rid acc (take n xs)) (drop n xs)"
proof -
  define buf cip rej l where d: "buf = rq_buf s" "cip = rq_next s" "rej = rq_rej s" "l = length xs"
  define c where "c = take n xs"
  define v where "v = reqci_option go ao rid (c ! 0) n (drop 2 c) (rq_ho s) (rq_io s)"
  define buf1 where "buf1 = poke buf (cip + 2) (v_hint v)"
  have fit: "cip + l \<le> length buf" "rej \<le> cip" and xs: "take l (drop cip buf) = xs"
    and rejd: "take rej buf = a_rej acc" "length (a_rej acc) = rej" and left: "rq_left s = l"
    and nak: "rq_nak s = a_nak acc"
    using sim ne by (auto simp: simulates_def d)
  have n: "2 \<le> n" "n \<le> l" using ok by (simp_all add: n_def d(4))
  have c: "take n (drop cip buf) = c" using xs n by (metis c_def min.absorb1 take_take)
  have hd: "drop cip buf ! 0 = c ! 0" "drop cip buf ! 1 = xs ! 1" "c ! 1 = xs ! 1"
    using xs n c nth_take[of 0 n "drop cip buf"] nth_take[of 1 l "drop cip buf"] nth_take[of 1 n xs]
    by (simp_all add: c_def)
  have wf: "wf_ci c" and lc: "length c = n" using n hd by (simp_all add: wf_ci_def c_def d(4) n_def)
  have vv: "reqci_option go ao rid (c ! 0) n (drop 2 (drop cip buf)) (rq_ho s) (rq_io s) = v"
    unfolding v_def using reqci_option_local[of go ao rid "c ! 0" n "drop 2 (drop cip buf)"] c
    by (metis drop_take)
  let ?s1 = "s\<lparr>rq_left := l - n, rq_next := cip + n, rq_buf := buf1,
      rq_nak := rq_nak s @ v_nak v, rq_ho := v_ho v, rq_io := v_io v\<rparr>"
  have step: "reqci_step go ao rid s = reqci_endswitch rid (v_orc v) (c ! 0) cip n ?s1"
    unfolding reqci_step_def Let_def left d(1,2)[symmetric] buf1_def hd(1,2) n_def[symmetric] vv
    using n by simp
  have hint: "length (v_hint v) \<le> n - 2" unfolding v_def by (rule hint_length)
  have hinted: "v_orc v \<noteq> CONFNAK \<or> rid \<longrightarrow> v_hint v = []" unfolding v_def by (rule hint_only_nak)
  have codes: "v_orc v \<in> {CONFACK, CONFNAK, CONFREJ}" unfolding v_def by (rule verdict_codes)
  have buf1: "length buf1 = length buf" "drop (cip + n) buf1 = drop (cip + n) buf" "take rej buf1 = a_rej acc"
    using hint n fit rejd by (simp_all add: buf1_def)
  have rest: "take (l - n) (drop (cip + n) buf) = drop n xs"
    using xs by (metis add.commute drop_drop drop_take)
  have spec: "spec_step go ao rid acc c = \<lparr>a_rc = combine_rc rid c (v_orc v) (a_rc acc),
      a_rej = a_rej acc @ (if rejects rid c (v_orc v) then c else []),
      a_nak = a_nak acc @ v_nak v, a_ho = v_ho v, a_io = v_io v\<rparr>"
    using sim wf lc by (simp add: spec_step_def judge_def v_def simulates_def Let_def)
  show ?thesis
  proof (cases "rejects rid c (v_orc v)")
    case True
    then have "v_hint v = []" using hinted by (auto simp: rejects_def)
    then have b1: "buf1 = buf" by (simp add: buf1_def)
    let ?buf = "poke buf rej (take n (drop cip buf))"
    have step': "reqci_step go ao rid s = ?s1\<lparr>rq_rc := CONFREJ, rq_buf := ?buf, rq_rej := rej + n\<rparr>"
      unfolding step using True n fit(1) by (subst endswitch_reject) (auto simp: rejects_def b1 d)
    have cn: "cip + n \<le> length buf" using n fit(1) by linarith
    note cmp = compact[OF rejd fit(2) cn refl]
    show ?thesis using n fit cmp(1) cmp(2) cmp(3)[of "cip + n"] rest rejd lc True nak
      unfolding step' c_def[symmetric] spec
      by (simp add: simulates_def c combine_rc_def d(4))
  next
    case False
    then have step': "reqci_step go ao rid s =
        ?s1\<lparr>rq_rc := if v_orc v = CONFNAK \<and> rq_rc s \<noteq> CONFREJ then CONFNAK else rq_rc s\<rparr>"
      unfolding step using codes by (subst endswitch_keep) (auto simp: rejects_def)
    have "buf1 = buf" if "v_orc v \<noteq> CONFNAK"
      using that hinted by (simp add: buf1_def)
    then show ?thesis using n fit buf1 rest rejd lc False sim ne
      unfolding step' c_def[symmetric] spec
      by (auto simp: simulates_def combine_rc_def d(4) d(1-3)[symmetric])
  qed
qed

lemma reqci_loop_simulates:
  assumes "simulates inp len s acc xs"
  shows "simulates inp len (reqci_loop go ao rid s) (foldl (spec_step go ao rid) acc (split_cis xs)) []"
  using assms
proof (induction xs arbitrary: s acc rule: split_cis.induct)
  case (1 xs)
  show ?case
  proof (cases "xs = []")
    case True
    then have "rq_left s = 0" using "1.prems" by (simp add: simulates_def)
    then show ?thesis using "1.prems" True by (simp add: reqci_loop.simps split_cis.simps)
  next
    case False
    have "simulates inp len (reqci_step go ao rid s) (spec_step go ao rid acc (fst (next_ci xs))) (snd (next_ci xs))"
    proof (cases "length xs < 2 \<or> unat (xs ! 1) < 2 \<or> unat (xs ! 1) > length xs")
      case True
      then show ?thesis using sim_bad[OF "1.prems" False True] unfolding next_ci_def if_P[OF True] by simp
    next
      case bad: False
      then show ?thesis using sim_good[OF "1.prems" False] unfolding next_ci_def if_not_P[OF bad] by simp
    qed
    from "1.IH"[OF False this] have "simulates inp len (reqci_loop go ao rid (reqci_step go ao rid s))
        (foldl (spec_step go ao rid) acc (split_cis xs)) []"
      using False by (subst split_cis.simps) simp
    moreover have "rq_left s \<noteq> 0" using "1.prems" False by (simp add: simulates_def)
    ultimately show ?thesis by (subst reqci_loop.simps) simp
  qed
qed

lemma reqci_implements:
  assumes "len \<le> length inp" and "lcp_reqci go ao io inp len rid = (rc, buf, n, ho, io')"
    and "spec = reqci_spec go ao rid io (take len inp)"
  shows "rc = a_rc spec" and "ho = a_ho spec" and "io' = a_io spec"
    and "take n buf = (if rc = CONFACK then take len inp else if rc = CONFNAK then a_nak spec else a_rej spec)"
    and "n = (if rc = CONFACK then len else if rc = CONFNAK then length (a_nak spec) else length (a_rej spec))"
    and "rc = CONFACK \<Longrightarrow> buf = inp"
proof -
  let ?s0 = "\<lparr>rq_buf = inp, rq_next = 0, rq_left = len, rq_nak = [], rq_rej = 0,
    rq_rc = CONFACK, rq_ho = zero_lcp_options, rq_io = io\<rparr>"
  let ?a0 = "\<lparr>a_rc = CONFACK, a_rej = [], a_nak = [], a_ho = zero_lcp_options, a_io = io\<rparr>"
  define s where "s = reqci_loop go ao rid ?s0"
  have "simulates inp len ?s0 ?a0 (take len inp)" using assms(1) by (simp add: simulates_def)
  then have sim: "simulates inp len s spec []"
    unfolding s_def assms(3) reqci_spec_def by (rule reqci_loop_simulates)
  have run: "rc = rq_rc s \<and> ho = rq_ho s \<and> io' = rq_io s \<and>
      (buf, n) = (if rq_rc s = CONFACK then (rq_buf s, rq_next s)
        else if rq_rc s = CONFNAK then (poke (rq_buf s) 0 (rq_nak s), length (rq_nak s))
        else (rq_buf s, rq_rej s))"
    using assms(2) unfolding lcp_reqci_def s_def[symmetric] Let_def by (auto split: if_splits)
  show "rc = a_rc spec" "ho = a_ho spec" "io' = a_io spec" using run sim by (simp_all add: simulates_def)
  show "take n buf = (if rc = CONFACK then take len inp else if rc = CONFNAK then a_nak spec else a_rej spec)"
    and "n = (if rc = CONFACK then len else if rc = CONFNAK then length (a_nak spec) else length (a_rej spec))"
    and "rc = CONFACK \<Longrightarrow> buf = inp"
    using run sim by (auto simp: simulates_def poke_def split: if_splits)
qed

text \<open>
  C29: judging a request in place is the same as the pass over its options. The returned
  code, the peer's options and the unit agree, and the packet sent back holds the request
  itself for an Ack, the collected Naks for a Nak, and for a Reject exactly the rejected
  options, in the order of the request.
\<close>

theorem lcp_reqci_spec:
  assumes "len \<le> length inp" and "lcp_reqci go ao io inp len rid = (rc, buf, n, ho, io')"
    and "spec = reqci_spec go ao rid io (take len inp)"
  shows "rc = a_rc spec \<and> ho = a_ho spec \<and> io' = a_io spec
    \<and> take n buf = (if rc = CONFACK then take len inp else if rc = CONFNAK then a_nak spec else a_rej spec)
    \<and> n = (if rc = CONFACK then len else if rc = CONFNAK then length (a_nak spec) else length (a_rej spec))
    \<and> (rc = CONFACK \<longrightarrow> buf = inp)"
  using reqci_implements[OF assms] by blast

theorem lcp_reqci_spec_witness:
  "a_rej (reqci_spec zero_lcp_options zero_lcp_options False (undefined :: ppp_io) [7, 2, 9, 3, 1]) = [7, 2, 9, 3, 1]"
  using lcp_reqci_spec[of 5 "[7, 2, 9, 3, 1, 0]" zero_lcp_options zero_lcp_options "undefined :: ppp_io" False
      CONFREJ "[7, 2, 9, 3, 1, 0]" 5 zero_lcp_options undefined
      "reqci_spec zero_lcp_options zero_lcp_options False undefined [7, 2, 9, 3, 1]"]
  by (simp add: lcp_reqci_def reqci_loop.simps reqci_step_def reqci_option_def reqci_pcompression_def
      reqci_endswitch_def ci_defs zero_lcp_options_def verdict_def)

section \<open>What is accepted\<close>

text \<open>The peer's options after a request: each one was allowed and has an acceptable value.\<close>

definition his_ok :: "lcp_options \<Rightarrow> lcp_options \<Rightarrow> lcp_options \<Rightarrow> bool" where
  "his_ok go ao ho \<longleftrightarrow>
     (neg_mru ho \<longrightarrow> neg_mru ao \<and> MINMRU \<le> mru ho)
     \<and> (neg_asyncmap ho \<longrightarrow> neg_asyncmap ao \<and> asyncmap ao AND NOT (asyncmap ho) = 0)
     \<and> (neg_upap ho \<longrightarrow> neg_upap ao) \<and> (neg_chap ho \<longrightarrow> neg_chap ao \<and> chap_mdtype ho = chap_mdtype ao)
     \<and> \<not> (neg_upap ho \<and> neg_chap ho)
     \<and> (neg_magicnumber ho \<longrightarrow> neg_magicnumber ao \<or> neg_magicnumber go)
     \<and> (neg_magicnumber ho \<and> neg_magicnumber go \<longrightarrow> magicnumber ho \<noteq> magicnumber go)
     \<and> (neg_pcompression ho \<longrightarrow> neg_pcompression ao) \<and> (neg_accompression ho \<longrightarrow> neg_accompression ao)
     \<and> \<not> neg_lqr ho"

lemma his_ok_updates:
  "his_ok go ao ho \<Longrightarrow> neg_mru ao \<Longrightarrow> \<not> k < MINMRU \<Longrightarrow> his_ok go ao (ho\<lparr>neg_mru := True, mru := k\<rparr>)"
  "his_ok go ao ho \<Longrightarrow> neg_asyncmap ao \<Longrightarrow> asyncmap ao AND NOT l = 0 \<Longrightarrow>
     his_ok go ao (ho\<lparr>neg_asyncmap := True, asyncmap := l\<rparr>)"
  "his_ok go ao ho \<Longrightarrow> neg_upap ao \<Longrightarrow> \<not> neg_chap ho \<Longrightarrow> his_ok go ao (ho\<lparr>neg_upap := True\<rparr>)"
  "his_ok go ao ho \<Longrightarrow> neg_chap ao \<Longrightarrow> \<not> neg_upap ho \<Longrightarrow>
     his_ok go ao (ho\<lparr>chap_mdtype := chap_mdtype ao, neg_chap := True\<rparr>)"
  "his_ok go ao ho \<Longrightarrow> neg_magicnumber ao \<or> neg_magicnumber go \<Longrightarrow> \<not> (neg_magicnumber go \<and> m = magicnumber go) \<Longrightarrow>
     his_ok go ao (ho\<lparr>neg_magicnumber := True, magicnumber := m\<rparr>)"
  "his_ok go ao ho \<Longrightarrow> neg_pcompression ao \<Longrightarrow> his_ok go ao (ho\<lparr>neg_pcompression := True\<rparr>)"
  "his_ok go ao ho \<Longrightarrow> neg_accompression ao \<Longrightarrow> his_ok go ao (ho\<lparr>neg_accompression := True\<rparr>)"
  by (simp_all add: his_ok_def linorder_not_less)

lemma his_ok_option:
  assumes "his_ok go ao ho" shows "his_ok go ao (v_ho (reqci_option go ao rid t n p ho io))"
  by (rule reqci_option_rule[where P = "\<lambda>v. his_ok go ao (v_ho v)"])
    (use assms in \<open>simp_all add: reqci_option_defs Let_def his_ok_updates split: prod.split\<close>)

lemma rq_ho_endswitch [simp]: "rq_ho (reqci_endswitch rid orc t cip n s) = rq_ho s"
  by (simp add: reqci_endswitch_def Let_def)

lemma his_ok_loop: "his_ok go ao (rq_ho s) \<Longrightarrow> his_ok go ao (rq_ho (reqci_loop go ao rid s))"
proof (induction go ao rid s rule: reqci_loop.induct)
  case (1 go ao rid s)
  then have "his_ok go ao (rq_ho (reqci_step go ao rid s))" by (simp add: reqci_step_def Let_def his_ok_option)
  with 1 show ?case by (subst reqci_loop.simps) simp
qed

text \<open>
  C32: whatever the peer asks for, the options recorded for it were allowed by our
  configuration: an MRU of at least 128, an async map that covers ours, at most one
  authentication protocol and only with our digest, a magic number different from ours,
  and never link quality monitoring.
\<close>

theorem lcp_reqci_his_ok:
  assumes "lcp_reqci go ao io inp len rid = (rc, buf, n, ho, io')"
  shows "his_ok go ao ho"
proof -
  have "his_ok go ao zero_lcp_options" by (simp add: his_ok_def zero_lcp_options_def)
  then show ?thesis using assms unfolding lcp_reqci_def Let_def
    by (auto intro!: his_ok_loop split: if_splits)
qed

theorem lcp_reqci_his_ok_witness:
  "his_ok zero_lcp_options (zero_lcp_options\<lparr>neg_mru := True\<rparr>) (zero_lcp_options\<lparr>neg_mru := True, mru := 1500\<rparr>)"
  using lcp_reqci_his_ok[of zero_lcp_options "zero_lcp_options\<lparr>neg_mru := True\<rparr>" "undefined :: ppp_io"
      "[1, 4, 5, 220]" 4 False CONFACK "[1, 4, 5, 220]" 4 "zero_lcp_options\<lparr>neg_mru := True, mru := 1500\<rparr>" undefined]
  by (simp add: lcp_reqci_def reqci_loop.simps reqci_step_def reqci_option_def reqci_mru_def reqci_endswitch_def
      ci_defs cilen_defs zero_lcp_options_def verdict_def get_short_def GETSHORT_def MINMRU_def)

definition known_ci :: "u8 list \<Rightarrow> bool" where
  "known_ci c \<longleftrightarrow> wf_ci c \<and> c ! 0 \<in> {CI_MRU, CI_ASYNCMAP, CI_AUTHTYPE, CI_QUALITY, CI_MAGICNUMBER,
     CI_PCOMPRESSION, CI_ACCOMPRESSION}"

lemma judge_known: "v_orc (judge go ao rid c ho io) = CONFACK \<Longrightarrow> known_ci c"
  by (auto simp: judge_def known_ci_def reqci_option_def verdict_def split: if_splits)

lemma judge_codes: "v_orc (judge go ao rid c ho io) \<in> {CONFACK, CONFNAK, CONFREJ}"
  using verdict_codes[of go ao rid "c ! 0" "length c" "drop 2 c" ho io] by (simp add: judge_def verdict_def)

lemma combine_ack: "combine_rc rid c orc rc = CONFACK \<Longrightarrow> orc \<in> {CONFACK, CONFNAK, CONFREJ} \<Longrightarrow>
    rc = CONFACK \<and> orc = CONFACK"
  by (auto simp: combine_rc_def rejects_def split: if_splits)

lemma spec_ack_all:
  "a_rc (foldl (spec_step go ao rid) acc cs) = CONFACK \<Longrightarrow> a_rc acc = CONFACK \<and> (\<forall>c \<in> set cs. known_ci c)"
proof (induction cs arbitrary: acc)
  case (Cons c cs)
  then have "a_rc (spec_step go ao rid acc c) = CONFACK" and rest: "\<forall>c \<in> set cs. known_ci c" by simp_all
  then have "a_rc acc = CONFACK \<and> v_orc (judge go ao rid c (a_ho acc) (a_io acc)) = CONFACK"
    using combine_ack[OF _ judge_codes] by (simp add: spec_step_def Let_def)
  then show ?case using rest judge_known by auto
qed simp

lemma concat_split_cis: "concat (split_cis xs) = xs"
proof (induction xs rule: split_cis.induct)
  case (1 xs)
  then show ?case by (subst split_cis.simps) (auto simp: next_ci_def split: if_splits)
qed

text \<open>
  A request is acknowledged only when it is, from its first byte to its last, a
  sequence of well-formed options of the types LCP knows.
\<close>

theorem lcp_reqci_ack_wellformed:
  assumes "lcp_reqci go ao io inp len rid = (CONFACK, buf, n, ho, io')" and "len \<le> length inp"
  shows "take len inp = concat (split_cis (take len inp)) \<and> list_all known_ci (split_cis (take len inp))"
proof -
  have "a_rc (reqci_spec go ao rid io (take len inp)) = CONFACK"
    using reqci_implements(1)[OF assms(2,1) refl] by simp
  then show ?thesis using spec_ack_all concat_split_cis unfolding reqci_spec_def list_all_iff by metis
qed

theorem lcp_reqci_ack_wellformed_witness:
  "list_all known_ci (split_cis [7, 2, 8, 2])"
  using lcp_reqci_ack_wellformed[of zero_lcp_options "zero_lcp_options\<lparr>neg_pcompression := True, neg_accompression := True\<rparr>"
      "undefined :: ppp_io" "[7, 2, 8, 2]" 4 False "[7, 2, 8, 2]" 4
      "zero_lcp_options\<lparr>neg_pcompression := True, neg_accompression := True\<rparr>" undefined]
  by (simp add: lcp_reqci_def reqci_loop.simps reqci_step_def reqci_option_def reqci_pcompression_def
      reqci_accompression_def reqci_endswitch_def ci_defs cilen_defs zero_lcp_options_def verdict_def)

section \<open>What the Nak path does\<close>

text \<open>
  The Nak for an MRU below 128 (and likewise for an async map that lacks required bits) is
  written into the request, but the packet returned for \<open>CONFNAK\<close> is built from the Nak
  buffer, which was not written.
\<close>

lemma reqci_run_one:
  assumes "wf_ci c" and "length c = n"
    and v: "v = reqci_option go ao False (c ! 0) n (drop 2 c) zero_lcp_options io" "v_orc v = CONFNAK"
  shows "\<exists>buf ho io'. lcp_reqci go ao io c n False = (CONFNAK, buf, length (v_nak v), ho, io')"
proof -
  let ?s = "\<lparr>rq_buf = c, rq_next = 0, rq_left = n, rq_nak = [], rq_rej = 0, rq_rc = CONFACK,
    rq_ho = zero_lcp_options, rq_io = io\<rparr>"
  have n: "2 \<le> n" "unat (c ! 1) = n" using assms by (simp_all add: wf_ci_def)
  have step: "rq_left (reqci_step go ao False ?s) = 0 \<and> rq_rc (reqci_step go ao False ?s) = CONFNAK
      \<and> rq_nak (reqci_step go ao False ?s) = v_nak v"
    using n v by (simp add: reqci_step_def reqci_endswitch_def Let_def)
  have "reqci_loop go ao False ?s = reqci_step go ao False ?s"
    using n step by (subst reqci_loop.simps, simp) (subst reqci_loop.simps, simp)
  then show ?thesis using step by (simp add: lcp_reqci_def Let_def)
qed

text \<open>
  A request for an MRU below the minimum is answered with a Configure-Nak that holds
  no option at all, so the peer is never told what to ask for instead.
\<close>

theorem lcp_reqci_empty_nak:
  assumes "neg_mru ao" and "GETSHORT a b < MINMRU"
  shows "\<exists>buf ho io'. lcp_reqci go ao io [CI_MRU, 4, a, b] 4 False = (CONFNAK, buf, 0, ho, io')"
  using assms reqci_run_one[OF _ _ refl, of "[CI_MRU, 4, a, b]" 4 go ao io]
  by (simp add: reqci_option_def reqci_mru_def verdict_def wf_ci_def cilen_defs get_short_def Let_def)

theorem lcp_reqci_empty_nak_witness:
  "\<exists>buf ho io'. lcp_reqci zero_lcp_options (zero_lcp_options\<lparr>neg_mru := True\<rparr>) (undefined :: ppp_io)
     [CI_MRU, 4, 0, 100] 4 False = (CONFNAK, buf, 0, ho, io')"
  using lcp_reqci_empty_nak[of "zero_lcp_options\<lparr>neg_mru := True\<rparr>" 0 100 zero_lcp_options "undefined :: ppp_io"]
  by (simp add: GETSHORT_def MINMRU_def)

text \<open>
  The comment above \<open>lcp_reqci\<close> says that with \<open>reject_if_disagree\<close> it never returns
  \<open>CONFNAK\<close>; a request that carries our own magic number is answered with one all the same.
\<close>

theorem lcp_reqci_nak_despite_rid:
  assumes "neg_magicnumber go"
  shows "\<exists>buf n ho io'. lcp_reqci go ao io (CI_MAGICNUMBER # 6 # PUTLONG (magicnumber go)) 6 True = (CONFNAK, buf, n, ho, io')"
proof -
  let ?c = "CI_MAGICNUMBER # 6 # PUTLONG (magicnumber go)"
  have gl: "get_long (PUTLONG m) = m" for m
    using take_drop_long[of 0 "PUTLONG m" m] by simp
  have "v_orc (reqci_option go ao True CI_MAGICNUMBER 6 (PUTLONG (magicnumber go)) zero_lcp_options io) = CONFNAK"
    using assms by (simp add: reqci_option_def reqci_magicnumber_def verdict_def ci_defs cilen_defs gl Let_def
        split: prod.split)
  then show ?thesis
    by (simp add: lcp_reqci_def reqci_loop.simps reqci_step_def Let_def reqci_endswitch_def)
qed

theorem lcp_reqci_nak_despite_rid_witness:
  "\<exists>buf n ho io'. lcp_reqci (zero_lcp_options\<lparr>neg_magicnumber := True, magicnumber := 7\<rparr>) zero_lcp_options
     (undefined :: ppp_io) (CI_MAGICNUMBER # 6 # PUTLONG 7) 6 True = (CONFNAK, buf, n, ho, io')"
  using lcp_reqci_nak_despite_rid[of "zero_lcp_options\<lparr>neg_magicnumber := True, magicnumber := 7\<rparr>"
      zero_lcp_options "undefined :: ppp_io"] by simp

text \<open>A request that repeats one unknown authentication protocol.\<close>

lemma split_replicate: "wf_ci c \<Longrightarrow> split_cis (concat (replicate k c)) = replicate k c"
proof (induction k)
  case (Suc k)
  let ?xs = "c @ concat (replicate k c)"
  have "?xs \<noteq> []" and "next_ci ?xs = (c, concat (replicate k c))"
    using Suc.prems by (auto simp: wf_ci_def next_ci_def nth_append)
  then have "split_cis ?xs = c # split_cis (concat (replicate k c))"
    by (subst split_cis.simps) simp
  then show ?case using Suc by simp
qed (simp add: split_cis.simps)

lemma spec_replicate_nak:
  fixes acc :: "'x ppp_io_scheme req_acc"
  assumes "\<And>ho (io :: 'x ppp_io_scheme). judge go ao False c ho io = (verdict CONFNAK ho io)\<lparr>v_nak := nk\<rparr>"
    and "a_rc acc \<noteq> CONFREJ"
  shows "a_nak (foldl (spec_step go ao False) acc (replicate k c)) = a_nak acc @ concat (replicate k nk)
    \<and> (0 < k \<longrightarrow> a_rc (foldl (spec_step go ao False) acc (replicate k c)) = CONFNAK)"
  using assms(2)
proof (induction k arbitrary: acc)
  case (Suc k)
  let ?acc = "spec_step go ao False acc c"
  have "a_rc ?acc = CONFNAK" "a_nak ?acc = a_nak acc @ nk"
    using assms(1) Suc.prems by (simp_all add: spec_step_def combine_rc_def rejects_def verdict_def Let_def)
  with Suc.IH[of ?acc] show ?case by (cases k) simp_all
qed simp

text \<open>
  Every unknown authentication protocol in a request (four bytes) adds a five-byte
  suggestion to the Nak, and nothing bounds their number: 374 of them fit the 1496 bytes a
  request may have and produce a Nak of 1870 bytes, in a \<open>nak_buffer\<close> of 1500 bytes.
\<close>

theorem lcp_reqci_nak_overflow:
  fixes io :: "'x ppp_io_scheme"
  assumes "neg_chap ao" and "GETSHORT a b \<noteq> UPAP" and "GETSHORT a b \<noteq> CHAP" and "0 < k"
  shows "\<exists>buf ho io'. lcp_reqci go ao io (concat (replicate k [CI_AUTHTYPE, 4, a, b])) (4 * k) False
     = (CONFNAK, buf, 5 * k, ho, io')"
proof -
  let ?c = "[CI_AUTHTYPE, 4, a, b]"
  let ?inp = "concat (replicate k ?c)"
  let ?spec = "reqci_spec go ao False io (take (4 * k) ?inp)"
  have wf: "wf_ci ?c" by (simp add: wf_ci_def)
  have len: "length ?inp = 4 * k" by (simp add: length_concat sum_list_replicate)
  have j: "judge go ao False ?c ho io = (verdict CONFNAK ho io)\<lparr>v_nak := nak_chap ao\<rparr>" for ho and io :: "'x ppp_io_scheme"
    using assms wf by (simp add: judge_def reqci_option_def reqci_authtype_def ci_defs cilen_defs get_short_def Let_def)
  let ?a0 = "\<lparr>a_rc = CONFACK, a_rej = [], a_nak = [], a_ho = zero_lcp_options, a_io = io\<rparr>"
  have sp: "a_nak ?spec = concat (replicate k (nak_chap ao)) \<and> a_rc ?spec = CONFNAK"
    using spec_replicate_nak[OF j, of ?a0 k] assms(4) len split_replicate[OF wf]
    by (simp add: reqci_spec_def)
  obtain rc buf n ho io' where run: "lcp_reqci go ao io ?inp (4 * k) False = (rc, buf, n, ho, io')"
    by (metis prod_cases5)
  have "rc = CONFNAK" and "n = 5 * k"
    using reqci_implements(1,5)[OF _ run refl] sp len
    by (simp_all add: length_concat sum_list_replicate nak_chap_def)
  with run show ?thesis by blast
qed

theorem lcp_reqci_nak_overflow_witness:
  "\<exists>buf ho io'. lcp_reqci zero_lcp_options (zero_lcp_options\<lparr>neg_chap := True\<rparr>) (undefined :: ppp_io)
     (concat (replicate 374 [CI_AUTHTYPE, 4, 0xc0, 0x27])) 1496 False = (CONFNAK, buf, 1870, ho, io')"
  using lcp_reqci_nak_overflow[of "zero_lcp_options\<lparr>neg_chap := True\<rparr>" "0xc0" "0x27" 374 zero_lcp_options "undefined :: ppp_io"]
  by (simp add: GETSHORT_def proto_defs)

end
