(* ===== verification/Ppp_Lcp.thy ===== *)
theory Ppp_Lcp
  imports Ppp_Fsm_Client Ppp_Lcp_Reqci
begin

text \<open>
  The link control protocol proper (\<^verbatim>\<open>lcp.c\<close>) with the parts of \<^verbatim>\<open>auth.c\<close> and \<^verbatim>\<open>pppLib.c\<close> that
  call it back (\<open>link_established\<close> and its neighbours, \<open>die\<close>, \<open>io\<close>, \<open>demuxprotrej\<close>): the unit,
  the callback table given to the automaton, and the entry points.

  The callbacks call the automaton and the automaton calls them. The cycle is cut where the
  code does not use it: \<open>fsm_open\<close>, \<open>fsm_close\<close> and \<open>fsm_lowerdown\<close> never call \<open>up\<close>, \<open>finished\<close> or
  \<open>extcode\<close>, so the callbacks that re-enter them are defined over the table without those
  entries; the lemmas \<open>lcp_finished_table\<close>, \<open>lcp_close_table\<close>, \<open>lcp_lowerdown_table\<close> and
  \<open>lcp_protrej_table\<close> show that this is the same as using the whole table.

  Calls into the network driver (\<^verbatim>\<open>ppp_vxworks.c\<close>) and into the other protocols are recorded,
  in order, in the field \<open>calls\<close>.
\<close>

section \<open>The unit\<close>

datatype ppp_phase = PHASE_DEAD | PHASE_ESTABLISH | PHASE_AUTHENTICATE | PHASE_NETWORK | PHASE_TERMINATE

datatype ppp_call =
    Sifdown
  | Set_xaccm "u32 list"
  | Send_config int u32 bool bool
  | Recv_config int u32 bool bool
  | Chap_lowerup | Upap_lowerup | Ipcp_lowerup
  | Chap_lowerdown | Upap_lowerdown | Ipcp_lowerdown
  | Chap_authpeer u8 | Upap_authpeer | Chap_authwithpeer u8 | Upap_authwithpeer
  | Ipcp_open
  | Protrej u16
  | Protocol_input u16 "u8 list"

text \<open>
  \<open>exited\<close> is set when \<open>die\<close> ends the task; no code runs after that. \<open>null_login_ok\<close> is the
  answer of \<^verbatim>\<open>null_login(unit)\<close>, which depends on the secrets table and file (\<open>Ppp_Auth\<close>).
\<close>

record lcp_unit = ppp_io +
  lcp_gotoptions :: lcp_options
  lcp_allowoptions :: lcp_options
  lcp_hisoptions :: lcp_options
  xmit_accm :: "u32 list"
  lcp_echos_pending :: u32
  lcp_echo_number :: u32
  lcp_echo_timer_running :: u32
  lcp_echo_interval :: u32
  lcp_echo_fails :: u32
  ppp_phase :: ppp_phase
  auth_required :: bool
  auth_pending :: u32
  unknownProto :: int
  null_login_ok :: bool
  calls :: "ppp_call list"
  exited :: bool

type_synonym lcp_st = "fsm \<times> lcp_unit"

definition LCP :: u16 where "LCP = 0xc021"
definition IPCP :: u16 where "IPCP = 0x8021"

definition PROTREJ :: u8 where "PROTREJ = 8"
definition ECHOREQ :: u8 where "ECHOREQ = 9"
definition ECHOREP :: u8 where "ECHOREP = 10"
definition DISCREQ :: u8 where "DISCREQ = 11"

definition on_unit :: "(lcp_unit \<Rightarrow> lcp_unit) \<Rightarrow> lcp_st \<Rightarrow> lcp_st" where
  "on_unit g st = (fst st, g (snd st))"

definition log_calls :: "ppp_call list \<Rightarrow> lcp_st \<Rightarrow> lcp_st" where
  "log_calls cs = on_unit (\<lambda>w. w\<lparr>calls := calls w @ cs\<rparr>)"

section \<open>Configuration callbacks\<close>

definition lcp_resetci :: "lcp_st \<Rightarrow> lcp_st" where
  "lcp_resetci st =
     (let (m, w) = magic (snd st);
          wo = (lcp_wantoptions w)\<lparr>magicnumber := m, numloops := 0\<rparr>
      in (fst st, w\<lparr>lcp_wantoptions := wo, lcp_gotoptions := wo, peer_mru := int MTU\<rparr>))"

definition lcp_cilen_cb :: "lcp_st \<Rightarrow> nat" where
  "lcp_cilen_cb st = lcp_cilen (lcp_gotoptions (snd st))"

text \<open>\<open>lcp_addci\<close> does not change the length it was given.\<close>

definition lcp_addci_cb :: "lcp_st \<Rightarrow> nat \<Rightarrow> u8 list \<times> nat \<times> lcp_st" where
  "lcp_addci_cb st n = (lcp_addci (lcp_gotoptions (snd st)), n, st)"

definition lcp_ackci_cb :: "lcp_st \<Rightarrow> u8 list \<Rightarrow> nat \<Rightarrow> bool \<times> lcp_st" where
  "lcp_ackci_cb st p len = (lcp_ackci (lcp_gotoptions (snd st)) p len, st)"

definition lcp_nakci_cb :: "lcp_st \<Rightarrow> u8 list \<Rightarrow> nat \<Rightarrow> (bool \<times> lcp_st) option" where
  "lcp_nakci_cb st p len =
     map_option (\<lambda>(good, go, w). (good, fst st, w\<lparr>lcp_gotoptions := go\<rparr>))
       (lcp_nakci (st_of st = OPENED) (lcp_gotoptions (snd st)) (lcp_wantoptions (snd st)) (snd st) p len)"

definition lcp_rejci_cb :: "lcp_st \<Rightarrow> u8 list \<Rightarrow> nat \<Rightarrow> bool \<times> lcp_st" where
  "lcp_rejci_cb st p len =
     (let (good, go) = lcp_rejci (st_of st = OPENED) (lcp_gotoptions (snd st)) p len
      in (good, fst st, (snd st)\<lparr>lcp_gotoptions := go\<rparr>))"

definition lcp_reqci_cb :: "lcp_st \<Rightarrow> u8 list \<Rightarrow> nat \<Rightarrow> bool \<Rightarrow> u8 \<times> u8 list \<times> nat \<times> lcp_st" where
  "lcp_reqci_cb st inp len rid =
     (let (rc, buf, n, ho, w) =
            lcp_reqci (lcp_gotoptions (snd st)) (lcp_allowoptions (snd st)) (snd st) inp len rid
      in (rc, buf, n, fst st, w\<lparr>lcp_hisoptions := ho\<rparr>))"

section \<open>Going down, opening and closing\<close>

definition ECHO_KEY :: ppp_key where "ECHO_KEY = Lcp_echo_timer"

definition lcp_echo_lowerdown :: "lcp_st \<Rightarrow> lcp_st" where
  "lcp_echo_lowerdown st =
     (if lcp_echo_timer_running (snd st) \<noteq> 0
      then on_unit (\<lambda>w. w\<lparr>callout_list := untimeout_unlink ECHO_KEY (callout_list w),
                          lcp_echo_timer_running := 0\<rparr>) st
      else st)"

text \<open>\<open>link_down\<close>, \<open>link_required\<close> and \<open>link_terminated\<close> of \<^verbatim>\<open>auth.c\<close>.\<close>

definition link_down :: "lcp_st \<Rightarrow> lcp_st" where
  "link_down = on_unit (\<lambda>w. w\<lparr>ppp_phase := PHASE_TERMINATE\<rparr>)"

definition link_required :: "lcp_st \<Rightarrow> lcp_st" where
  "link_required st = st"

definition link_terminated :: "lcp_st \<Rightarrow> lcp_st" where
  "link_terminated = on_unit (\<lambda>w. w\<lparr>ppp_phase := PHASE_DEAD\<rparr>)"

definition lcp_down :: "lcp_st \<Rightarrow> lcp_st" where
  "lcp_down st =
     link_down
       (on_unit (\<lambda>w. w\<lparr>peer_mru := int MTU\<rparr>)
         (log_calls [Ipcp_lowerdown, Chap_lowerdown, Upap_lowerdown, Sifdown,
            Send_config (int MTU) 0xffffffff False False, Recv_config (int MTU) 0 False False]
           (lcp_echo_lowerdown st)))"

definition lcp_starting :: "lcp_st \<Rightarrow> lcp_st" where
  "lcp_starting = link_required"

text \<open>The callback table without the three entries that re-enter the automaton.\<close>

definition lcp_base_callbacks :: "unit lcp_unit_ext fsm_callbacks" where
  "lcp_base_callbacks = \<lparr>cb_resetci = Some lcp_resetci, cb_cilen = Some lcp_cilen_cb,
     cb_addci = Some lcp_addci_cb, cb_ackci = Some lcp_ackci_cb, cb_nakci = Some lcp_nakci_cb,
     cb_rejci = Some lcp_rejci_cb, cb_reqci = Some lcp_reqci_cb, cb_up = None,
     cb_down = Some lcp_down, cb_starting = Some lcp_starting, cb_finished = None,
     cb_retransmit = None, cb_extcode = None\<rparr>"

definition lcp_finished :: "lcp_st \<Rightarrow> lcp_st" where
  "lcp_finished st =
     (if st_of st \<in> {STOPPED, CLOSED} \<and> f_flags (fst st) AND OPT_RESTART \<noteq> 0
      then fsm_open lcp_base_callbacks st
      else link_terminated st)"

definition lcp_close :: "lcp_st \<Rightarrow> lcp_st" where
  "lcp_close st =
     (if st_of st = STOPPED \<and> f_flags (fst st) AND (OPT_PASSIVE OR OPT_SILENT) \<noteq> 0
      then lcp_finished (set_state CLOSED st)
      else fsm_close lcp_base_callbacks st)"

definition lcp_lowerdown :: "lcp_st \<Rightarrow> lcp_st" where
  "lcp_lowerdown = fsm_lowerdown lcp_base_callbacks"

text \<open>
  \<open>die\<close> of \<^verbatim>\<open>pppLib.c\<close>, called with a non-zero status everywhere in these files: the task ends
  unless the unit is passive or silent.
\<close>

definition die :: "lcp_st \<Rightarrow> lcp_st" where
  "die st =
     (let st1 = lcp_close st
      in if f_flags (fst st1) AND (OPT_PASSIVE OR OPT_SILENT) \<noteq> 0 then st1
         else on_unit (\<lambda>w. w\<lparr>exited := True\<rparr>) st1)"

section \<open>Echo requests\<close>

definition LcpLinkFailure :: "lcp_st \<Rightarrow> lcp_st" where
  "LcpLinkFailure st =
     (if st_of st = OPENED
      then on_unit (\<lambda>w. w\<lparr>ppp_phase := PHASE_TERMINATE\<rparr>) (lcp_lowerdown st) else st)"

text \<open>
  \<open>LcpSendEchoRequest\<close>: the counter is compared before it is incremented, and incremented
  in any case; on failure the link is taken down and \<open>die\<close> called.
\<close>

definition echo_failed :: "lcp_unit \<Rightarrow> bool" where
  "echo_failed w \<longleftrightarrow> lcp_echo_fails w \<noteq> 0 \<and> lcp_echos_pending w \<ge> lcp_echo_fails w"

definition LcpSendEchoRequest :: "lcp_st \<Rightarrow> lcp_st" where
  "LcpSendEchoRequest st =
     (let st1 = (if lcp_echo_fails (snd st) \<noteq> 0
                 then on_unit (\<lambda>w. w\<lparr>lcp_echos_pending := lcp_echos_pending w + 1\<rparr>) st else st);
          st2 = (if echo_failed (snd st)
                 then die (on_unit (\<lambda>w. w\<lparr>lcp_echos_pending := 0\<rparr>) (LcpLinkFailure st1)) else st1)
      in if exited (snd st2) then st2
         else if st_of st2 = OPENED
         then let go = lcp_gotoptions (snd st2);
                  m = (if neg_magicnumber go then magicnumber go else 0);
                  i = ucast (lcp_echo_number (snd st2) AND 0xff)
              in fsm_sdata ECHOREQ i (Some (PUTLONG m)) 4
                   (on_unit (\<lambda>w. w\<lparr>lcp_echo_number := lcp_echo_number w + 1\<rparr>) st2)
         else st2)"

definition LcpEchoCheck :: "lcp_st \<Rightarrow> lcp_st" where
  "LcpEchoCheck st =
     (let st1 = LcpSendEchoRequest st
      in if exited (snd st1) then st1
         else on_unit (\<lambda>w. w\<lparr>callout_list := timeout_link ECHO_KEY (uint (lcp_echo_interval w)) (callout_list w),
                             lcp_echo_timer_running := 1\<rparr>) st1)"

definition LcpEchoTimeout :: "lcp_st \<Rightarrow> lcp_st" where
  "LcpEchoTimeout st =
     (if lcp_echo_timer_running (snd st) \<noteq> 0
      then LcpEchoCheck (on_unit (\<lambda>w. w\<lparr>lcp_echo_timer_running := 0\<rparr>) st) else st)"

definition lcp_received_echo_reply :: "u8 list \<Rightarrow> lcp_st \<Rightarrow> lcp_st" where
  "lcp_received_echo_reply inp st =
     (let go = lcp_gotoptions (snd st)
      in if neg_magicnumber go \<and> get_long inp = magicnumber go then st
         else on_unit (\<lambda>w. w\<lparr>lcp_echos_pending := 0\<rparr>) st)"

definition lcp_echo_lowerup :: "lcp_st \<Rightarrow> lcp_st" where
  "lcp_echo_lowerup st =
     (let st1 = on_unit (\<lambda>w. w\<lparr>lcp_echos_pending := 0, lcp_echo_number := 0, lcp_echo_timer_running := 0\<rparr>) st
      in if lcp_echo_interval (snd st1) \<noteq> 0 then LcpEchoCheck st1 else st1)"

section \<open>Coming up\<close>

definition UPAP_WITHPEER :: u32 where "UPAP_WITHPEER = 1"
definition UPAP_PEER :: u32 where "UPAP_PEER = 2"
definition CHAP_WITHPEER :: u32 where "CHAP_WITHPEER = 4"
definition CHAP_PEER :: u32 where "CHAP_PEER = 8"

definition enter_network :: "lcp_st \<Rightarrow> lcp_st" where
  "enter_network st = log_calls [Ipcp_open] (on_unit (\<lambda>w. w\<lparr>ppp_phase := PHASE_NETWORK\<rparr>) st)"

text \<open>The second half of \<open>link_established\<close>: start what was negotiated, or go on to the network phase.\<close>

definition start_authentication :: "lcp_st \<Rightarrow> lcp_st" where
  "start_authentication st =
     (let go = lcp_gotoptions (snd st); ho = lcp_hisoptions (snd st);
          peer = (if neg_chap go then ([Chap_authpeer (chap_mdtype go)], CHAP_PEER)
                  else if neg_upap go then ([Upap_authpeer], UPAP_PEER) else ([], 0));
          self = (if neg_chap ho then ([Chap_authwithpeer (chap_mdtype ho)], CHAP_WITHPEER)
                  else if neg_upap ho then ([Upap_authwithpeer], UPAP_WITHPEER) else ([], 0));
          auth = snd peer OR snd self;
          st' = on_unit (\<lambda>w. w\<lparr>auth_pending := auth\<rparr>)
                  (log_calls (fst peer @ fst self)
                    (on_unit (\<lambda>w. w\<lparr>ppp_phase := PHASE_AUTHENTICATE\<rparr>) st))
      in if auth = 0 then enter_network st' else st')"

text \<open>
  \<open>link_established\<close>: a peer that had to authenticate itself but negotiated no protocol for
  it is let in only with the null login; otherwise \<open>die\<close>. When \<open>die\<close> returns (a passive unit)
  the code goes on.
\<close>

definition link_established :: "lcp_st \<Rightarrow> lcp_st" where
  "link_established st0 =
     (let wo = lcp_wantoptions (snd st0); go = lcp_gotoptions (snd st0);
          st = (if auth_required (snd st0) \<and> \<not> (neg_chap go \<or> neg_upap go)
                   \<and> (\<not> neg_upap wo \<or> \<not> null_login_ok (snd st0))
                then die st0 else st0)
      in if exited (snd st) then st else start_authentication st)"

text \<open>\<open>auth_peer_success\<close>, \<open>auth_withpeer_success\<close> and \<open>auth_peer_fail\<close> of \<^verbatim>\<open>auth.c\<close>.\<close>

definition auth_done :: "u32 \<Rightarrow> lcp_st \<Rightarrow> lcp_st" where
  "auth_done b st =
     (let st' = on_unit (\<lambda>w. w\<lparr>auth_pending := auth_pending w AND NOT b\<rparr>) st
      in if auth_pending (snd st') = 0 then enter_network st' else st')"

definition auth_peer_success :: "u16 \<Rightarrow> lcp_st \<Rightarrow> lcp_st" where
  "auth_peer_success protocol st =
     (if protocol = CHAP then auth_done CHAP_PEER st
      else if protocol = UPAP then auth_done UPAP_PEER st else st)"

definition auth_withpeer_success :: "u16 \<Rightarrow> lcp_st \<Rightarrow> lcp_st" where
  "auth_withpeer_success protocol st =
     auth_done (if protocol = CHAP then CHAP_WITHPEER else if protocol = UPAP then UPAP_WITHPEER else 0) st"

definition auth_peer_fail :: "lcp_st \<Rightarrow> lcp_st" where
  "auth_peer_fail = die"

definition lcp_up :: "lcp_st \<Rightarrow> lcp_st" where
  "lcp_up st =
     (let w = snd st; wo = lcp_wantoptions w; ao = lcp_allowoptions w;
          go = (let g = lcp_gotoptions w in if neg_magicnumber g then g else g\<lparr>magicnumber := 0\<rparr>);
          ho = (let h = lcp_hisoptions w in if neg_magicnumber h then h else h\<lparr>magicnumber := 0\<rparr>);
          mtu = min (if mru ao \<noteq> 0 then uint (mru ao) else int MTU)
                    (if neg_mru ho then uint (mru ho) else int MTU);
          mru' = (if neg_mru go then max (uint (mru wo)) (uint (mru go)) else int MTU);
          st1 = log_calls
                  [Send_config mtu (if neg_asyncmap ho then asyncmap ho else 0xffffffff)
                     (neg_pcompression ho) (neg_accompression ho),
                   Recv_config mru' (if neg_asyncmap go then asyncmap go else 0)
                     (neg_pcompression go) (neg_accompression go)]
                  (fst st, w\<lparr>lcp_gotoptions := go, lcp_hisoptions := ho\<rparr>);
          st2 = (if neg_mru ho then on_unit (\<lambda>w. w\<lparr>peer_mru := uint (mru ho)\<rparr>) st1 else st1);
          st3 = lcp_echo_lowerup (log_calls [Chap_lowerup, Upap_lowerup, Ipcp_lowerup] st2)
      in if exited (snd st3) then st3 else link_established st3)"

definition lcp_core_callbacks :: "unit lcp_unit_ext fsm_callbacks" where
  "lcp_core_callbacks = lcp_base_callbacks\<lparr>cb_up := Some lcp_up, cb_finished := Some lcp_finished\<rparr>"

section \<open>Codes only LCP knows\<close>

definition lcp_protrej :: "lcp_st \<Rightarrow> lcp_st" where
  "lcp_protrej = fsm_protreject lcp_core_callbacks"

text \<open>\<open>demuxprotrej\<close>: the protocol table has LCP, IPCP, PAP and CHAP.\<close>

definition demuxprotrej :: "u16 \<Rightarrow> lcp_st \<Rightarrow> lcp_st" where
  "demuxprotrej prot st =
     (if prot = LCP then lcp_protrej st
      else if prot \<in> {IPCP, UPAP, CHAP} then log_calls [Protrej prot] st
      else st)"

definition lcp_rprotrej :: "u8 list \<Rightarrow> nat \<Rightarrow> lcp_st \<Rightarrow> lcp_st" where
  "lcp_rprotrej inp len st =
     (if len < 2 then st
      else if st_of st \<noteq> OPENED then st
      else demuxprotrej (get_short inp) st)"

definition lcp_extcode :: "lcp_st \<Rightarrow> u8 \<Rightarrow> u8 \<Rightarrow> u8 list \<Rightarrow> nat \<Rightarrow> bool \<times> u8 list \<times> lcp_st" where
  "lcp_extcode st code i inp len =
     (if code = PROTREJ then (True, inp, lcp_rprotrej inp len st)
      else if code = ECHOREQ then
        (if st_of st \<noteq> OPENED then (True, inp, st)
         else let inp' = poke inp 0 (PUTLONG (magicnumber (lcp_gotoptions (snd st))));
                  len' = (if len < CILEN_LONG then CILEN_LONG else len)
              in (True, inp', fsm_sdata ECHOREP i (Some inp') len' st))
      else if code = ECHOREP then (True, inp, lcp_received_echo_reply inp st)
      else if code = DISCREQ then (True, inp, st)
      else (False, inp, st))"

definition lcp_callbacks :: "unit lcp_unit_ext fsm_callbacks" where
  "lcp_callbacks = lcp_core_callbacks\<lparr>cb_extcode := Some lcp_extcode\<rparr>"

section \<open>Entry points\<close>

definition lcp_init :: "int \<Rightarrow> lcp_st \<Rightarrow> lcp_st" where
  "lcp_init unit st =
     (let st1 = fsm_init ((fst st)\<lparr>f_unit := unit, f_protocol := LCP\<rparr>, snd st)
      in on_unit (\<lambda>w. w\<lparr>
           lcp_wantoptions := (lcp_wantoptions w)\<lparr>o_passive := False, o_silent := False, o_restart := False,
             neg_mru := True, mru := DEFMRU, neg_asyncmap := False, asyncmap := 0, neg_chap := False,
             neg_upap := False, chap_mdtype := CHAP_DIGEST_MD5, neg_magicnumber := True,
             neg_pcompression := True, neg_accompression := True, neg_lqr := False\<rparr>,
           lcp_allowoptions := (lcp_allowoptions w)\<lparr>neg_mru := True, mru := MAXMRU, neg_asyncmap := True,
             asyncmap := 0, neg_chap := True, chap_mdtype := CHAP_DIGEST_MD5, neg_upap := True,
             neg_magicnumber := True, neg_pcompression := True, neg_accompression := True, neg_lqr := False\<rparr>,
           xmit_accm := (xmit_accm w)[0 := 0, 3 := 0x60000000]\<rparr>) st1)"

definition lcp_open :: "lcp_st \<Rightarrow> lcp_st" where
  "lcp_open st =
     (let wo = lcp_wantoptions (snd st);
          flags = (if o_passive wo then OPT_PASSIVE OR OPT_RESTART else 0)
               OR (if o_silent wo then OPT_SILENT OR OPT_RESTART else 0)
      in fsm_open lcp_callbacks (on_fsm (\<lambda>f. f\<lparr>f_flags := flags\<rparr>) st))"

definition lcp_lowerup :: "lcp_st \<Rightarrow> lcp_st" where
  "lcp_lowerup st =
     fsm_lowerup lcp_callbacks
       (on_unit (\<lambda>w. w\<lparr>peer_mru := int MTU,
                       lcp_allowoptions := (lcp_allowoptions w)\<lparr>asyncmap := xmit_accm w ! 0\<rparr>\<rparr>)
         (log_calls [Sifdown, Set_xaccm (xmit_accm (snd st)), Send_config (int MTU) 0xffffffff False False,
                     Recv_config (int MTU) 0 False False] st))"

definition lcp_input :: "u8 list \<Rightarrow> nat \<Rightarrow> lcp_st \<Rightarrow> lcp_st option" where
  "lcp_input p len = fsm_input lcp_callbacks p len"

text \<open>\<open>lcp_sprotrej\<close> is given the whole frame; the two address and control bytes are left out.\<close>

definition lcp_sprotrej :: "u8 list \<Rightarrow> nat \<Rightarrow> lcp_st \<Rightarrow> lcp_st" where
  "lcp_sprotrej p len st =
     (let st1 = on_fsm (\<lambda>f. f\<lparr>f_id := f_id f + 1\<rparr>) st
      in fsm_sdata PROTREJ (f_id (fst st1)) (Some (drop 2 p)) (len - 2) st1)"

text \<open>The body of the loop of \<open>io\<close> for one frame of \<open>len\<close> bytes.\<close>

definition io_packet :: "u8 list \<Rightarrow> nat \<Rightarrow> lcp_st \<Rightarrow> lcp_st option" where
  "io_packet p len st =
     (if len < DLLHEADERLEN then Some st
      else
        let protocol = get_short (drop 2 p)
        in if protocol \<noteq> LCP \<and> st_of st \<noteq> OPENED then Some st
           else if protocol = LCP then lcp_input (drop 4 p) (len - DLLHEADERLEN) st
           else if protocol \<in> {IPCP, UPAP, CHAP}
           then Some (log_calls [Protocol_input protocol (take (len - DLLHEADERLEN) (drop 4 p))] st)
           else Some (lcp_sprotrej p len (on_unit (\<lambda>w. w\<lparr>unknownProto := unknownProto w + 1\<rparr>) st)))"

section \<open>Timers and events\<close>

text \<open>
  The routine behind a callout entry. A key that is neither the automaton's nor the echo
  timer's belongs to another protocol, whose routine does not touch LCP.
\<close>

definition run_timer :: "ppp_key \<Rightarrow> lcp_st \<Rightarrow> lcp_st" where
  "run_timer k st =
     (if exited (snd st) then st
      else if k = timer_key (fst st) then fsm_timeout lcp_callbacks st
      else if k = ECHO_KEY then LcpEchoTimeout st
      else st)"

text \<open>
  \<open>alrm\<close> on the unit: the due entries are taken off the list, then their routines are called
  in order.
\<close>

definition lcp_alrm :: "lcp_st \<Rightarrow> lcp_st" where
  "lcp_alrm st =
     (case callout_list (snd st) of
        [] \<Rightarrow> st
      | c # cs \<Rightarrow>
          fold run_timer (map c_key (c # takeWhile (\<lambda>d. c_time d = 0) cs))
            (on_unit (\<lambda>w. w\<lparr>callout_list := dropWhile (\<lambda>d. c_time d = 0) cs\<rparr>) st))"

text \<open>Everything that can happen to LCP from outside, and the routine that handles it.\<close>

datatype lcp_event =
    Lowerup | Lowerdown | Open | Close | Die | Alarm
  | Frame "u8 list" nat
  | Auth_peer_success u16 | Auth_withpeer_success u16 | Auth_peer_fail
  | Protocol_reject u16

definition lcp_handle :: "lcp_event \<Rightarrow> lcp_st \<Rightarrow> lcp_st option" where
  "lcp_handle ev st =
     (case ev of
        Lowerup \<Rightarrow> Some (lcp_lowerup st)
      | Lowerdown \<Rightarrow> Some (lcp_lowerdown st)
      | Open \<Rightarrow> Some (lcp_open st)
      | Close \<Rightarrow> Some (lcp_close st)
      | Die \<Rightarrow> Some (die st)
      | Alarm \<Rightarrow> Some (lcp_alrm st)
      | Frame p len \<Rightarrow> io_packet p len st
      | Auth_peer_success prot \<Rightarrow> Some (auth_peer_success prot st)
      | Auth_withpeer_success prot \<Rightarrow> Some (auth_withpeer_success prot st)
      | Auth_peer_fail \<Rightarrow> Some (auth_peer_fail st)
      | Protocol_reject prot \<Rightarrow> Some (demuxprotrej prot st))"

text \<open>
  The states a unit can get into: \<open>lcp_init\<close> first, the configured options (\<^verbatim>\<open>options.c\<close>) before the line comes up,
  then events in any order until the task exits. An event whose handler does not return leads nowhere.
\<close>

definition lcp_configure :: "lcp_options \<Rightarrow> lcp_options \<Rightarrow> bool \<Rightarrow> u32 \<Rightarrow> u32 \<Rightarrow> 'x lcp_unit_scheme \<Rightarrow> 'x lcp_unit_scheme" where
  "lcp_configure wo ao required interval fails w = w\<lparr>lcp_wantoptions := wo, lcp_allowoptions := ao,
     auth_required := required, lcp_echo_interval := interval, lcp_echo_fails := fails\<rparr>"

inductive lcp_reach :: "lcp_st \<Rightarrow> bool" where
  init: "calls (snd st) = [] \<Longrightarrow> \<not> exited (snd st) \<Longrightarrow> lcp_reach (lcp_init unit st)"
| configure: "lcp_reach st \<Longrightarrow> st_of st = INITIAL \<Longrightarrow>
    lcp_reach (on_unit (lcp_configure wo ao required interval fails) st)"
| step: "lcp_reach st \<Longrightarrow> \<not> exited (snd st) \<Longrightarrow> lcp_handle ev st = Some st' \<Longrightarrow> lcp_reach st'"

end
