(* ===== verification/Ppp_Lcp_Correct.thy ===== *)
theory Ppp_Lcp_Correct
  imports Ppp_Lcp
begin

text \<open>
  LCP meets the contract of the automaton. The callback table is built in three stages
  (\<open>lcp_base_callbacks\<close>, \<open>lcp_core_callbacks\<close>, \<open>lcp_callbacks\<close>) and each stage is an
  interpretation of the automaton's locales; the later stages use the facts of the earlier
  ones for the callbacks that re-enter the automaton.
\<close>

section \<open>What the callbacks leave alone\<close>

lemma fst_on_unit [simp]: "fst (on_unit g st) = fst st"
  and snd_on_unit [simp]: "snd (on_unit g st) = g (snd st)"
  by (simp_all add: on_unit_def)

lemma fst_log_calls [simp]: "fst (log_calls cs st) = fst st"
  and snd_log_calls [simp]: "snd (log_calls cs st) = (snd st)\<lparr>calls := calls (snd st) @ cs\<rparr>"
  by (simp_all add: log_calls_def)

text \<open>The magic number generator is the only part of the unit the option code touches.\<close>

lemma magic_frame [frame]:
  "callout_list (snd (magic w)) = callout_list w" "calls (snd (magic w)) = calls w"
  for w :: lcp_unit
  by (simp_all add: magic_def random_def)

lemma nak_step_keeps:
  assumes "\<And>p s'. P (nk_io s') \<Longrightarrow> P (nk_io (code p s'))" and "P (nk_io s)"
  shows "P (nk_io (nak_step n opt neg seen code s))"
  using assms by (simp add: nak_step_def Let_def)

lemma nak_options_keeps:
  fixes s :: "lcp_unit nak_state"
  assumes magic: "\<And>w. P w \<Longrightarrow> P (snd (magic w))" and s: "P (nk_io s)"
  shows "P (nk_io (nak_options go wo s))"
proof -
  have if_step: "P (nk_io (if b then s1 else s2))"
    if "P (nk_io s1)" "P (nk_io s2)" for b and s1 s2 :: "lcp_unit nak_state"
    using that by simp
  show ?thesis
    unfolding nak_options_def Let_def NAKCISHORT_def NAKCILONG_def NAKCICHAP_def NAKCILQR_def NAKCIVOID_def
    by (intro nak_step_keeps[where P = P] if_step s)
      (auto simp: on_try_def dest: magic split: prod.splits)
qed

lemma rq_io_endswitch [simp]: "rq_io (reqci_endswitch rid orc t cip n s) = rq_io s"
  by (simp add: reqci_endswitch_def Let_def)

lemma reqci_option_keeps:
  fixes io :: lcp_unit
  assumes magic: "\<And>w. P w \<Longrightarrow> P (snd (magic w))" and io: "P io"
  shows "P (v_io (reqci_option go ao rid t n p ho io))"
  by (rule reqci_option_rule[where P = "\<lambda>v. P (v_io v)"])
    (use magic[OF io] io in \<open>simp_all add: reqci_option_defs Let_def case_prod_beta\<close>)

lemma reqci_loop_keeps:
  fixes s :: "lcp_unit req_state"
  assumes magic: "\<And>w. P w \<Longrightarrow> P (snd (magic w))" and s: "P (rq_io s)"
  shows "P (rq_io (reqci_loop go ao rid s))"
  using s
proof (induction go ao rid s rule: reqci_loop.induct)
  case (1 go ao rid s)
  then have "P (rq_io (reqci_step go ao rid s))"
    by (simp add: reqci_step_def Let_def reqci_option_keeps[where P = P, OF magic])
  with 1 show ?case by (subst reqci_loop.simps) simp
qed

definition same_io :: "lcp_unit \<Rightarrow> lcp_unit \<Rightarrow> bool" where
  "same_io w w' \<longleftrightarrow> callout_list w' = callout_list w \<and> calls w' = calls w"

lemma same_io_magic: "same_io w w' \<Longrightarrow> same_io w (snd (magic w'))"
  by (simp add: same_io_def frame)

lemma nakci_io: "lcp_nakci op go wo w p len = Some (good, go', w') \<Longrightarrow> same_io w w'"
  using nak_options_keeps[of "same_io w", OF same_io_magic]
  by (auto simp: lcp_nakci_def Let_def same_io_def[of w w])

lemma reqci_io: "lcp_reqci go ao w inp len rid = (rc, buf, n, ho, w') \<Longrightarrow> same_io w w'"
  by (auto simp: lcp_reqci_def Let_def intro!: reqci_loop_keeps[of "same_io w", OF same_io_magic]
      simp: same_io_def[of w w] split: if_splits)

section \<open>The base table\<close>

lemma armed_on_unit:
  assumes "\<And>w. callout_list (g w) = callout_list w" shows "armed (on_unit g st) = armed st"
  by (rule armed_cong) (auto intro!: fsm_pending_cong simp: assms)

lemma armed_log_calls [simp]: "armed (log_calls cs st) = armed st"
  unfolding log_calls_def by (rule armed_on_unit) simp

lemma lcp_resetci_frame: "ci_frame st (lcp_resetci st) \<and> calls (snd (lcp_resetci st)) = calls (snd st)"
  by (simp add: lcp_resetci_def ci_frame_def Let_def frame case_prod_beta)

lemma lcp_nakci_frame: "lcp_nakci_cb st p len = Some (good, st') \<Longrightarrow> ci_frame st st' \<and> calls (snd st') = calls (snd st)"
  by (auto simp: lcp_nakci_cb_def ci_frame_def same_io_def dest!: nakci_io)

lemma lcp_rejci_frame: "ci_frame st (snd (lcp_rejci_cb st p len)) \<and> calls (snd (snd (lcp_rejci_cb st p len))) = calls (snd st)"
  by (simp add: lcp_rejci_cb_def ci_frame_def Let_def case_prod_beta)

lemma lcp_reqci_frame:
  "lcp_reqci_cb st inp len rid = (rc, buf, n, st') \<Longrightarrow> ci_frame st st' \<and> calls (snd st') = calls (snd st)"
  by (auto simp: lcp_reqci_cb_def ci_frame_def same_io_def dest!: reqci_io split: prod.splits)

lemmas lcp_cb_simps = lcp_base_callbacks_def lcp_core_callbacks_def lcp_callbacks_def

lemma lcp_down_state [simp]: "fst (lcp_down st) = fst st"
  by (simp add: lcp_down_def link_down_def lcp_echo_lowerdown_def)

lemma lcp_rejci_laws:
  assumes "lcp_rejci_cb st p n = (good, st')"
  shows "armed st \<Longrightarrow> armed st'" and "st_of st' = OPENED \<Longrightarrow> st_of st = OPENED"
  using lcp_rejci_frame[of st p n] armed_frame[of st st'] assms by (auto simp: ci_frame_def)

lemma lcp_ci_laws:
  "ci_frame st (lcp_resetci st)"
  "lcp_addci_cb st n = (bs, m, st') \<Longrightarrow> ci_frame st st'"
  "lcp_ackci_cb st p n = (good, st') \<Longrightarrow> ci_frame st st'"
  "lcp_nakci_cb st p n = Some (good, st') \<Longrightarrow> ci_frame st st'"
  "lcp_reqci_cb st p n rej = (code, p', n', st') \<Longrightarrow> ci_frame st st'"
  using lcp_resetci_frame[of st] lcp_nakci_frame[of st p n good st']
    lcp_reqci_frame[of st p n rej code p' n' st']
  by (auto simp: lcp_addci_cb_def lcp_ackci_cb_def ci_frame_def)

text \<open>The entries the three tables share.\<close>

lemma lcp_tables [simp]:
  "cb_resetci lcp_base_callbacks = Some lcp_resetci" "cb_resetci lcp_core_callbacks = Some lcp_resetci"
  "cb_resetci lcp_callbacks = Some lcp_resetci"
  "cb_cilen lcp_base_callbacks = Some lcp_cilen_cb" "cb_cilen lcp_core_callbacks = Some lcp_cilen_cb"
  "cb_cilen lcp_callbacks = Some lcp_cilen_cb"
  "cb_addci lcp_base_callbacks = Some lcp_addci_cb" "cb_addci lcp_core_callbacks = Some lcp_addci_cb"
  "cb_addci lcp_callbacks = Some lcp_addci_cb"
  "cb_ackci lcp_base_callbacks = Some lcp_ackci_cb" "cb_ackci lcp_core_callbacks = Some lcp_ackci_cb"
  "cb_ackci lcp_callbacks = Some lcp_ackci_cb"
  "cb_nakci lcp_base_callbacks = Some lcp_nakci_cb" "cb_nakci lcp_core_callbacks = Some lcp_nakci_cb"
  "cb_nakci lcp_callbacks = Some lcp_nakci_cb"
  "cb_rejci lcp_base_callbacks = Some lcp_rejci_cb" "cb_rejci lcp_core_callbacks = Some lcp_rejci_cb"
  "cb_rejci lcp_callbacks = Some lcp_rejci_cb"
  "cb_reqci lcp_base_callbacks = Some lcp_reqci_cb" "cb_reqci lcp_core_callbacks = Some lcp_reqci_cb"
  "cb_reqci lcp_callbacks = Some lcp_reqci_cb"
  "cb_down lcp_base_callbacks = Some lcp_down" "cb_down lcp_core_callbacks = Some lcp_down"
  "cb_down lcp_callbacks = Some lcp_down"
  "cb_starting lcp_base_callbacks = Some lcp_starting" "cb_starting lcp_core_callbacks = Some lcp_starting"
  "cb_starting lcp_callbacks = Some lcp_starting"
  "cb_retransmit lcp_base_callbacks = None" "cb_retransmit lcp_core_callbacks = None"
  "cb_retransmit lcp_callbacks = None"
  "cb_up lcp_base_callbacks = None" "cb_finished lcp_base_callbacks = None" "cb_extcode lcp_base_callbacks = None"
  "cb_up lcp_core_callbacks = Some lcp_up" "cb_finished lcp_core_callbacks = Some lcp_finished"
  "cb_extcode lcp_core_callbacks = None"
  "cb_up lcp_callbacks = Some lcp_up" "cb_finished lcp_callbacks = Some lcp_finished"
  "cb_extcode lcp_callbacks = Some lcp_extcode"
  by (simp_all add: lcp_cb_simps)

lemma lcp_starting_id [simp]: "lcp_starting st = st"
  by (simp add: lcp_starting_def link_required_def)

interpretation lcp_base: fsm_protocol lcp_base_callbacks
  by unfold_locales (auto dest: lcp_ci_laws(2-5) lcp_rejci_laws intro: lcp_ci_laws(1))

text \<open>The staged tables agree where the automaton is re-entered.\<close>

lemma sconfreq_table: "fsm_sconfreq lcp_core_callbacks = fsm_sconfreq lcp_base_callbacks"
  "fsm_sconfreq lcp_callbacks = fsm_sconfreq lcp_base_callbacks"
  by (simp_all add: fun_eq_iff fsm_sconfreq_def)

lemma lcp_lowerdown_table: "lcp_lowerdown st = fsm_lowerdown lcp_callbacks st"
  unfolding lcp_lowerdown_def fsm_lowerdown_def lcp_tables by (rule refl)

lemma fsm_open_table: "fsm_open lcp_base_callbacks st = fsm_open lcp_callbacks st"
proof -
  have up: "fsm_lowerup lcp_callbacks = fsm_lowerup lcp_base_callbacks"
    by (rule ext) (simp only: fsm_lowerup_def sconfreq_table)
  have down: "fsm_lowerdown lcp_callbacks = fsm_lowerdown lcp_base_callbacks"
    by (rule ext) (simp only: fsm_lowerdown_def lcp_tables)
  show ?thesis by (simp only: fsm_open_def sconfreq_table up down lcp_tables)
qed

lemma lcp_finished_table: "lcp_finished st =
    (if st_of st \<in> {STOPPED, CLOSED} \<and> f_flags (fst st) AND OPT_RESTART \<noteq> 0
     then fsm_open lcp_callbacks st else link_terminated st)"
  by (simp add: lcp_finished_def fsm_open_table)

lemma lcp_close_table: "lcp_close st =
    (if st_of st = STOPPED \<and> f_flags (fst st) AND (OPT_PASSIVE OR OPT_SILENT) \<noteq> 0
     then lcp_finished (set_state CLOSED st) else fsm_close lcp_callbacks st)"
  by (simp only: lcp_close_def fsm_close_def lcp_tables)

lemma lcp_protrej_table: "lcp_protrej st = fsm_protreject lcp_callbacks st"
  by (simp only: lcp_protrej_def fsm_protreject_def lcp_tables)

section \<open>Invariants of the link\<close>

text \<open>Whether IPCP was told last that LCP is up.\<close>

primrec last_up :: "bool \<Rightarrow> ppp_call list \<Rightarrow> bool" where
  "last_up b [] = b"
| "last_up b (c # cs) = last_up (if c = Ipcp_lowerup then True else if c = Ipcp_lowerdown then False else b) cs"

definition net_up :: "lcp_unit \<Rightarrow> bool" where
  "net_up w = last_up False (calls w)"

lemma last_up_append [simp]: "last_up b (xs @ ys) = last_up (last_up b xs) ys"
  by (induction xs arbitrary: b) simp_all

text \<open>The pending timers of the automaton are not those of the echo requests.\<close>

definition same_link :: "lcp_unit \<Rightarrow> lcp_unit \<Rightarrow> bool" where
  "same_link w w' \<longleftrightarrow> net_up w' = net_up w
     \<and> (\<forall>p. pending_count (Fsm_timeout p) (callout_list w') = pending_count (Fsm_timeout p) (callout_list w))"

lemma same_link_refl [simp]: "same_link w w"
  by (simp add: same_link_def)

lemma same_linkI:
  "calls w' = calls w \<Longrightarrow> callout_list w' = callout_list w \<Longrightarrow> same_link w w'"
  by (simp add: same_link_def net_up_def)

lemma same_link_sdata [simp]: "same_link (snd st) (snd (fsm_sdata c i d n st))" for st :: lcp_st
  by (simp add: fsm_sdata_def Let_def same_linkI)

lemma same_link_echo [simp]:
  "same_link w (w\<lparr>callout_list := timeout_link ECHO_KEY t (callout_list w), lcp_echo_timer_running := r\<rparr>)"
  "same_link w (w\<lparr>callout_list := untimeout_unlink ECHO_KEY (callout_list w), lcp_echo_timer_running := r\<rparr>)"
  by (simp_all add: same_link_def net_up_def ECHO_KEY_def co.set_other_key co.cancel_other_key)

text \<open>
  A property of the unit that every routine of LCP keeps if the automaton's own entry points
  keep it and it does not look at the rest of the unit.
\<close>

locale link_invariant =
  fixes I :: "lcp_st \<Rightarrow> bool"
  assumes unit_law: "I st \<Longrightarrow> same_link (snd st) w' \<Longrightarrow> I (fst st, w')"
    and open_law: "I st \<Longrightarrow> I (fsm_open lcp_base_callbacks st)"
    and close_law: "I st \<Longrightarrow> I (fsm_close lcp_base_callbacks st)"
    and lowerdown_law: "I st \<Longrightarrow> I (fsm_lowerdown lcp_base_callbacks st)"
    and closed_law: "I st \<Longrightarrow> st_of st = STOPPED \<Longrightarrow> I (set_state CLOSED st)"
begin

lemma keep: "I st \<Longrightarrow> fst st' = fst st \<Longrightarrow> same_link (snd st) (snd st') \<Longrightarrow> I st'"
  using unit_law[of st "snd st'"] by (metis prod.collapse)

lemma keep_unit: "I st \<Longrightarrow> (\<And>w. calls (g w) = calls w \<and> callout_list (g w) = callout_list w) \<Longrightarrow> I (on_unit g st)"
  by (erule keep) (auto intro: same_linkI)

lemma keep_calls: "I st \<Longrightarrow> Ipcp_lowerup \<notin> set cs \<Longrightarrow> Ipcp_lowerdown \<notin> set cs \<Longrightarrow> I (log_calls cs st)"
proof (erule keep)
  assume cs: "Ipcp_lowerup \<notin> set cs" "Ipcp_lowerdown \<notin> set cs"
  have "last_up b cs = b" for b using cs by (induction cs arbitrary: b) auto
  then show "same_link (snd st) (snd (log_calls cs st))" by (simp add: same_link_def net_up_def)
qed simp

lemma keep_finished: "I st \<Longrightarrow> I (lcp_finished st)"
  by (simp add: lcp_finished_def link_terminated_def open_law keep_unit)

lemma keep_close: "I st \<Longrightarrow> I (lcp_close st)"
  by (simp add: lcp_close_def keep_finished closed_law close_law)

lemma keep_die: "I st \<Longrightarrow> I (die st)"
  by (simp add: die_def Let_def keep_unit keep_close)

lemma keep_LcpLinkFailure: "I st \<Longrightarrow> I (LcpLinkFailure st)"
  by (simp add: LcpLinkFailure_def lcp_lowerdown_def keep_unit lowerdown_law)

lemma keep_sdata: "I st \<Longrightarrow> I (fsm_sdata c i d n st)"
  by (erule keep) simp_all

lemma keep_LcpSendEchoRequest: "I st \<Longrightarrow> I (LcpSendEchoRequest st)"
  by (simp add: LcpSendEchoRequest_def Let_def keep_die keep_unit keep_LcpLinkFailure keep_sdata)

lemma keep_echo_timer:
  "I st \<Longrightarrow> I (on_unit (\<lambda>w. w\<lparr>callout_list := timeout_link ECHO_KEY (t w) (callout_list w), lcp_echo_timer_running := r\<rparr>) st)"
  by (erule keep) simp_all

lemma keep_LcpEchoCheck: "I st \<Longrightarrow> I (LcpEchoCheck st)"
  by (simp add: LcpEchoCheck_def Let_def keep_echo_timer keep_LcpSendEchoRequest)

lemma keep_LcpEchoTimeout: "I st \<Longrightarrow> I (LcpEchoTimeout st)"
  by (simp add: LcpEchoTimeout_def keep_LcpEchoCheck keep_unit)

lemma keep_lcp_echo_lowerup: "I st \<Longrightarrow> I (lcp_echo_lowerup st)"
  by (simp add: lcp_echo_lowerup_def Let_def keep_LcpEchoCheck keep_unit)

lemma keep_enter_network: "I st \<Longrightarrow> I (enter_network st)"
  by (simp add: enter_network_def keep_calls keep_unit)

lemma keep_start_authentication: "I st \<Longrightarrow> I (start_authentication st)"
  by (simp add: start_authentication_def Let_def keep_enter_network keep_calls keep_unit)

lemma keep_link_established: "I st \<Longrightarrow> I (link_established st)"
  by (simp add: link_established_def Let_def keep_start_authentication keep_die)

text \<open>\<open>lcp_up\<close> keeps the property from the moment the layers above are told.\<close>

lemma keep_lcp_up:
  assumes told: "\<And>w. net_up w \<Longrightarrow>
      (\<forall>p. pending_count (Fsm_timeout p) (callout_list w) = pending_count (Fsm_timeout p) (callout_list (snd st)))
      \<Longrightarrow> I (fst st, w)"
  shows "I (lcp_up st)"
proof -
  have "I (log_calls [Chap_lowerup, Upap_lowerup, Ipcp_lowerup] st2)"
    if "fst st2 = fst st" "callout_list (snd st2) = callout_list (snd st)" for st2
    using told[of "snd (log_calls [Chap_lowerup, Upap_lowerup, Ipcp_lowerup] st2)"] that
    by (cases st2) (simp add: net_up_def log_calls_def on_unit_def)
  then show ?thesis
    by (simp add: lcp_up_def Let_def keep_link_established keep_lcp_echo_lowerup)
qed

lemma keep_lcp_received_echo_reply: "I st \<Longrightarrow> I (lcp_received_echo_reply inp st)"
  by (simp add: lcp_received_echo_reply_def Let_def keep_unit)

end

lemma fsm_pending_same_link: "same_link (snd st) w' \<Longrightarrow> fsm_pending (fst st, w') = fsm_pending st"
  by (simp add: fsm_pending_def timer_key_def same_link_def)

interpretation armed_link: link_invariant armed
proof
  show "armed (fst st, w')" if "armed st" "same_link (snd st) w'" for st w'
    using that armed_cong[of "(fst st, w')" st] by (simp add: fsm_pending_same_link)
  show "armed (set_state CLOSED st)" for st :: lcp_st by (simp add: inv_intro)
qed (rule lcp_base.armed_open lcp_base.armed_close lcp_base.armed_lowerdown; assumption)+

interpretation not_opened_link: link_invariant "\<lambda>st. st_of st \<noteq> OPENED"
  by unfold_locales
    (use lcp_base.open_not_opening lcp_base.close_not_opening lcp_base.lowerdown_not_opening in auto)

lemma net_up_lcp_down: "\<not> net_up (snd (lcp_down st))"
  by (simp add: lcp_down_def link_down_def net_up_def lcp_echo_lowerdown_def)

lemma net_up_updates [simp]:
  "net_up (w\<lparr>callout_list := x1\<rparr>) = net_up w" "net_up (w\<lparr>outpacket_buf := x2\<rparr>) = net_up w"
  "net_up (w\<lparr>wire_out := x3\<rparr>) = net_up w"
  by (simp_all add: net_up_def)

lemma net_up_ci:
  "net_up (snd (lcp_resetci st)) = net_up (snd st)"
  "net_up (snd (snd (snd (lcp_addci_cb st n)))) = net_up (snd st)"
  "net_up (snd (snd (lcp_ackci_cb st p n))) = net_up (snd st)"
  "lcp_nakci_cb st p n = Some r \<Longrightarrow> net_up (snd (snd r)) = net_up (snd st)"
  "net_up (snd (snd (snd (snd (lcp_reqci_cb st p n rej))))) = net_up (snd st)"
proof -
  show "net_up (snd (snd r)) = net_up (snd st)" if "lcp_nakci_cb st p n = Some r"
    using lcp_nakci_frame[of st p n "fst r" "snd r"] that by (simp add: net_up_def)
  obtain rc buf m st' where r: "lcp_reqci_cb st p n rej = (rc, buf, m, st')" by (metis prod_cases4)
  then show "net_up (snd (snd (snd (snd (lcp_reqci_cb st p n rej))))) = net_up (snd st)"
    using lcp_reqci_frame[OF r] by (simp add: net_up_def)
qed (simp_all add: net_up_def lcp_resetci_frame lcp_addci_cb_def lcp_ackci_cb_def)

lemma in_step_rejci: "lcp_rejci_cb st p n = (good, st') \<Longrightarrow> in_step net_up st \<Longrightarrow> in_step net_up st'"
  using lcp_rejci_frame[of st p n] by (simp add: in_step_def net_up_def ci_frame_def)

interpretation lcp_base_layer: fsm_layer_below lcp_base_callbacks net_up
  by unfold_locales (auto simp: net_up_lcp_down net_up_ci dest: in_step_rejci)

interpretation in_step_link: link_invariant "in_step net_up"
proof
  show "in_step net_up (fst st, w')" if "in_step net_up st" "same_link (snd st) w'" for st w'
    using that by (simp add: in_step_def same_link_def)
  show "in_step net_up (set_state CLOSED st)" if "in_step net_up st" "st_of st = STOPPED" for st
    using that by (simp add: in_step_def)
qed (rule lcp_base_layer.in_step_open lcp_base_layer.in_step_close lcp_base_layer.in_step_lowerdown; assumption)+

section \<open>The whole table\<close>

lemma armed_lcp_up: "armed st \<Longrightarrow> armed (lcp_up st)"
proof (rule armed_link.keep_lcp_up)
  fix w assume "armed st"
    and "\<forall>p. pending_count (Fsm_timeout p) (callout_list w) = pending_count (Fsm_timeout p) (callout_list (snd st))"
  then show "armed (fst st, w)" by (simp add: armed_def fsm_pending_def timer_key_def)
qed

lemma lcp_up_not_opening: "st_of (lcp_up st) = OPENED \<Longrightarrow> st_of st = OPENED"
  using not_opened_link.keep_lcp_up[of st] by auto

lemma in_step_lcp_up: "st_of st = OPENED \<Longrightarrow> in_step net_up (lcp_up st)"
  by (rule in_step_link.keep_lcp_up) (simp add: in_step_def)

lemma lcp_finished_not_opening: "st_of (lcp_finished st) = OPENED \<Longrightarrow> st_of st = OPENED"
  using not_opened_link.keep_finished[of st] by auto

interpretation lcp_core: fsm_protocol lcp_core_callbacks
  by unfold_locales
    (auto dest: lcp_ci_laws(2-5) lcp_rejci_laws lcp_up_not_opening lcp_finished_not_opening
      intro: lcp_ci_laws(1) armed_lcp_up armed_link.keep_finished)

interpretation lcp_core_layer: fsm_layered lcp_core_callbacks net_up
  by unfold_locales (auto simp: net_up_lcp_down net_up_ci in_step_link.keep_finished in_step_lcp_up dest: in_step_rejci)

context link_invariant
begin

lemma keep_extcode:
  assumes protrej: "\<And>st. I st \<Longrightarrow> I (lcp_protrej st)"
    and run: "lcp_extcode st code i inp len = (h, inp', st')" and st: "I st"
  shows "I st'"
proof -
  have "I (demuxprotrej prot st)" for prot
    using st by (simp add: demuxprotrej_def protrej keep_calls)
  then have "I (lcp_rprotrej inp len st)" using st by (simp add: lcp_rprotrej_def)
  then show ?thesis using run st
    by (auto simp: lcp_extcode_def Let_def keep_sdata keep_lcp_received_echo_reply split: if_splits)
qed

end

lemma armed_lcp_protrej: "armed st \<Longrightarrow> armed (lcp_protrej st)"
  by (simp add: lcp_protrej_def lcp_core.armed_protreject)

lemma in_step_lcp_protrej: "in_step net_up st \<Longrightarrow> in_step net_up (lcp_protrej st)"
  by (simp add: lcp_protrej_def lcp_core_layer.in_step_protreject)

lemma lcp_protrej_not_opened: "st_of (lcp_protrej st) \<noteq> OPENED"
  by (simp add: lcp_protrej_def lcp_core.protreject_not_opening)

lemma lcp_extcode_not_opening:
  "lcp_extcode st code i inp n = (h, inp', st') \<Longrightarrow> st_of st' = OPENED \<Longrightarrow> st_of st = OPENED"
  using not_opened_link.keep_extcode[of st code i inp n h inp' st'] lcp_protrej_not_opened by blast

lemma armed_lcp_extcode: "lcp_extcode st code i inp n = (h, inp', st') \<Longrightarrow> armed st \<Longrightarrow> armed st'"
  using armed_link.keep_extcode[of st code i inp n h inp' st'] armed_lcp_protrej by blast

lemma in_step_lcp_extcode:
  "lcp_extcode st code i inp n = (h, inp', st') \<Longrightarrow> in_step net_up st \<Longrightarrow> in_step net_up st'"
  using in_step_link.keep_extcode[of st code i inp n h inp' st'] in_step_lcp_protrej by blast

interpretation lcp: fsm_protocol lcp_callbacks
  by unfold_locales
    (auto dest: lcp_ci_laws(2-5) lcp_rejci_laws lcp_up_not_opening lcp_finished_not_opening lcp_extcode_not_opening armed_lcp_extcode
      intro: lcp_ci_laws(1) armed_lcp_up armed_link.keep_finished)

interpretation lcp_layer: fsm_layered lcp_callbacks net_up
  by unfold_locales
    (auto simp: net_up_lcp_down net_up_ci in_step_link.keep_finished in_step_lcp_up dest: in_step_lcp_extcode in_step_rejci)

section \<open>Events\<close>

lemma armed_lcp_lowerup: "armed st \<Longrightarrow> armed (lcp_lowerup st)"
  by (simp add: lcp_lowerup_def lcp.armed_lowerup armed_on_unit)

lemma armed_lcp_open: "armed st \<Longrightarrow> armed (lcp_open st)"
  by (simp add: lcp_open_def Let_def lcp.armed_open)

lemma armed_lcp_lowerdown: "armed st \<Longrightarrow> armed (lcp_lowerdown st)"
  by (simp add: lcp_lowerdown_def lcp_base.armed_lowerdown)

lemma armed_lcp_sprotrej: "armed st \<Longrightarrow> armed (lcp_sprotrej p len st)"
  by (simp add: lcp_sprotrej_def Let_def)

lemma armed_io_packet: "armed st \<Longrightarrow> io_packet p len st = Some st' \<Longrightarrow> armed st'"
  by (auto simp: io_packet_def Let_def lcp_input_def armed_lcp_sprotrej armed_on_unit
      dest: lcp.armed_input split: if_splits)

context link_invariant
begin

lemma keep_auth_done: "I st \<Longrightarrow> I (auth_done b st)"
  by (simp add: auth_done_def Let_def keep_enter_network keep_unit)

lemma keep_auth_events: "I st \<Longrightarrow> I (auth_peer_success prot st)" "I st \<Longrightarrow> I (auth_withpeer_success prot st)"
  "I st \<Longrightarrow> I (auth_peer_fail st)"
  by (simp_all add: auth_peer_success_def auth_withpeer_success_def auth_peer_fail_def keep_auth_done keep_die)

lemma keep_demuxprotrej: "I st \<Longrightarrow> I (lcp_protrej st) \<Longrightarrow> I (demuxprotrej prot st)"
  by (simp add: demuxprotrej_def keep_calls)

end

text \<open>The routines of the echo timer do not change the protocol number.\<close>

lemma sconfreq_protocol: "f_protocol (fst (fsm_sconfreq lcp_base_callbacks r st)) = f_protocol (fst st)"
proof -
  have "fst (lcp_resetci s) = fst s" for s using lcp_ci_laws(1)[of s] by (simp add: ci_frame_def)
  then show ?thesis by (auto simp: fsm_sconfreq_def Let_def on_fsm_def lcp_addci_cb_def split: option.splits)
qed

lemma send_protocol [simp]:
  "f_protocol (fst (send_termreq st)) = f_protocol (fst st)"
  "f_protocol (fst (start_termination s st)) = f_protocol (fst st)"
  by (simp_all add: send_termreq_def start_termination_def on_fsm_def Let_def)

lemma protocol_lowerup: "f_protocol (fst (fsm_lowerup lcp_base_callbacks st)) = f_protocol (fst st)"
  by (simp add: fsm_lowerup_def sconfreq_protocol split: fsm_state.split)

lemma protocol_lowerdown: "f_protocol (fst (fsm_lowerdown lcp_base_callbacks st)) = f_protocol (fst st)"
  by (simp add: fsm_lowerdown_def split: fsm_state.split)

interpretation protocol_link: link_invariant "\<lambda>st. f_protocol (fst st) = p"
proof
  show "f_protocol (fst (fsm_open lcp_base_callbacks st)) = p" if "f_protocol (fst st) = p" for st
    using that by (simp add: fsm_open_def Let_def sconfreq_protocol protocol_lowerup protocol_lowerdown
        split: fsm_state.split)
  show "f_protocol (fst (fsm_close lcp_base_callbacks st)) = p" if "f_protocol (fst st) = p" for st
    using that by (simp add: fsm_close_def split: fsm_state.split)
qed (simp_all add: protocol_lowerdown)

lemma armed_run_timer: "armed st \<Longrightarrow> armed (run_timer k st)"
  by (simp add: run_timer_def lcp.armed_timeout armed_link.keep_LcpEchoTimeout)

lemma armed_fold_run_timer: "armed st \<Longrightarrow> armed (fold run_timer ks st)"
  by (induction ks arbitrary: st) (simp_all add: armed_run_timer)

lemma run_timer_exited: "exited (snd st) \<Longrightarrow> fold run_timer ks st = st"
  by (induction ks) (simp_all add: run_timer_def)

lemma fold_run_timer_rearms:
  "timer_key (fst st) \<in> set ks \<Longrightarrow> armed (fold run_timer ks st) \<or> exited (snd (fold run_timer ks st))"
proof (induction ks arbitrary: st)
  case (Cons k ks)
  show ?case
  proof (cases "exited (snd st) \<or> k = timer_key (fst st)")
    case True
    show ?thesis
    proof (cases "exited (snd st)")
      case True
      then show ?thesis using run_timer_exited[of st "k # ks"] by simp
    next
      case False
      with True have "run_timer k st = fsm_timeout lcp_callbacks st" by (simp add: run_timer_def)
      then show ?thesis using armed_fold_run_timer[OF lcp.armed_timeout, of ks st] by simp
    qed
  next
    case False
    then have "timer_key (fst (run_timer k st)) = timer_key (fst st)"
      using protocol_link.keep_LcpEchoTimeout by (simp add: run_timer_def timer_key_def)
    then show ?thesis using Cons.IH[of "run_timer k st"] Cons.prems False by auto
  qed
qed simp

lemma armed_lcp_alrm: "armed st \<Longrightarrow> armed (lcp_alrm st) \<or> exited (snd (lcp_alrm st))"
proof (cases "callout_list (snd st)")
  case (Cons c cs)
  assume a: "armed st"
  let ?z = "takeWhile (\<lambda>d. c_time d = 0) cs" and ?r = "dropWhile (\<lambda>d. c_time d = 0) cs"
  let ?st = "on_unit (\<lambda>w. w\<lparr>callout_list := ?r\<rparr>) st"
  have run: "lcp_alrm st = fold run_timer (map c_key (c # ?z)) ?st" by (simp add: lcp_alrm_def Cons)
  show ?thesis
  proof (cases "timer_key (fst st) \<in> set (map c_key (c # ?z))")
    case True
    then show ?thesis unfolding run by (intro fold_run_timer_rearms) simp
  next
    case False
    have "count_list (map c_key (c # ?z)) (timer_key (fst st)) = 0" using False by (auto simp: count_list_0_iff)
    moreover have "callout_list (snd st) = (c # ?z) @ ?r" by (simp add: Cons)
    ultimately have "fsm_pending ?st = fsm_pending st"
      by (simp only: fsm_pending_def pending_count_def fst_on_unit map_append count_list_append) simp
    then have "armed ?st" using a armed_cong[of ?st st] by simp
    then show ?thesis unfolding run using armed_fold_run_timer by blast
  qed
qed (simp add: lcp_alrm_def)

lemma armed_lcp_handle:
  assumes "armed st" and "lcp_handle ev st = Some st'"
  shows "armed st' \<or> exited (snd st')"
  using assms armed_lcp_alrm[OF assms(1)] armed_io_packet[OF assms(1)]
  by (cases ev) (auto simp: lcp_handle_def armed_lcp_lowerup armed_lcp_open armed_lcp_lowerdown
      armed_link.keep_close armed_link.keep_die armed_link.keep_auth_events
      intro!: armed_link.keep_demuxprotrej armed_lcp_protrej)

lemma lcp_init_state [simp]: "st_of (lcp_init u st) = INITIAL" "calls (snd (lcp_init u st)) = calls (snd st)"
  by (simp_all add: lcp_init_def fsm_init_def random_def Let_def)

text \<open>A unit for the concrete instances below.\<close>

definition demo_fsm :: fsm where
  "demo_fsm = \<lparr>f_unit = 0, f_protocol = LCP, f_state = OPENED, f_flags = 0, f_id = 1, f_reqid = 1,
     f_timeouttime = 3, f_maxconfreqtransmits = 10, f_retransmits = 0, f_maxtermtransmits = 2,
     f_nakloops = 0, f_maxnakloops = 10\<rparr>"

definition demo_unit :: lcp_unit where
  "demo_unit = \<lparr>peer_mru = 1500, outpacket_buf = replicate 1504 0, wire_out = [], callout_list = [],
     lcp_wantoptions = zero_lcp_options, magic_next = 0, rand_src = (\<lambda>_. 0), rand_pos = 0, signed_bitfields = True,
     lcp_gotoptions = zero_lcp_options, lcp_allowoptions = zero_lcp_options, lcp_hisoptions = zero_lcp_options,
     xmit_accm = replicate 8 0, lcp_echos_pending = 0, lcp_echo_number = 0, lcp_echo_timer_running = 0,
     lcp_echo_interval = 0, lcp_echo_fails = 0, ppp_phase = PHASE_ESTABLISH, auth_required = False,
     auth_pending = 0, unknownProto = 0, null_login_ok = False, calls = [], exited = False\<rparr>"

text \<open>
  C1: in every state LCP can get into, as long as the task has not exited, an automaton
  that waits for the peer (in \<open>REQSENT\<close>, \<open>ACKRCVD\<close>, \<open>ACKSENT\<close>, \<open>CLOSING\<close> or \<open>STOPPING\<close>) has its
  restart timer pending, so it cannot be left waiting for ever.
\<close>

theorem lcp_reach_armed:
  assumes "lcp_reach st" and "\<not> exited (snd st)"
  shows "armed st"
  using assms
proof (induction rule: lcp_reach.induct)
  case (init st unit)
  then show ?case by (simp add: armed_def)
next
  case (configure st wo ao required interval fails)
  then show ?case by (simp add: armed_def)
next
  case (step st ev st')
  then show ?case using armed_lcp_handle by blast
qed

text \<open>The start of a unit: initialised, the line up, LCP opened.\<close>

definition demo_started :: lcp_st where
  "demo_started = lcp_open (lcp_lowerup (lcp_init 0 (demo_fsm, demo_unit)))"

lemma demo_reach: "lcp_reach demo_started"
proof -
  let ?i = "lcp_init 0 (demo_fsm, demo_unit)"
  have i: "lcp_reach ?i" by (rule lcp_reach.init) (simp_all add: demo_unit_def)
  have "\<not> exited (snd ?i)" "\<not> exited (snd (lcp_lowerup ?i))" by code_simp+
  then have "lcp_reach (lcp_lowerup ?i)"
    using lcp_reach.step[OF i, of Lowerup] by (simp add: lcp_handle_def)
  then show ?thesis
    using lcp_reach.step[of "lcp_lowerup ?i" Open] \<open>\<not> exited (snd (lcp_lowerup ?i))\<close>
    by (simp add: lcp_handle_def demo_started_def)
qed

theorem lcp_reach_armed_witness: "st_of demo_started = REQSENT \<and> armed demo_started"
proof -
  have "\<not> exited (snd demo_started)" "st_of demo_started = REQSENT" by code_simp+
  then show ?thesis using lcp_reach_armed[OF demo_reach] by simp
qed

text \<open>The frames that break the pairing of \<open>up\<close> and \<open>down\<close>.\<close>

definition stray_termack :: "lcp_event \<Rightarrow> lcp_st \<Rightarrow> bool" where
  "stray_termack ev st \<longleftrightarrow> st_of st = OPENED \<and> (\<exists>p len. ev = Frame p len \<and> drop 4 p ! 0 = TERMACK)"

lemma in_step_on_unit: "(\<And>w. calls (g w) = calls w) \<Longrightarrow> in_step net_up (on_unit g st) = in_step net_up st"
  by (simp add: in_step_def net_up_def)

lemma in_step_lcp_lowerup: "in_step net_up st \<Longrightarrow> in_step net_up (lcp_lowerup st)"
  unfolding lcp_lowerup_def
  by (intro lcp_layer.in_step_lowerup in_step_on_unit[THEN iffD2] in_step_link.keep_calls) simp_all

lemma in_step_lcp_open: "in_step net_up st \<Longrightarrow> in_step net_up (lcp_open st)"
  unfolding lcp_open_def Let_def by (rule lcp_layer.in_step_open) (simp add: in_step_def)

lemma in_step_io_packet:
  assumes "in_step net_up st" and "io_packet p len st = Some st'" and "\<not> stray_termack (Frame p len) st"
  shows "in_step net_up st'"
proof -
  have "in_step net_up (lcp_sprotrej p len (on_unit g st))" if "\<And>w. calls (g w) = calls w" for g
    using assms(1) that unfolding lcp_sprotrej_def Let_def
    by (intro in_step_link.keep_sdata) (simp add: in_step_def net_up_def)
  moreover have "in_step net_up st'" if "lcp_input (drop 4 p) n st = Some st'" for n
    using lcp_layer.in_step_input[OF assms(1) that[unfolded lcp_input_def]] assms(3) by (simp add: stray_termack_def)
  ultimately show ?thesis using assms(1,2)
    by (auto simp: io_packet_def Let_def in_step_link.keep_calls split: if_splits)
qed

lemma in_step_lcp_alrm: "in_step net_up st \<Longrightarrow> in_step net_up (lcp_alrm st)"
proof -
  have run: "in_step net_up (run_timer k s)" if "in_step net_up s" for k s
    using that by (simp add: run_timer_def lcp_layer.in_step_timeout in_step_link.keep_LcpEchoTimeout)
  have "in_step net_up (fold run_timer ks s)" if "in_step net_up s" for ks s
    using that by (induction ks arbitrary: s) (simp_all add: run)
  then show "in_step net_up st \<Longrightarrow> in_step net_up (lcp_alrm st)"
    by (simp add: lcp_alrm_def run in_step_on_unit split: list.split)
qed

lemma in_step_events:
  assumes "in_step net_up st" and "lcp_handle ev st = Some st'" and "\<not> stray_termack ev st"
  shows "in_step net_up st'"
  using assms in_step_io_packet[OF assms(1)]
  by (cases ev) (auto simp: lcp_handle_def in_step_lcp_lowerup in_step_lcp_open lcp_lowerdown_def
      lcp_base_layer.in_step_lowerdown in_step_link.keep_close in_step_link.keep_die in_step_lcp_alrm
      in_step_link.keep_auth_events intro!: in_step_link.keep_demuxprotrej in_step_lcp_protrej)

text \<open>
  C3: LCP is in \<open>OPENED\<close> exactly while the network protocol has been told that the link is
  up: every event keeps the two in step, except a Terminate-Ack received in \<open>OPENED\<close>.
\<close>

theorem lcp_handle_in_step:
  assumes "in_step net_up st" and "lcp_handle ev st = Some st'" and "\<not> stray_termack ev st"
  shows "in_step net_up st'"
  using in_step_events[OF assms] .

theorem lcp_handle_in_step_witness: "in_step net_up (lcp_close (demo_fsm\<lparr>f_state := REQSENT\<rparr>, demo_unit))"
proof -
  let ?st = "(demo_fsm\<lparr>f_state := REQSENT\<rparr>, demo_unit)"
  have "in_step net_up ?st" by (simp add: in_step_def net_up_def demo_unit_def demo_fsm_def)
  then show ?thesis
    using lcp_handle_in_step[of ?st Close "lcp_close ?st"] by (simp add: lcp_handle_def stray_termack_def)
qed

text \<open>
  A Terminate-Ack received in \<open>OPENED\<close> takes the layers above down and sends a
  Configure-Request, but leaves the automaton in \<open>OPENED\<close>: the link then looks open while
  IPCP is down, and the next request from the peer calls \<open>lcp_down\<close> a second time.
\<close>

theorem lcp_rtermack_stays_opened:
  assumes "st_of st = OPENED"
  shows "st_of (fsm_rtermack lcp_callbacks st) = OPENED \<and> \<not> net_up (snd (fsm_rtermack lcp_callbacks st))"
  using lcp_layer.rtermack_out_of_step[OF assms] .

theorem lcp_rtermack_stays_opened_witness:
  "st_of (fsm_rtermack lcp_callbacks (demo_fsm, demo_unit)) = OPENED"
  using lcp_rtermack_stays_opened[of "(demo_fsm, demo_unit)"] by (simp add: demo_fsm_def)

text \<open>
  The two frames that complete the negotiation; \<open>q\<close> is the LCP packet in the frame and \<open>n\<close>
  the number of option bytes its length field announces.
\<close>

definition opening_frame :: "lcp_st \<Rightarrow> u8 list \<Rightarrow> bool" where
  "opening_frame st p \<longleftrightarrow>
     (let q = drop 4 p; n = unat (GETSHORT (q ! 2) (q ! 3)) - HEADERLEN
      in (st_of st = ACKRCVD \<and> q ! 0 = CONFREQ
            \<and> fst (lcp_reqci_cb st (drop 4 q) n (f_nakloops (fst st) \<ge> f_maxnakloops (fst st))) = CONFACK)
       \<or> (st_of st = ACKSENT \<and> q ! 0 = CONFACK \<and> q ! 1 = f_reqid (fst st)
            \<and> lcp_ackci (lcp_gotoptions (snd st)) (drop 4 q) n))"

lemma lcp_alrm_not_opening: "st_of st \<noteq> OPENED \<Longrightarrow> st_of (lcp_alrm st) \<noteq> OPENED"
proof -
  have run: "st_of (run_timer k s) \<noteq> OPENED" if "st_of s \<noteq> OPENED" for k s
    using that lcp.timeout_not_opening[of s] not_opened_link.keep_LcpEchoTimeout[of s] by (auto simp: run_timer_def)
  have "st_of (fold run_timer ks s) \<noteq> OPENED" if "st_of s \<noteq> OPENED" for ks s
    using that by (induction ks arbitrary: s) (simp_all add: run)
  then show "st_of st \<noteq> OPENED \<Longrightarrow> st_of (lcp_alrm st) \<noteq> OPENED"
    by (simp add: lcp_alrm_def run split: list.split)
qed

lemma lcp_input_opening:
  assumes "fsm_input lcp_callbacks q l st = Some st'" and "st_of st' = OPENED" and "st_of st \<noteq> OPENED"
    and "n = unat (GETSHORT (q ! 2) (q ! 3)) - HEADERLEN"
  shows "(st_of st = ACKRCVD \<and> q ! 0 = CONFREQ
      \<and> fst (lcp_reqci_cb st (drop 4 q) n (f_nakloops (fst st) \<ge> f_maxnakloops (fst st))) = CONFACK)
    \<or> (st_of st = ACKSENT \<and> q ! 0 = CONFACK \<and> q ! 1 = f_reqid (fst st)
      \<and> lcp_ackci (lcp_gotoptions (snd st)) (drop 4 q) n)"
  using assms(1,4)
proof (cases rule: fsm_input_elim)
  case 2
  then show ?thesis using lcp.rconfreq_opening[of "q ! 1" "drop 4 q" n st] assms(2,3) by simp
next
  case 3
  then show ?thesis
    using lcp.rconfack_opening[of "q ! 1" "drop 4 q" n st] assms(2,3) by (simp add: lcp_ackci_cb_def)
next
  case 4
  then show ?thesis using lcp.rconfnakrej_not_opening assms(2,3) by blast
next
  case 5
  then show ?thesis using lcp.rtermreq_not_opening assms(2,3) by blast
next
  case 6
  then show ?thesis using lcp.rtermack_not_opening assms(2,3) by blast
next
  case 8
  then show ?thesis using lcp.rextcode_not_opening assms(2,3) by blast
qed (use assms(2,3) in \<open>auto simp: fsm_rcoderej_def split: if_splits\<close>)

text \<open>
  C2: LCP enters \<open>OPENED\<close> only by agreement of both sides: on a Configure-Request it
  acknowledges after its own request was acknowledged, or on an acknowledgement with the
  identifier of its last request that repeats exactly the options it asked for, after it
  acknowledged the peer's request.
\<close>

theorem lcp_handle_opens:
  assumes ev: "lcp_handle ev st = Some st'" and opened: "st_of st' = OPENED" and no: "st_of st \<noteq> OPENED"
  shows "\<exists>p len. ev = Frame p len \<and> opening_frame st p"
proof (cases ev)
  case (Frame p len)
  then have run: "io_packet p len st = Some st'" using ev by (simp add: lcp_handle_def)
  then have "fsm_input lcp_callbacks (drop 4 p) (len - DLLHEADERLEN) st = Some st'"
    using opened no by (auto simp: io_packet_def lcp_input_def Let_def split: if_splits)
  from lcp_input_opening[OF this opened no refl] Frame show ?thesis
    by (auto simp: opening_frame_def Let_def)
qed (use ev opened no not_opened_link.keep_close[OF no] not_opened_link.keep_die[OF no]
      not_opened_link.keep_auth_events[OF no] lcp_alrm_not_opening[OF no] lcp_base.lowerdown_not_opening[of st]
      not_opened_link.keep_demuxprotrej[OF no lcp_protrej_not_opened]
    in \<open>auto simp: lcp_handle_def lcp_lowerup_def lcp_open_def lcp_lowerdown_def Let_def
      dest!: lcp.lowerup_not_opening lcp.open_not_opening\<close>)

theorem lcp_handle_opens_witness:
  "opening_frame (demo_fsm\<lparr>f_state := ACKSENT\<rparr>, demo_unit) [0xff, 3, 0xc0, 0x21, 2, 1, 0, 4]"
proof -
  let ?st = "(demo_fsm\<lparr>f_state := ACKSENT\<rparr>, demo_unit)" and ?p = "[0xff, 3, 0xc0, 0x21, 2, 1, 0, 4]"
  have "map_option st_of (lcp_handle (Frame ?p 8) ?st) = Some OPENED" "st_of ?st \<noteq> OPENED" by code_simp+
  then show ?thesis using lcp_handle_opens[of "Frame ?p 8" ?st] by (auto simp: map_option_case split: option.splits)
qed

end
