(* ===== verification/Ppp_Lcp_Link.thy ===== *)
theory Ppp_Lcp_Link
  imports Ppp_Lcp_Correct
begin

text \<open>
  What LCP does to the link: retransmission and giving up, the frames it writes and the
  buffer it writes them into, echo requests, and the step from an established link to the
  authentication or network phase.
\<close>

section \<open>Giving up\<close>


section \<open>Frames and the output buffer\<close>

text \<open>
  What \<open>fsm_sdata\<close> sends. As long as the peer's MRU is not above 1500 the frame is the
  header of address, control, protocol, code, identifier and length followed by the data
  (cut off at the peer's MRU), no more than 1504 bytes, and the output buffer of 1504 bytes
  is not left.
\<close>

theorem fsm_sdata_frame:
  assumes "length (outpacket_buf (snd st)) = MTU + DLLHEADERLEN"
    and "4 \<le> peer_mru (snd st)" and "peer_mru (snd st) \<le> int MTU" and "n \<le> length d"
    and "k = min n (nat (peer_mru (snd st) - 4))"
  shows "wire_out (snd (fsm_sdata code i (Some d) n st)) =
      wire_out (snd st) @ [fsm_frame (f_protocol (fst st)) code i (take k d)]
    \<and> length (fsm_frame (f_protocol (fst st)) code i (take k d)) \<le> MTU + DLLHEADERLEN
    \<and> length (outpacket_buf (snd (fsm_sdata code i (Some d) n st))) = MTU + DLLHEADERLEN"
proof -
  have k: "clamp_len (peer_mru (snd st)) n = k"
    using assms clamp_len_id[of "peer_mru (snd st)" n] by (simp add: MTU_def)
  have "8 \<le> length (outpacket_buf (snd st))" "k \<le> length d" "k + 8 \<le> MTU + DLLHEADERLEN"
    using assms by (auto simp: len_defs)
  then show ?thesis
    using sdata_wire[of st n d code i] sdata_buffer_length[of st n d code i] assms(1) unfolding k
    by (simp add: max_def)
qed




theorem fsm_sdata_frame_witness:
  "wire_out (snd (fsm_sdata TERMREQ 9 (Some [1, 2]) 2 (demo_fsm, demo_unit))) = [fsm_frame LCP TERMREQ 9 [1, 2]]"
  using fsm_sdata_frame[of "(demo_fsm, demo_unit)" 2 "[1, 2]" 2 TERMREQ 9]
  by (simp add: demo_fsm_def demo_unit_def len_defs)

text \<open>
  The peer's MRU is taken from its request without an upper bound (\<open>lcp_up\<close>). Once it is
  1504 or more, a packet of the maximal 1500 bytes with an unknown code makes the automaton
  write 1508 bytes into the output buffer of 1504.
\<close>

theorem lcp_coderej_overflow:
  assumes "st_of st \<notin> {INITIAL, STARTING}" and "length (outpacket_buf (snd st)) = MTU + DLLHEADERLEN"
    and "1504 \<le> peer_mru (snd st)" and "peer_mru (snd st) \<le> 65535"
    and "12 \<le> code" and "length body = 1496"
  shows "\<exists>st'. lcp_input (code # i # PUTSHORT 1500 @ body) 1500 st = Some st'
    \<and> length (outpacket_buf (snd st')) = MTU + DLLHEADERLEN + 4"
proof -
  let ?q = "code # i # PUTSHORT 1500 @ body"
  have len: "GETSHORT (?q ! 2) (?q ! 3) = 1500"
    by (simp add: PUTSHORT_def GETSHORT_def numeral_3_eq_3)
  have code: "code \<notin> {CONFREQ, CONFACK, CONFNAK, CONFREJ, TERMREQ, TERMACK, CODEREJ, PROTREJ, ECHOREQ, ECHOREP, DISCREQ}"
    using assms(5) by (auto simp: code_defs PROTREJ_def ECHOREQ_def ECHOREP_def DISCREQ_def word_le_nat_alt)
  then have ext: "lcp_extcode st code i (drop 4 ?q) 1496 = (False, drop 4 ?q, st)"
    by (simp add: lcp_extcode_def)
  let ?st = "on_fsm (\<lambda>f. f\<lparr>f_id := f_id f + 1\<rparr>) st"
  have run: "lcp_input ?q 1500 st = Some (fsm_sdata CODEREJ (f_id (fst ?st)) (Some ?q) 1500 ?st)"
    using code assms(1) ext len
    by (simp add: lcp_input_def fsm_input_def Let_def fsm_rextcode_def HEADERLEN_def)
  have "clamp_len (peer_mru (snd st)) 1500 = 1500" using assms(3,4) by (subst clamp_len_id) auto
  then have "length (outpacket_buf (snd (fsm_sdata CODEREJ (f_id (fst ?st)) (Some ?q) 1500 ?st))) = 1508"
    using assms(2,6) by (subst sdata_buffer_length) (simp_all add: len_defs)
  then show ?thesis using run by (simp add: len_defs)
qed

theorem lcp_coderej_overflow_witness:
  "\<exists>st'. lcp_input (12 # 5 # PUTSHORT 1500 @ replicate 1496 0) 1500 (demo_fsm, demo_unit\<lparr>peer_mru := 1600\<rparr>) = Some st'
    \<and> length (outpacket_buf (snd st')) = 1508"
  using lcp_coderej_overflow[of "(demo_fsm, demo_unit\<lparr>peer_mru := 1600\<rparr>)" 12 "replicate 1496 0" 5]
  by (simp add: demo_fsm_def demo_unit_def len_defs)

section \<open>Echo\<close>

text \<open>
  In \<open>OPENED\<close> an Echo-Request is answered with an Echo-Reply that carries the request's
  identifier, our magic number and the rest of the request's data; in other states it is
  swallowed.
\<close>

theorem lcp_echo_reply:
  assumes "length (outpacket_buf (snd st)) = MTU + DLLHEADERLEN"
    and "4 \<le> peer_mru (snd st)" and "peer_mru (snd st) \<le> int MTU"
    and "6 \<le> len" and "len \<le> length inp" and "len + 4 \<le> nat (peer_mru (snd st))"
  shows "\<exists>inp' st'. lcp_extcode st ECHOREQ i inp len = (True, inp', st')
    \<and> wire_out (snd st') = (if st_of st = OPENED
        then wire_out (snd st) @ [fsm_frame (f_protocol (fst st)) ECHOREP i
               (PUTLONG (magicnumber (lcp_gotoptions (snd st))) @ drop 4 (take len inp))]
        else wire_out (snd st))"
proof (cases "st_of st = OPENED")
  case True
  let ?m = "PUTLONG (magicnumber (lcp_gotoptions (snd st)))"
  let ?inp = "poke inp 0 ?m"
  have inp: "take len ?inp = ?m @ drop 4 (take len inp)" and "len \<le> length ?inp"
    using assms(4,5) by (simp_all add: poke_def drop_take)
  then have "wire_out (snd (fsm_sdata ECHOREP i (Some ?inp) len st)) =
      wire_out (snd st) @ [fsm_frame (f_protocol (fst st)) ECHOREP i (take len ?inp)]"
    using sdata_wire[of st len ?inp ECHOREP i] clamp_len_id[of "peer_mru (snd st)" len] assms
    by (simp add: len_defs)
  then show ?thesis using True assms(4) inp
    by (simp add: lcp_extcode_def ECHOREQ_def PROTREJ_def Let_def cilen_defs)
next
  case False
  then show ?thesis by (simp add: lcp_extcode_def ECHOREQ_def PROTREJ_def)
qed

theorem lcp_echo_reply_witness:
  "\<exists>inp' st'. lcp_extcode (demo_fsm, demo_unit) ECHOREQ 3 [9, 9, 9, 9, 5, 6] 6 = (True, inp', st')
    \<and> wire_out (snd st') = [fsm_frame LCP ECHOREP 3 (PUTLONG 0 @ [5, 6])]"
  using lcp_echo_reply[of "(demo_fsm, demo_unit)" 6 "[9, 9, 9, 9, 5, 6]" 3]
  by (simp add: demo_fsm_def demo_unit_def len_defs zero_lcp_options_def)

section \<open>From an established link to the next phase\<close>

definition passive_unit :: "lcp_st \<Rightarrow> bool" where
  "passive_unit st \<longleftrightarrow> f_flags (fst st) AND (OPT_PASSIVE OR OPT_SILENT) \<noteq> 0"

text \<open>The peer was to authenticate itself, agreed to no protocol, and has no null login.\<close>

definition auth_refused :: "lcp_unit \<Rightarrow> bool" where
  "auth_refused w \<longleftrightarrow> auth_required w \<and> \<not> (neg_chap (lcp_gotoptions w) \<or> neg_upap (lcp_gotoptions w))
     \<and> (\<not> neg_upap (lcp_wantoptions w) \<or> \<not> null_login_ok w)"

lemma die_opened:
  assumes "st_of st = OPENED"
  shows "die st = (if passive_unit st then start_termination CLOSING (lcp_down st)
     else on_unit (\<lambda>w. w\<lparr>exited := True\<rparr>) (start_termination CLOSING (lcp_down st)))"
proof -
  have close: "lcp_close st = start_termination CLOSING (lcp_down st)"
    using assms by (simp add: lcp_close_def fsm_close_def)
  have "f_flags (fst (start_termination CLOSING (lcp_down st))) = f_flags (fst st)"
    by (simp add: start_termination_def send_termreq_def set_state_def on_fsm_def Let_def)
  then show ?thesis by (simp add: die_def close passive_unit_def)
qed

lemma link_established_cases:
  "link_established st =
     (let st' = (if auth_refused (snd st) then die st else st)
      in if exited (snd st') then st' else start_authentication st')"
  by (simp add: link_established_def auth_refused_def Let_def)

lemmas auth_bits = CHAP_PEER_def UPAP_PEER_def CHAP_WITHPEER_def UPAP_WITHPEER_def

lemma start_authentication_phase:
  assumes "Ipcp_open \<notin> set (calls (snd st))" and "st' = start_authentication st"
  shows "fst st' = fst st" and "exited (snd st') = exited (snd st)"
    and "ppp_phase (snd st') = (if auth_pending (snd st') = 0 then PHASE_NETWORK else PHASE_AUTHENTICATE)"
    and "Ipcp_open \<in> set (calls (snd st')) \<longleftrightarrow> auth_pending (snd st') = 0"
    and "neg_chap (lcp_gotoptions (snd st)) \<or> neg_upap (lcp_gotoptions (snd st))
      \<Longrightarrow> auth_pending (snd st') AND (CHAP_PEER OR UPAP_PEER) \<noteq> 0"
proof -
  have "auth_pending (snd (start_authentication st)) AND (CHAP_PEER OR UPAP_PEER) \<noteq> 0"
    if "neg_chap (lcp_gotoptions (snd st)) \<or> neg_upap (lcp_gotoptions (snd st))"
    using that
    by (cases "neg_chap (lcp_gotoptions (snd st))"; cases "neg_chap (lcp_hisoptions (snd st))";
        cases "neg_upap (lcp_hisoptions (snd st))")
      (simp_all add: start_authentication_def Let_def enter_network_def auth_bits)
  then show "neg_chap (lcp_gotoptions (snd st)) \<or> neg_upap (lcp_gotoptions (snd st))
      \<Longrightarrow> auth_pending (snd st') AND (CHAP_PEER OR UPAP_PEER) \<noteq> 0"
    using assms(2) by simp
qed (use assms in \<open>simp_all add: start_authentication_def Let_def enter_network_def auth_bits\<close>)

text \<open>
  On a unit that is neither passive nor silent, a link whose peer refused to
  authenticate itself ends the task; otherwise the next phase is the network phase exactly
  when no authentication is pending, and IPCP is opened in that case only.
\<close>

theorem link_established_phase:
  assumes "st_of st = OPENED" and "\<not> passive_unit st" and "\<not> exited (snd st)"
    and "Ipcp_open \<notin> set (calls (snd st))" and "st' = link_established st"
  shows "if auth_refused (snd st) then exited (snd st')
    else \<not> exited (snd st') \<and> st_of st' = OPENED
      \<and> ppp_phase (snd st') = (if auth_pending (snd st') = 0 then PHASE_NETWORK else PHASE_AUTHENTICATE)
      \<and> (Ipcp_open \<in> set (calls (snd st')) \<longleftrightarrow> auth_pending (snd st') = 0)
      \<and> (neg_chap (lcp_gotoptions (snd st)) \<or> neg_upap (lcp_gotoptions (snd st))
           \<longrightarrow> auth_pending (snd st') AND (CHAP_PEER OR UPAP_PEER) \<noteq> 0)"
proof (cases "auth_refused (snd st)")
  case True
  then show ?thesis using assms die_opened[OF assms(1)] by (simp add: link_established_cases Let_def)
next
  case False
  then have "st' = start_authentication st" using assms by (simp add: link_established_cases Let_def)
  with False show ?thesis using start_authentication_phase[OF assms(4)] assms(1,3) by simp
qed

theorem link_established_phase_witness:
  "ppp_phase (snd (link_established (demo_fsm, demo_unit))) = PHASE_NETWORK"
  using link_established_phase[of "(demo_fsm, demo_unit)", OF _ _ _ _ refl]
  by (simp add: demo_fsm_def demo_unit_def passive_unit_def auth_refused_def link_established_def
      start_authentication_def zero_lcp_options_def enter_network_def log_calls_def on_unit_def Let_def)

text \<open>
  On a passive or silent unit \<open>die\<close> returns, and \<open>link_established\<close> goes on as if the peer
  had not refused: with no authentication of our own to do, the unit is put into the
  network phase and IPCP is opened, although LCP is already closing.
\<close>

theorem link_established_passive_refused:
  assumes "st_of st = OPENED" and "passive_unit st" and "\<not> exited (snd st)" and "auth_refused (snd st)"
    and "\<not> neg_chap (lcp_hisoptions (snd st))" and "\<not> neg_upap (lcp_hisoptions (snd st))"
    and "st' = link_established st"
  shows "ppp_phase (snd st') = PHASE_NETWORK \<and> Ipcp_open \<in> set (calls (snd st')) \<and> st_of st' = CLOSING"
proof -
  let ?d = "start_termination CLOSING (lcp_down st)"
  have same: "exited (snd ?d) = exited (snd st)" "lcp_gotoptions (snd ?d) = lcp_gotoptions (snd st)"
    "lcp_hisoptions (snd ?d) = lcp_hisoptions (snd st)"
    by (simp_all add: start_termination_def send_termreq_def fsm_sdata_def TIMEOUT_def Let_def lcp_down_def
        link_down_def lcp_echo_lowerdown_def)
  then have "st' = start_authentication ?d"
    using assms die_opened[OF assms(1)] by (simp add: link_established_cases Let_def)
  then show ?thesis using assms same
    by (simp add: start_authentication_def Let_def enter_network_def auth_refused_def)
qed

theorem link_established_passive_refused_witness:
  "st_of (link_established (demo_fsm\<lparr>f_flags := 3\<rparr>, demo_unit\<lparr>auth_required := True\<rparr>)) = CLOSING"
  using link_established_passive_refused[of "(demo_fsm\<lparr>f_flags := 3\<rparr>, demo_unit\<lparr>auth_required := True\<rparr>)", OF _ _ _ _ _ _ refl]
  by (simp add: demo_fsm_def demo_unit_def passive_unit_def auth_refused_def zero_lcp_options_def
      OPT_PASSIVE_def OPT_SILENT_def)

end
