(* ===== verification/Ppp_Fsm_Stable.thy ===== *)
theory Ppp_Fsm_Stable
  imports Ppp_Fsm_Client
begin

text \<open>
  Properties of the whole unit that a protocol's automaton keeps: the locale \<open>fsm_stable\<close>. The
  property may look at the rest of the unit and, of the automaton, at its flags and at whether the
  lower layer is down (\<open>INITIAL\<close>, \<open>STARTING\<close>). Only \<open>fsm_lowerup\<close> leaves these two states.
\<close>

definition lower_down :: "fsm \<Rightarrow> bool" where
  "lower_down f \<longleftrightarrow> f_state f \<in> {INITIAL, STARTING}"

lemma lower_down_states [simp]:
  "f_state f = INITIAL \<Longrightarrow> lower_down f" "f_state f = STARTING \<Longrightarrow> lower_down f"
  "f_state f = CLOSED \<Longrightarrow> \<not> lower_down f" "f_state f = STOPPED \<Longrightarrow> \<not> lower_down f"
  "f_state f = CLOSING \<Longrightarrow> \<not> lower_down f" "f_state f = STOPPING \<Longrightarrow> \<not> lower_down f"
  "f_state f = REQSENT \<Longrightarrow> \<not> lower_down f" "f_state f = ACKRCVD \<Longrightarrow> \<not> lower_down f"
  "f_state f = ACKSENT \<Longrightarrow> \<not> lower_down f" "f_state f = OPENED \<Longrightarrow> \<not> lower_down f"
  by (simp_all add: lower_down_def)

lemma lower_down_same: "f_state f' = f_state f \<Longrightarrow> lower_down f' = lower_down f"
  by (simp add: lower_down_def)

locale fsm_stable = fsm_protocol cb for cb :: "'x fsm_callbacks" +
  fixes P :: "'x pst \<Rightarrow> bool"
  assumes fsm_law: "P (f, w) \<Longrightarrow> f_flags f' = f_flags f \<Longrightarrow>
      lower_down f' \<or> \<not> lower_down f \<or> f_flags f AND OPT_RESTART \<noteq> 0 \<Longrightarrow> P (f', w)"
    and timer_law: "P st \<Longrightarrow> P (TIMEOUT st)" "P st \<Longrightarrow> P (UNTIMEOUT st)"
    and io_law: "P (f, w) \<Longrightarrow> P (f, w\<lparr>outpacket_buf := b\<rparr>)" "P (f, w) \<Longrightarrow> P (f, w\<lparr>wire_out := o'\<rparr>)"
    and resetci_stable: "P st \<Longrightarrow> P (call (cb_resetci cb) st)"
    and addci_stable: "cb_addci cb = Some g2 \<Longrightarrow> P st \<Longrightarrow> g2 st n = (bs, m, st') \<Longrightarrow> P st'"
    and ackci_stable: "cb_ackci cb = Some g3 \<Longrightarrow> P st \<Longrightarrow> g3 st inp n = (good, st') \<Longrightarrow> P st'"
    and nakci_stable: "cb_nakci cb = Some g4 \<Longrightarrow> P st \<Longrightarrow> g4 st inp n = Some (good, st') \<Longrightarrow> P st'"
    and rejci_stable: "cb_rejci cb = Some g3 \<Longrightarrow> P st \<Longrightarrow> g3 st inp n = (good, st') \<Longrightarrow> P st'"
    and reqci_stable: "cb_reqci cb = Some g5 \<Longrightarrow> P st \<Longrightarrow> g5 st inp n rej = (code, inp', n', st') \<Longrightarrow> P st'"
    and up_stable: "P st \<Longrightarrow> P (call (cb_up cb) st)"
    and down_stable: "P st \<Longrightarrow> P (call (cb_down cb) st)" "fst (call (cb_down cb) st) = fst st"
    and starting_stable: "P st \<Longrightarrow> P (call (cb_starting cb) st)" "fst (call (cb_starting cb) st) = fst st"
    and finished_stable: "P st \<Longrightarrow> P (call (cb_finished cb) st)"
    and no_retransmit: "cb_retransmit cb = None"
    and extcode_stable: "cb_extcode cb = Some g6 \<Longrightarrow> P st \<Longrightarrow> g6 st code i inp n = (h, inp', st') \<Longrightarrow> P st'"
begin

lemma stable_fsm: "P st \<Longrightarrow> f_flags (g (fst st)) = f_flags (fst st) \<Longrightarrow>
    (lower_down (g (fst st)) \<or> \<not> lower_down (fst st)) \<Longrightarrow> P (on_fsm g st)"
  unfolding on_fsm_def by (rule fsm_law[of "fst st"]) auto

lemma stable_same: "P st \<Longrightarrow> f_flags (g (fst st)) = f_flags (fst st) \<Longrightarrow> f_state (g (fst st)) = f_state (fst st) \<Longrightarrow>
    P (on_fsm g st)"
  by (rule stable_fsm) (auto simp: lower_down_def)

lemma stable_set: "P st \<Longrightarrow> \<not> lower_down (fst st) \<or> s \<in> {INITIAL, STARTING} \<Longrightarrow> P (set_state s st)"
  unfolding set_state_def by (rule stable_fsm) (auto simp: lower_down_def)

lemma stable_sdata: "P st \<Longrightarrow> P (fsm_sdata code i d n st)"
  using io_law[of "fst st"] by (simp add: fsm_sdata_def Let_def)

lemma stable_send: "P st \<Longrightarrow> P (send_termack i st)" "P st \<Longrightarrow> P (send_termreq st)" "P st \<Longrightarrow> P (send_client st)"
  using io_law(2)[of "fst st" "snd st"]
  by (simp_all add: send_termack_def send_termreq_def send_client_def Let_def stable_sdata stable_same timer_law)

lemma stable_start_termination: "P st \<Longrightarrow> \<not> lower_down (fst st) \<Longrightarrow> P (start_termination s st)"
  unfolding start_termination_def
  by (intro stable_set stable_send stable_same disjI1) (simp_all add: lower_down_def)

lemma stable_sconfreq:
  assumes "P st" shows "P (fsm_sconfreq cb r st)"
proof -
  have add: "P (fst st', (snd st')\<lparr>outpacket_buf := b\<rparr>)"
    if "P s" "cb_addci cb = Some ad" "ad s n = (bs, m, st')" for s st' n bs m ad b
    using io_law(1) addci_stable[OF that(2,1,3)] by (metis prod.collapse)
  have st2: "P (on_fsm (\<lambda>f. f\<lparr>f_nakloops := 0\<rparr>) (call (cb_resetci cb) st))"
    using resetci_stable[OF assms] by (simp add: stable_same)
  have fin: "P (TIMEOUT (on_fsm (\<lambda>f. f\<lparr>f_retransmits := f_retransmits f - 1\<rparr>) (fsm_sdata c i d n s)))"
    if "P s" for s c i d n using that by (intro timer_law stable_same stable_sdata) simp_all
  have main: "P (send_client s)"
      "P (send_client (on_fsm (\<lambda>f. f\<lparr>f_retransmits := f_maxconfreqtransmits f, f_reqid := f_id f + 1, f_id := f_id f + 1\<rparr>) s))"
    if "P s" for s
    using that by (simp_all add: stable_send stable_same)
  show ?thesis using main[OF assms] main[OF st2] fin add
    by (auto simp: fsm_sconfreq_def Let_def split: option.splits prod.splits)
qed

lemma flags_sconfreq [simp]: "f_flags (fst (fsm_sconfreq cb r st)) = f_flags (fst st)"
proof -
  have reset: "fst (call (cb_resetci cb) s) = fst s" for s
    using resetci_law by (cases "cb_resetci cb") (auto simp: ci_frame_def)
  have "fst st' = fst s" if "cb_addci cb = Some ad" "ad s n = (bs, m, st')" for s st' n bs m ad
    using addci_law[OF that] by (simp add: ci_frame_def)
  then show ?thesis
    by (auto simp: fsm_sconfreq_def Let_def reset on_fsm_def split: option.splits prod.splits)
qed

lemma flags_set_state [simp]: "f_flags (fst (set_state s st)) = f_flags (fst st)"
  by (simp add: set_state_def on_fsm_def)

lemma flags_lowerdown: "f_flags (fst (fsm_lowerdown cb st)) = f_flags (fst st)"
  by (cases "st_of st") (simp_all add: fsm_lowerdown_def down_stable starting_stable)

lemma stable_lowerdown: "P st \<Longrightarrow> P (fsm_lowerdown cb st)"
  by (cases "st_of st") (simp_all add: fsm_lowerdown_def timer_law stable_set starting_stable down_stable)

lemma restart_set: "P st \<Longrightarrow> f_flags (fst st) AND OPT_RESTART \<noteq> 0 \<Longrightarrow> P (set_state s st)"
  unfolding set_state_def on_fsm_def by (rule fsm_law[of "fst st"]) simp_all

lemma stable_restart:
  assumes "P st" and "f_flags (fst st) AND OPT_RESTART \<noteq> 0"
  shows "P (fsm_lowerup cb (fsm_lowerdown cb st))"
proof -
  have "P (fsm_lowerdown cb st)" and "f_flags (fst (fsm_lowerdown cb st)) AND OPT_RESTART \<noteq> 0"
    using assms stable_lowerdown flags_lowerdown by auto
  then show ?thesis
    by (cases "st_of (fsm_lowerdown cb st)") (simp_all add: fsm_lowerup_def restart_set stable_sconfreq)
qed

lemma alive_sconfreq: "\<not> lower_down (fst (fsm_sconfreq cb r st)) \<longleftrightarrow> \<not> lower_down (fst st)"
  by (simp add: lower_down_def sconfreq_state)

lemma stable_request: "P st \<Longrightarrow> \<not> lower_down (fst st) \<Longrightarrow> P (set_state s (fsm_sconfreq cb r st))"
  by (intro stable_set stable_sconfreq) (simp_all add: alive_sconfreq)

lemma stable_open: "P st \<Longrightarrow> P (fsm_open cb st)"
  by (cases "st_of st") (simp_all add: fsm_open_def Let_def stable_set starting_stable stable_request stable_restart)

lemma stable_close: "P st \<Longrightarrow> P (fsm_close cb st)"
  by (cases "st_of st") (simp_all add: fsm_close_def stable_set stable_start_termination timer_law down_stable)

lemma stable_timeout: "P st \<Longrightarrow> P (fsm_timeout cb st)"
  by (cases "st_of st")
    (simp_all add: fsm_timeout_def Let_def no_retransmit stable_set finished_stable stable_send stable_sconfreq
      alive_sconfreq)

lemma stable_protreject: "P st \<Longrightarrow> P (fsm_protreject cb st)"
  by (cases "st_of st")
    (simp_all add: fsm_protreject_def stable_set timer_law finished_stable stable_start_termination down_stable)

lemma stable_restart_negotiation: "P st \<Longrightarrow> st_of st = OPENED \<Longrightarrow> P (restart_negotiation cb st)"
  unfolding restart_negotiation_def by (rule stable_request) (simp_all add: down_stable)

lemma stable_rconfreq:
  assumes P: "P st" and alive: "\<not> lower_down (fst st)"
  shows "P (fsm_rconfreq cb i inp len st)"
proof -
  define st1 where "st1 = (case st_of st of
      OPENED \<Rightarrow> fsm_sconfreq cb False (call (cb_down cb) st)
    | STOPPED \<Rightarrow> set_state REQSENT (fsm_sconfreq cb False st) | _ \<Rightarrow> st)"
  have P1: "P st1" and alive1: "\<not> lower_down (fst st1)"
    using P alive
    by (cases "st_of st"; simp add: st1_def stable_sconfreq down_stable alive_sconfreq stable_request)+
  obtain code inp' len' st2 where r:
    "(case cb_reqci cb of
        Some rq \<Rightarrow> rq st1 inp len (f_nakloops (fst st1) \<ge> f_maxnakloops (fst st1))
      | None \<Rightarrow> (if len \<noteq> 0 then CONFREJ else CONFACK, inp, len, st1)) = (code, inp', len', st2)"
    by (metis prod_cases4)
  have "ci_frame st1 st2" and P2: "P st2"
    using r P1 reqci_law[of _ st1] reqci_stable[of _ st1] by (auto simp: ci_frame_def split: option.splits)
  then have alive2: "\<not> lower_down (fst st2)" using alive1 by (simp add: ci_frame_def)
  let ?st3 = "fsm_sdata code i (Some inp') len' st2"
  have "P (call (cb_up cb) (set_state OPENED (UNTIMEOUT ?st3)))" "P (set_state ACKSENT ?st3)" "P ?st3" "P (set_state REQSENT ?st3)"
    using P2 alive2 by (simp_all add: up_stable stable_set timer_law stable_sdata)
  then have "P (on_fsm (\<lambda>f. f\<lparr>f_nakloops := 0\<rparr>) (if st_of ?st3 = ACKRCVD
      then call (cb_up cb) (set_state OPENED (UNTIMEOUT ?st3)) else set_state ACKSENT ?st3))"
    "P (if st_of ?st3 \<noteq> ACKRCVD then set_state REQSENT ?st3 else ?st3)"
    by (simp_all add: stable_same)
  then show ?thesis using P
    by (simp add: fsm_rconfreq_def st1_def[symmetric] r Let_def stable_send stable_same)
qed

lemma stable_rconfack:
  assumes P: "P st" shows "P (fsm_rconfack cb i inp len st)"
proof -
  obtain good st1 where r:
    "(case cb_ackci cb of Some ac \<Rightarrow> ac st inp len | None \<Rightarrow> (len = 0, st)) = (good, st1)"
    by (metis surj_pair)
  have P1: "P st1" using r P ackci_stable[of _ st] by (auto split: option.splits)
  define st2 where "st2 = on_fsm (\<lambda>f. f\<lparr>f_reqid := -1\<rparr>) st1"
  have P2: "P st2" using P1 by (simp add: st2_def stable_same)
  have up: "P (call (cb_up cb) (on_fsm (\<lambda>f. f\<lparr>f_state := OPENED, f_retransmits := f_maxconfreqtransmits f\<rparr>) (UNTIMEOUT st2)))"
    "P (on_fsm (\<lambda>f. f\<lparr>f_state := ACKRCVD, f_retransmits := f_maxconfreqtransmits f\<rparr>) st2)"
    if "\<not> lower_down (fst st2)"
    using that P2 by (intro up_stable stable_fsm timer_law; simp)+
  show ?thesis unfolding fsm_rconfack_def r Let_def prod.case st2_def[symmetric] using P P1 P2 up
    by (cases "st_of st2") (simp_all add: stable_send stable_request stable_restart_negotiation)
qed

lemma stable_rconfnakrej:
  assumes P: "P st" and res: "fsm_rconfnakrej cb code i inp len st = Some st'"
  shows "P st'"
proof (cases "i = f_reqid (fst st)")
  case True
  define proc where "proc = (if code = CONFNAK
     then (case cb_nakci cb of None \<Rightarrow> Some (False, st) | Some proc \<Rightarrow> proc st inp len)
     else Some (case cb_rejci cb of None \<Rightarrow> (False, st) | Some proc \<Rightarrow> proc st inp len))"
  then obtain good st1 where p: "proc = Some (good, st1)"
    using res True by (auto simp: fsm_rconfnakrej_def)
  then have P1: "P st1" using P nakci_stable[of _ st] rejci_stable[of _ st]
    by (auto simp: proc_def split: if_splits option.splits)
  define st2 where "st2 = on_fsm (\<lambda>f. f\<lparr>f_reqid := -1\<rparr>) st1"
  have P2: "P st2" using P1 by (simp add: st2_def stable_same)
  have "P (case st_of st2 of
                 CLOSED \<Rightarrow> send_termack i st2
               | STOPPED \<Rightarrow> send_termack i st2
               | REQSENT \<Rightarrow> fsm_sconfreq cb False (UNTIMEOUT st2)
               | ACKSENT \<Rightarrow> fsm_sconfreq cb False (UNTIMEOUT st2)
               | ACKRCVD \<Rightarrow> set_state REQSENT (fsm_sconfreq cb False st2)
               | OPENED \<Rightarrow> restart_negotiation cb st2
               | _ \<Rightarrow> st2)"
    using P2 by (cases "st_of st2")
      (simp_all add: stable_send stable_sconfreq timer_law stable_request stable_restart_negotiation)
  note this[unfolded st2_def, simplified]
  with res P1 show ?thesis unfolding fsm_rconfnakrej_def True proc_def[symmetric] p Let_def
    by (auto split: if_splits)
qed (use assms in \<open>simp add: fsm_rconfnakrej_def\<close>)

lemma stable_rtermreq: "P st \<Longrightarrow> P (fsm_rtermreq cb i st)"
proof -
  assume P: "P st"
  have "P (TIMEOUT (on_fsm (\<lambda>f. f\<lparr>f_retransmits := 0, f_state := STOPPING\<rparr>) (call (cb_down cb) st)))"
    if "st_of st = OPENED" using that P by (intro timer_law stable_fsm) (simp_all add: down_stable)
  then show ?thesis using P
    by (cases "st_of st") (simp_all add: fsm_rtermreq_def stable_send stable_set)
qed

lemma stable_rtermack: "P st \<Longrightarrow> P (fsm_rtermack cb st)"
  by (cases "st_of st") (simp_all add: fsm_rtermack_def stable_set finished_stable stable_sconfreq down_stable)

lemma stable_rcoderej: "P st \<Longrightarrow> P (fsm_rcoderej len st)"
  by (simp add: fsm_rcoderej_def stable_set)

lemma stable_rextcode:
  assumes "P st" shows "P (fsm_rextcode cb code i inpacket len st)"
  using assms extcode_stable[of _ st]
  by (auto simp: fsm_rextcode_def Let_def intro!: stable_sdata stable_same split: option.splits prod.splits)

lemma stable_input: "P st \<Longrightarrow> fsm_input cb q l st = Some st' \<Longrightarrow> P st'"
  using stable_rconfnakrej[of st]
  by (auto simp: fsm_input_def Let_def stable_rconfreq stable_rconfack stable_rtermreq stable_rtermack
      stable_rcoderej stable_rextcode lower_down_def split: if_splits)

end

text \<open>A property of the unit alone survives \<open>fsm_lowerup\<close> too.\<close>

locale fsm_stable_unit = fsm_stable cb P for cb :: "'x fsm_callbacks" and P :: "'x pst \<Rightarrow> bool" +
  assumes any_fsm: "P (f, w) \<Longrightarrow> P (f', w)"
begin

lemma stable_lowerup: "P st \<Longrightarrow> P (fsm_lowerup cb st)"
proof -
  have "P (set_state s st)" if "P st" for s st
    using that any_fsm[of "fst st" "snd st"] by (simp add: set_state_def on_fsm_def)
  then show "P st \<Longrightarrow> P (fsm_lowerup cb st)"
    by (cases "st_of st") (simp_all add: fsm_lowerup_def stable_sconfreq)
qed

end

end
