(* ===== verification/Ppp_Lcp_Log.thy ===== *)
theory Ppp_Lcp_Log
  imports Ppp_Lcp_Correct Ppp_Fsm_Stable "HOL-Library.Sublist"
begin

text \<open>
  What every routine of LCP keeps of the unit it shares with the other protocols: the locale
  \<open>lcp_stable\<close> is a property of the record of calls and of the callout list that survives a further
  call and LCP's own timers. It gives \<open>fsm_stable_unit\<close> for each stage of the callback table and so
  holds through every event. Two instances: the record of calls only grows (what one event
  adds to it is what the other protocols are told), and LCP leaves CHAP's timers alone.
\<close>

section \<open>Properties every routine keeps\<close>

locale lcp_stable =
  fixes P :: "lcp_st \<Rightarrow> bool"
  assumes same_law: "P st \<Longrightarrow> calls (snd st') = calls (snd st) \<Longrightarrow> callout_list (snd st') = callout_list (snd st) \<Longrightarrow> P st'"
    and calls_law: "P st \<Longrightarrow> P (log_calls cs st)"
    and own_timer_law: "P st \<Longrightarrow> P (TIMEOUT st)" "P st \<Longrightarrow> P (UNTIMEOUT st)"
    and echo_law: "P (f, w) \<Longrightarrow> P (f, w\<lparr>callout_list := timeout_link ECHO_KEY n (callout_list w)\<rparr>)"
      "P (f, w) \<Longrightarrow> P (f, w\<lparr>callout_list := untimeout_unlink ECHO_KEY (callout_list w)\<rparr>)"
begin

lemma keep_unit: "(\<And>w. calls (g w) = calls w \<and> callout_list (g w) = callout_list w) \<Longrightarrow> P (on_unit g st) = P st"
  using same_law[of st "on_unit g st"] same_law[of "on_unit g st" st] by auto

lemma keep_fsm: "P (set_state s st) = P st" "P (on_fsm g st) = P st"
  using same_law[of st "on_fsm g st" for g] same_law[of "on_fsm g st" st for g]
  by (auto simp: set_state_def)

lemma keep_sdata: "P st \<Longrightarrow> P (fsm_sdata c i d n st)"
  by (erule same_law) (simp_all add: fsm_sdata_def Let_def)

lemma keep_echo:
  "P st \<Longrightarrow> P (on_unit (\<lambda>w. w\<lparr>callout_list := timeout_link ECHO_KEY (t w) (callout_list w), lcp_echo_timer_running := r\<rparr>) st)"
  "P st \<Longrightarrow> P (on_unit (\<lambda>w. w\<lparr>callout_list := untimeout_unlink ECHO_KEY (callout_list w), lcp_echo_timer_running := r\<rparr>) st)"
proof -
  assume "P st"
  then have e: "P (fst st, (snd st)\<lparr>callout_list := timeout_link ECHO_KEY n (callout_list (snd st))\<rparr>)"
    "P (fst st, (snd st)\<lparr>callout_list := untimeout_unlink ECHO_KEY (callout_list (snd st))\<rparr>)" for n
    using echo_law[of "fst st" "snd st"] by simp_all
  show "P (on_unit (\<lambda>w. w\<lparr>callout_list := timeout_link ECHO_KEY (t w) (callout_list w), lcp_echo_timer_running := r\<rparr>) st)"
    by (rule same_law[OF e(1)[of "t (snd st)"]]) simp_all
  show "P (on_unit (\<lambda>w. w\<lparr>callout_list := untimeout_unlink ECHO_KEY (callout_list w), lcp_echo_timer_running := r\<rparr>) st)"
    by (rule same_law[OF e(2)]) simp_all
qed

lemma io_laws:
  "P (f, w) \<Longrightarrow> P (f', w)" "P (f, w) \<Longrightarrow> P (f, w\<lparr>outpacket_buf := b\<rparr>)" "P (f, w) \<Longrightarrow> P (f, w\<lparr>wire_out := o'\<rparr>)"
  by (erule same_law; simp)+

lemma keep_ci:
  "P st \<Longrightarrow> P (lcp_resetci st)"
  "P st \<Longrightarrow> lcp_addci_cb st n = (bs, m, st') \<Longrightarrow> P st'"
  "P st \<Longrightarrow> lcp_ackci_cb st p n = (good, st') \<Longrightarrow> P st'"
  "P st \<Longrightarrow> lcp_nakci_cb st p n = Some (good, st') \<Longrightarrow> P st'"
  "P st \<Longrightarrow> lcp_rejci_cb st p n = (good, st') \<Longrightarrow> P st'"
  "P st \<Longrightarrow> lcp_reqci_cb st p n rej = (code, p', n', st') \<Longrightarrow> P st'"
  using lcp_resetci_frame[of st] lcp_nakci_frame[of st p n good st'] lcp_rejci_frame[of st p n]
    lcp_reqci_frame[of st p n rej code p' n' st']
  by (auto simp: lcp_addci_cb_def lcp_ackci_cb_def ci_frame_def elim!: same_law)

lemma keep_lcp_down: "P st \<Longrightarrow> P (lcp_down st)"
  by (simp add: lcp_down_def link_down_def lcp_echo_lowerdown_def keep_unit calls_law keep_echo)

end

sublocale lcp_stable \<subseteq> base: fsm_stable_unit lcp_base_callbacks P
  by unfold_locales (auto intro: keep_ci keep_lcp_down own_timer_law io_laws)

context lcp_stable
begin

lemma keep_finished: "P st \<Longrightarrow> P (lcp_finished st)"
  by (simp add: lcp_finished_def link_terminated_def base.stable_open keep_unit)

lemma keep_close: "P st \<Longrightarrow> P (lcp_close st)"
  by (simp add: lcp_close_def keep_finished keep_fsm base.stable_close)

lemma keep_die: "P st \<Longrightarrow> P (die st)"
  by (simp add: die_def Let_def keep_unit keep_close)

lemma keep_LcpLinkFailure: "P st \<Longrightarrow> P (LcpLinkFailure st)"
  by (simp add: LcpLinkFailure_def lcp_lowerdown_def keep_unit base.stable_lowerdown)

lemma keep_LcpEchoCheck: "P st \<Longrightarrow> P (LcpEchoCheck st)"
  by (simp add: LcpEchoCheck_def LcpSendEchoRequest_def Let_def keep_unit keep_echo keep_die keep_sdata keep_LcpLinkFailure)

lemma keep_LcpEchoTimeout: "P st \<Longrightarrow> P (LcpEchoTimeout st)"
  by (simp add: LcpEchoTimeout_def keep_LcpEchoCheck keep_unit)

lemma keep_start_authentication: "P st \<Longrightarrow> P (start_authentication st)"
  by (simp add: start_authentication_def enter_network_def Let_def calls_law keep_unit)

lemma keep_lcp_up: "P st \<Longrightarrow> P (lcp_up st)"
proof -
  assume g: "P st"
  have est: "P (link_established s)" if "P s" for s
    using that by (simp add: link_established_def Let_def keep_start_authentication keep_die)
  have echo: "P (lcp_echo_lowerup s)" if "P s" for s
    using that by (simp add: lcp_echo_lowerup_def Let_def keep_LcpEchoCheck keep_unit)
  have fin: "P (if exited (snd s) then s else link_established s)" if "P s" for s
    using that est by simp
  have mru: "P (if b then on_unit (\<lambda>w. w\<lparr>peer_mru := x\<rparr>) s else s)" if "P s" for b x s
    using that by (simp add: keep_unit)
  have "P (fst st, (snd st)\<lparr>lcp_gotoptions := x, lcp_hisoptions := y\<rparr>)" for x y
    using g by (rule same_law) simp_all
  then show ?thesis unfolding lcp_up_def Let_def by (intro fin echo mru calls_law)
qed

end

sublocale lcp_stable \<subseteq> core: fsm_stable_unit lcp_core_callbacks P
  by unfold_locales (auto intro: keep_ci keep_lcp_down keep_lcp_up keep_finished own_timer_law io_laws)

context lcp_stable
begin

lemma keep_demuxprotrej: "P st \<Longrightarrow> P (demuxprotrej prot st)"
  by (simp add: demuxprotrej_def lcp_protrej_def core.stable_protreject calls_law)

lemma keep_extcode: "P st \<Longrightarrow> lcp_extcode st code i inp n = (h, inp', st') \<Longrightarrow> P st'"
  by (auto simp: lcp_extcode_def Let_def lcp_rprotrej_def keep_demuxprotrej keep_sdata lcp_received_echo_reply_def
      keep_unit split: if_splits)

end

sublocale lcp_stable \<subseteq> full: fsm_stable_unit lcp_callbacks P
  by unfold_locales
    (auto intro: keep_ci keep_lcp_down keep_lcp_up keep_finished keep_extcode own_timer_law io_laws)

context lcp_stable
begin

lemma keep_run_timer: "P st \<Longrightarrow> P (run_timer k st)"
  by (simp add: run_timer_def full.stable_timeout keep_LcpEchoTimeout)

lemma keep_io_packet: "P st \<Longrightarrow> io_packet p len st = Some st' \<Longrightarrow> P st'"
  by (auto simp: io_packet_def Let_def lcp_input_def lcp_sprotrej_def calls_law keep_sdata keep_fsm keep_unit
      intro: full.stable_input split: if_splits)

lemma keep_auth:
  assumes "P st"
  shows "P (auth_peer_success prot st)" "P (auth_withpeer_success prot st)" "P (auth_peer_fail st)"
  using assms
  by (simp_all add: auth_peer_success_def auth_withpeer_success_def auth_peer_fail_def auth_done_def enter_network_def
      Let_def keep_unit calls_law keep_die)

text \<open>Every event but an alarm, which takes entries off the callout list first.\<close>

lemma keep_handle: "P st \<Longrightarrow> ev \<noteq> Alarm \<Longrightarrow> lcp_handle ev st = Some st' \<Longrightarrow> P st'"
  using keep_io_packet[of st]
  by (cases ev) (auto simp: lcp_handle_def lcp_lowerup_def lcp_lowerdown_def lcp_open_def Let_def keep_close keep_die
      keep_auth keep_demuxprotrej keep_unit keep_fsm calls_law
      intro!: full.stable_lowerup base.stable_lowerdown full.stable_open)

end

section \<open>The record of calls\<close>

definition grows :: "ppp_call list \<Rightarrow> lcp_st \<Rightarrow> bool" where
  "grows cs st \<longleftrightarrow> prefix cs (calls (snd st))"

interpretation lcp_log: lcp_stable "grows cs" for cs
  by unfold_locales (auto simp: grows_def TIMEOUT_def UNTIMEOUT_def)

lemma grows_lcp_alrm: "grows cs st \<Longrightarrow> grows cs (lcp_alrm st)"
proof -
  have "grows cs (fold run_timer ks s)" if "grows cs s" for ks s
    using that by (induction ks arbitrary: s) (simp_all add: lcp_log.keep_run_timer)
  moreover have "grows cs (on_unit (\<lambda>w. w\<lparr>callout_list := x\<rparr>) st) = grows cs st" for x
    by (simp add: grows_def)
  ultimately show "grows cs st \<Longrightarrow> grows cs (lcp_alrm st)"
    by (simp add: lcp_alrm_def lcp_log.keep_run_timer split: list.split)
qed

lemma grows_handle: "grows cs st \<Longrightarrow> lcp_handle ev st = Some st' \<Longrightarrow> grows cs st'"
  using lcp_log.keep_handle[of cs st ev st'] grows_lcp_alrm[of cs st] by (cases "ev = Alarm") (auto simp: lcp_handle_def)

section \<open>The timers of CHAP\<close>

definition chap_key :: "ppp_key \<Rightarrow> bool" where
  "chap_key k \<longleftrightarrow> k \<in> {Chap_challenge_timer, Chap_response_timer, Chap_rechallenge_timer}"

text \<open>How often each of CHAP's timers is pending, and that it is so in a state.\<close>

definition chap_pending :: "'x ppp_io_scheme \<Rightarrow> ppp_key \<Rightarrow> nat" where
  "chap_pending w k = (if chap_key k then pending_count k (callout_list w) else 0)"

lemma chap_key_other [simp]: "\<not> chap_key (Fsm_timeout p)" "\<not> chap_key Lcp_echo_timer"
  by (simp_all add: chap_key_def)

lemma chap_pending_cong: "callout_list w' = callout_list w \<Longrightarrow> chap_pending w' = chap_pending w"
  by (simp add: chap_pending_def fun_eq_iff)

lemma chap_pending_timers [simp]:
  "chap_pending (snd (TIMEOUT st)) = chap_pending (snd st)" "chap_pending (snd (UNTIMEOUT st)) = chap_pending (snd st)"
  "\<not> chap_key k' \<Longrightarrow> chap_pending (w\<lparr>callout_list := timeout_link k' n (callout_list w)\<rparr>) = chap_pending w"
  "\<not> chap_key k' \<Longrightarrow> chap_pending (w\<lparr>callout_list := untimeout_unlink k' (callout_list w)\<rparr>) = chap_pending w"
  by (auto simp: chap_pending_def TIMEOUT_def UNTIMEOUT_def timer_key_def fun_eq_iff co.pending_set co.pending_cancel)

definition chap_timers :: "(ppp_key \<Rightarrow> nat) \<Rightarrow> fsm \<times> 'x ppp_io_scheme \<Rightarrow> bool" where
  "chap_timers n st \<longleftrightarrow> chap_pending (snd st) = n"

interpretation lcp_timers: lcp_stable "chap_timers n" for n
proof
  show "chap_timers n st'" if "chap_timers n st" "callout_list (snd st') = callout_list (snd st)" for st st' :: lcp_st
    using that chap_pending_cong[of "snd st'" "snd st"] by (simp add: chap_timers_def)
  show "chap_timers n (log_calls cs st)" if "chap_timers n st" for cs and st :: lcp_st
    using that chap_pending_cong[of "snd (log_calls cs st)" "snd st"] by (simp add: chap_timers_def)
qed (simp_all add: chap_timers_def ECHO_KEY_def)

end
