(* ===== verification/Ppp_Ipcp_Options.thy ===== *)
theory Ppp_Ipcp_Options
  imports Ppp_Lcp_Options
begin

text \<open>
  The options of the IP control protocol (\<^verbatim>\<open>ipcp.c\<close>): addresses, in the new form with one
  address or the old form with two, and Van Jacobson header compression. Writing the request
  (\<open>ipcp_cilen\<close>, \<open>ipcp_addci\<close>) and reading Ack, Nak and Reject. The cursor and \<open>expect\<close> are those
  of LCP's options.
\<close>

section \<open>Options\<close>

record ipcp_options =
  neg_addr :: bool
  old_addrs :: bool
  req_addr :: bool
  default_route :: bool
  proxy_arp :: bool
  neg_vj :: bool
  old_vj :: bool
  accept_local :: bool
  accept_remote :: bool
  vj_protocol :: u16
  maxslotindex :: u8
  cflag :: u8
  ouraddr :: u32
  hisaddr :: u32

definition zero_ipcp_options :: ipcp_options where
  "zero_ipcp_options = \<lparr>neg_addr = False, old_addrs = False, req_addr = False, default_route = False,
     proxy_arp = False, neg_vj = False, old_vj = False, accept_local = False, accept_remote = False,
     vj_protocol = 0, maxslotindex = 0, cflag = 0, ouraddr = 0, hisaddr = 0\<rparr>"

definition CI_ADDRS :: u8 where "CI_ADDRS = 1"
definition CI_COMPRESSTYPE :: u8 where "CI_COMPRESSTYPE = 2"
definition CI_ADDR :: u8 where "CI_ADDR = 3"

definition MAX_STATES :: u8 where "MAX_STATES = 16"
definition IPCP_VJ_COMP :: u16 where "IPCP_VJ_COMP = 0x002d"
definition IPCP_VJ_COMP_OLD :: u16 where "IPCP_VJ_COMP_OLD = 0x0037"

definition CILEN_COMPRESS :: nat where "CILEN_COMPRESS = 4"
definition CILEN_VJ :: nat where "CILEN_VJ = 6"
definition CILEN_ADDR :: nat where "CILEN_ADDR = 6"
definition CILEN_ADDRS :: nat where "CILEN_ADDRS = 10"

lemmas ipcp_cilen_defs = CILEN_COMPRESS_def CILEN_VJ_def CILEN_ADDR_def CILEN_ADDRS_def CILEN_VOID_def
lemmas ipcp_ci_defs = CI_ADDRS_def CI_COMPRESSTYPE_def CI_ADDR_def

text \<open>
  Addresses are kept in network byte order: on the little-endian targets \<^verbatim>\<open>ntohl\<close> and \<^verbatim>\<open>htonl\<close>
  reverse the bytes of a word. Nothing below depends on more than that they are inverse to
  each other.
\<close>

definition htonl :: "u32 \<Rightarrow> u32" where
  "htonl x = (case PUTLONG x of [a, b, c, d] \<Rightarrow> GETLONG d c b a | _ \<Rightarrow> 0)"

definition ntohl :: "u32 \<Rightarrow> u32" where
  "ntohl = htonl"

lemma PUTLONG_GETLONG: "PUTLONG (GETLONG a b c d) = [a, b, c, d]"
  using PUTLONG_eq_iff by blast

lemma htonl_htonl [simp]: "htonl (htonl x) = x"
proof -
  obtain a b c d where p: "PUTLONG x = [a, b, c, d]" by (simp add: PUTLONG_def)
  then have "x = GETLONG a b c d" by (simp add: PUTLONG_eq_iff)
  then show ?thesis using p by (simp add: htonl_def PUTLONG_GETLONG)
qed

lemma ntohl_htonl [simp]: "ntohl (htonl x) = x" "htonl (ntohl x) = x"
  by (simp_all add: ntohl_def)

lemma htonl_eq_iff: "htonl x = y \<longleftrightarrow> x = ntohl y"
  by (metis ntohl_htonl)

section \<open>Our request\<close>

definition LENCIVJ :: "bool \<Rightarrow> bool \<Rightarrow> nat" where
  "LENCIVJ neg old = (if neg then (if old then CILEN_COMPRESS else CILEN_VJ) else 0)"

definition LENCIADDR :: "bool \<Rightarrow> bool \<Rightarrow> nat" where
  "LENCIADDR neg old = (if neg then (if old then CILEN_ADDRS else CILEN_ADDR) else 0)"

definition ipcp_cilen :: "ipcp_options \<Rightarrow> nat" where
  "ipcp_cilen go = LENCIADDR (neg_addr go) (old_addrs go) + LENCIVJ (neg_vj go) (old_vj go)"

text \<open>
  The macros: the bytes, the room that is left and the new value of \<^verbatim>\<open>neg\<close>, which is cleared
  when there is no room.
\<close>

definition ADDCIVJ :: "u8 \<Rightarrow> bool \<Rightarrow> u16 \<Rightarrow> bool \<Rightarrow> u8 \<Rightarrow> u8 \<Rightarrow> nat \<Rightarrow> u8 list \<times> nat \<times> bool" where
  "ADDCIVJ opt neg val old slots cf len =
     (let vjlen = (if old then CILEN_COMPRESS else CILEN_VJ)
      in if \<not> neg then ([], len, neg)
         else if len \<ge> vjlen
         then ([opt, of_nat vjlen] @ PUTSHORT val @ (if old then [] else [slots, cf]), len - vjlen, neg)
         else ([], len, False))"

definition ADDCIADDR :: "u8 \<Rightarrow> bool \<Rightarrow> bool \<Rightarrow> u32 \<Rightarrow> u32 \<Rightarrow> nat \<Rightarrow> u8 list \<times> nat \<times> bool" where
  "ADDCIADDR opt neg old val1 val2 len =
     (let addrlen = (if old then CILEN_ADDRS else CILEN_ADDR)
      in if \<not> neg then ([], len, neg)
         else if len \<ge> addrlen
         then ([opt, of_nat addrlen] @ PUTLONG (ntohl val1) @ (if old then PUTLONG (ntohl val2) else []),
               len - addrlen, neg)
         else ([], len, False))"

text \<open>The change to the old forms at the beginning of \<open>ipcp_addci\<close>.\<close>

definition fall_back :: "int \<Rightarrow> ipcp_options \<Rightarrow> ipcp_options \<Rightarrow> ipcp_options \<Rightarrow> ipcp_options" where
  "fall_back cis wo ho go =
     (let go1 = (if neg_addr wo \<and> \<not> neg_addr go \<and> \<not> old_addrs go
                 then go\<lparr>neg_addr := True, old_addrs := True\<rparr> else go)
      in if neg_vj wo \<and> \<not> neg_vj go1 \<and> \<not> old_vj go1
         then if cis = 0 then go1\<lparr>neg_vj := True\<rparr>
              else if neg_vj ho \<and> old_vj ho
              then go1\<lparr>neg_vj := True, old_vj := True, vj_protocol := vj_protocol ho\<rparr>
              else go1
         else go1)"

definition addr_opt :: "ipcp_options \<Rightarrow> u8" where
  "addr_opt go = (if old_addrs go then CI_ADDRS else CI_ADDR)"

definition ipcp_addci :: "int \<Rightarrow> ipcp_options \<Rightarrow> ipcp_options \<Rightarrow> ipcp_options \<Rightarrow> nat
    \<Rightarrow> u8 list \<times> nat \<times> ipcp_options" where
  "ipcp_addci cis wo ho go0 len =
     (let go = fall_back cis wo ho go0;
          (b1, len1, na) = ADDCIADDR (addr_opt go) (neg_addr go) (old_addrs go) (ouraddr go) (hisaddr go) len;
          (b2, len2, nv) = ADDCIVJ CI_COMPRESSTYPE (neg_vj go) (vj_protocol go) (old_vj go)
                             (maxslotindex go) (cflag go) len1
      in (b1 @ b2, len - len2, go\<lparr>neg_addr := na, neg_vj := nv\<rparr>))"

section \<open>Acknowledgement\<close>

definition ACKCIVJ :: "u8 \<Rightarrow> bool \<Rightarrow> u16 \<Rightarrow> bool \<Rightarrow> u8 \<Rightarrow> u8 \<Rightarrow> cursor \<Rightarrow> cursor" where
  "ACKCIVJ opt neg val old slots cf c = Option.bind c (\<lambda>(p, len).
     let vjlen = (if old then CILEN_COMPRESS else CILEN_VJ)
     in if \<not> neg then Some (p, len)
        else if len < vjlen then None
        else if p ! 1 \<noteq> of_nat vjlen \<or> p ! 0 \<noteq> opt then None
        else if get_short (drop 2 p) \<noteq> val then None
        else if \<not> old \<and> (p ! 4 \<noteq> slots \<or> p ! 5 \<noteq> cf) then None
        else Some (drop vjlen p, len - vjlen))"

definition ACKCIADDR :: "u8 \<Rightarrow> bool \<Rightarrow> bool \<Rightarrow> u32 \<Rightarrow> u32 \<Rightarrow> cursor \<Rightarrow> cursor" where
  "ACKCIADDR opt neg old val1 val2 c = Option.bind c (\<lambda>(p, len).
     let addrlen = (if old then CILEN_ADDRS else CILEN_ADDR)
     in if \<not> neg then Some (p, len)
        else if len < addrlen then None
        else if p ! 1 \<noteq> of_nat addrlen \<or> p ! 0 \<noteq> opt then None
        else if val1 \<noteq> htonl (get_long (drop 2 p)) then None
        else if old \<and> val2 \<noteq> htonl (get_long (drop 6 p)) then None
        else Some (drop addrlen p, len - addrlen))"

definition ipcp_ackci :: "ipcp_options \<Rightarrow> u8 list \<Rightarrow> nat \<Rightarrow> bool" where
  "ipcp_ackci go p len =
     (case ACKCIVJ CI_COMPRESSTYPE (neg_vj go) (vj_protocol go) (old_vj go) (maxslotindex go) (cflag go)
             (ACKCIADDR (addr_opt go) (neg_addr go) (old_addrs go) (ouraddr go) (hisaddr go) (Some (p, len))) of
        None \<Rightarrow> False | Some (_, r) \<Rightarrow> r = 0)"

section \<open>Nak\<close>

record ipcp_nak =
  in_p :: "u8 list"
  in_len :: nat
  in_no :: ipcp_options
  in_try :: ipcp_options

text \<open>The two codes run for a Nakked option we asked for.\<close>

definition accept_addr :: "ipcp_options \<Rightarrow> u32 \<Rightarrow> u32 \<Rightarrow> ipcp_options \<Rightarrow> ipcp_options" where
  "accept_addr go a1 a2 t =
     (let t1 = (if accept_local go \<and> a1 \<noteq> 0 then t\<lparr>ouraddr := a1\<rparr> else t)
      in if accept_remote go \<and> a2 \<noteq> 0 then t1\<lparr>hisaddr := a2\<rparr> else t1)"

definition NAKCIADDR :: "ipcp_options \<Rightarrow> ipcp_nak \<Rightarrow> ipcp_nak" where
  "NAKCIADDR go s =
     (let p = in_p s; cilen = (if old_addrs go then CILEN_ADDRS else CILEN_ADDR)
      in if neg_addr go \<and> in_len s \<ge> cilen \<and> p ! 1 = of_nat cilen \<and> p ! 0 = CI_ADDR
         then let a1 = htonl (get_long (drop 2 p));
                  a2 = (if old_addrs go then htonl (get_long (drop 6 p)) else 0);
                  n1 = (if old_addrs go then (in_no s)\<lparr>old_addrs := True\<rparr> else in_no s)
              in \<lparr>in_p = drop cilen p, in_len = in_len s - cilen, in_no = n1\<lparr>neg_addr := True\<rparr>,
                  in_try = accept_addr go a1 a2 (in_try s)\<rparr>
         else s)"

definition nak_vj :: "ipcp_options \<Rightarrow> nat \<Rightarrow> u8 list \<Rightarrow> ipcp_options \<Rightarrow> ipcp_options" where
  "nak_vj go cilen p t =
     (let cishort = get_short (drop 2 p)
      in if cilen = CILEN_VJ
         then if cishort = IPCP_VJ_COMP
              then let t1 = t\<lparr>old_vj := False\<rparr>;
                       t2 = (if p ! 4 < maxslotindex go then t1\<lparr>maxslotindex := p ! 4\<rparr> else t1)
                   in (if p ! 5 = 0 then t2\<lparr>cflag := 0\<rparr> else t2)
              else t\<lparr>neg_vj := False\<rparr>
         else if cishort = IPCP_VJ_COMP \<or> cishort = IPCP_VJ_COMP_OLD
              then t\<lparr>old_vj := True, vj_protocol := cishort\<rparr>
              else t\<lparr>neg_vj := False\<rparr>)"

definition NAKCIVJ :: "ipcp_options \<Rightarrow> ipcp_nak \<Rightarrow> ipcp_nak" where
  "NAKCIVJ go s =
     (let p = in_p s; cilen = unat (p ! 1)
      in if neg_vj go \<and> (cilen = CILEN_COMPRESS \<or> cilen = CILEN_VJ) \<and> in_len s \<ge> cilen
            \<and> p ! 0 = CI_COMPRESSTYPE
         then \<lparr>in_p = drop cilen p, in_len = in_len s - cilen, in_no = (in_no s)\<lparr>neg_vj := True\<rparr>,
               in_try = nak_vj go cilen p (in_try s)\<rparr>
         else s)"

text \<open>
  The loop over options we did not ask for: \<open>None\<close> after \<^verbatim>\<open>goto bad\<close>. Every option it passes
  over has one of three lengths, so it always ends.
\<close>

definition ipcp_nak_option :: "ipcp_options \<Rightarrow> ipcp_nak \<Rightarrow> ipcp_nak option" where
  "ipcp_nak_option go s =
     (let p = in_p s; citype = p ! 0; cilen = unat (p ! 1); no = in_no s; t = in_try s;
          a1 = htonl (get_long (drop 2 p)); a2 = htonl (get_long (drop 6 p));
          s1 = s\<lparr>in_p := drop cilen p, in_len := in_len s - cilen\<rparr>
      in if in_len s < cilen then None
         else if citype = CI_COMPRESSTYPE then
           (if neg_vj go \<or> neg_vj no \<or> (cilen \<noteq> CILEN_VJ \<and> cilen \<noteq> CILEN_COMPRESS) then None
            else Some (s1\<lparr>in_no := no\<lparr>neg_vj := True\<rparr>\<rparr>))
         else if citype = CI_ADDRS then
           (if (neg_addr go \<and> old_addrs go) \<or> old_addrs no \<or> cilen \<noteq> CILEN_ADDRS then None
            else Some (s1\<lparr>in_no := no\<lparr>old_addrs := True\<rparr>,
                   in_try := accept_addr go a1 a2 (t\<lparr>neg_addr := True, old_addrs := True\<rparr>)\<rparr>))
         else if citype = CI_ADDR then
           (if neg_addr go \<or> neg_addr no \<or> cilen \<noteq> CILEN_ADDR then None
            else Some (s1\<lparr>in_no := no\<lparr>neg_addr := True\<rparr>,
                   in_try := accept_addr go a1 0 (t\<lparr>neg_addr := True, old_addrs := False\<rparr>)\<rparr>))
         else None)"

lemma ipcp_nak_option_less: "ipcp_nak_option go s = Some s' \<Longrightarrow> CILEN_VOID < in_len s \<Longrightarrow> in_len s' < in_len s"
  by (auto simp: ipcp_nak_option_def Let_def ipcp_cilen_defs split: if_splits)

function ipcp_nak_rest :: "ipcp_options \<Rightarrow> ipcp_nak \<Rightarrow> ipcp_options option" where
  "ipcp_nak_rest go s =
     (if in_len s \<le> CILEN_VOID then (if in_len s \<noteq> 0 then None else Some (in_try s))
      else case ipcp_nak_option go s of None \<Rightarrow> None | Some s' \<Rightarrow> ipcp_nak_rest go s')"
  by pat_completeness auto

termination
  by (relation "measure (\<lambda>(go, s). in_len s)") (auto intro: ipcp_nak_option_less)

declare ipcp_nak_rest.simps [simp del]

lemma ipcp_nak_rest_done: "in_len s = 0 \<Longrightarrow> ipcp_nak_rest go s = Some (in_try s)"
  by (simp add: ipcp_nak_rest.simps[of go s])

definition ipcp_nakci :: "bool \<Rightarrow> ipcp_options \<Rightarrow> u8 list \<Rightarrow> nat \<Rightarrow> bool \<times> ipcp_options" where
  "ipcp_nakci opened go p len =
     (case ipcp_nak_rest go (NAKCIVJ go (NAKCIADDR go
             \<lparr>in_p = p, in_len = len, in_no = zero_ipcp_options, in_try = go\<rparr>)) of
        None \<Rightarrow> (False, go)
      | Some t \<Rightarrow> (True, if opened then go else t))"

section \<open>Reject\<close>

text \<open>
  \<open>REJCIADDR\<close> calls \<open>die\<close> as soon as it has recognised the option, before it compares the
  addresses: \<open>rejects_addr\<close> says whether it does.
\<close>

definition rejects_addr :: "ipcp_options \<Rightarrow> u8 list \<Rightarrow> nat \<Rightarrow> bool" where
  "rejects_addr go p len \<longleftrightarrow>
     (let cilen = (if old_addrs go then CILEN_ADDRS else CILEN_ADDR)
      in neg_addr go \<and> len \<ge> cilen \<and> p ! 1 = of_nat cilen \<and> p ! 0 = addr_opt go)"

type_synonym ipcp_rej = "(u8 list \<times> nat \<times> ipcp_options) option"

definition REJCIADDR :: "ipcp_options \<Rightarrow> ipcp_rej \<Rightarrow> ipcp_rej" where
  "REJCIADDR go c = Option.bind c (\<lambda>(p, len, t).
     let cilen = (if old_addrs go then CILEN_ADDRS else CILEN_ADDR)
     in if rejects_addr go p len
        then if htonl (get_long (drop 2 p)) \<noteq> ouraddr go then None
             else if old_addrs go \<and> htonl (get_long (drop 6 p)) \<noteq> hisaddr go then None
             else Some (drop cilen p, len - cilen, t\<lparr>neg_addr := False\<rparr>)
        else Some (p, len, t))"

definition REJCIVJ :: "ipcp_options \<Rightarrow> ipcp_rej \<Rightarrow> ipcp_rej" where
  "REJCIVJ go c = Option.bind c (\<lambda>(p, len, t).
     let vjlen = (if old_vj go then CILEN_COMPRESS else CILEN_VJ)
     in if neg_vj go \<and> p ! 1 = of_nat vjlen \<and> len \<ge> unat (p ! 1) \<and> p ! 0 = CI_COMPRESSTYPE
        then if get_short (drop 2 p) \<noteq> vj_protocol go then None
             else if \<not> old_vj go \<and> (p ! 4 \<noteq> maxslotindex go \<or> p ! 5 \<noteq> cflag go) then None
             else Some (drop vjlen p, len - vjlen, t\<lparr>neg_vj := False\<rparr>)
        else Some (p, len, t))"

definition ipcp_rejci :: "bool \<Rightarrow> ipcp_options \<Rightarrow> u8 list \<Rightarrow> nat \<Rightarrow> bool \<times> ipcp_options" where
  "ipcp_rejci opened go p len =
     (case REJCIVJ go (REJCIADDR go (Some (p, len, go))) of
        Some (_, 0, t) \<Rightarrow> (True, if opened then go else t)
      | _ \<Rightarrow> (False, go))"

section \<open>What is sent and what is acknowledged\<close>

text \<open>The request for an option set, without regard to the room for it.\<close>

definition addr_ci :: "ipcp_options \<Rightarrow> u8 list" where
  "addr_ci go = fst (ADDCIADDR (addr_opt go) (neg_addr go) (old_addrs go) (ouraddr go) (hisaddr go) CILEN_ADDRS)"

definition vj_ci :: "ipcp_options \<Rightarrow> u8 list" where
  "vj_ci go = fst (ADDCIVJ CI_COMPRESSTYPE (neg_vj go) (vj_protocol go) (old_vj go) (maxslotindex go) (cflag go) CILEN_VJ)"

definition ipcp_request :: "ipcp_options \<Rightarrow> u8 list" where
  "ipcp_request go = addr_ci go @ vj_ci go"

lemma length_ipcp_request: "length (ipcp_request go) = ipcp_cilen go"
  by (simp add: ipcp_request_def addr_ci_def vj_ci_def ADDCIADDR_def ADDCIVJ_def ipcp_cilen_def LENCIADDR_def
      LENCIVJ_def ipcp_cilen_defs)

lemma ipcp_addci_request:
  assumes "ipcp_addci cis wo ho go len = (bs, n, go')"
  shows "bs = ipcp_request go'" and "n = length bs" and "length bs \<le> len"
  using assms
  by (auto simp: ipcp_addci_def Let_def ipcp_request_def addr_ci_def vj_ci_def ADDCIADDR_def ADDCIVJ_def
      addr_opt_def ipcp_cilen_defs split: if_splits)

lemma ACKCIADDR_expect:
  assumes "cursor_ok c"
  shows "ACKCIADDR (addr_opt go) (neg_addr go) (old_addrs go) (ouraddr go) (hisaddr go) c = expect (addr_ci go) c"
proof (cases c)
  case (Some pl)
  obtain p len where pl: "pl = (p, len)" by force
  have len: "len \<le> length p" using assms by (simp add: cursor_ok_def Some pl)
  let ?a = "ntohl (ouraddr go)" and ?b = "ntohl (hisaddr go)"
  have one: "take 4 (drop 2 p) = PUTLONG ?a \<longleftrightarrow> get_long (drop 2 p) = ?a" if "6 \<le> len"
    using that len take_drop_long[of 2 p ?a] by simp
  have two: "take 8 (drop 2 p) = PUTLONG ?a @ PUTLONG ?b \<longleftrightarrow> get_long (drop 2 p) = ?a \<and> get_long (drop 6 p) = ?b"
    if "10 \<le> len"
    using that len take_split[of "PUTLONG ?a" 4 4 "drop 2 p" "PUTLONG ?b"] take_drop_long[of 2 p ?a]
      take_drop_long[of 6 p ?b] by simp
  have h: "v = htonl x \<longleftrightarrow> x = ntohl v" for v x by (auto simp: ntohl_def)
  show ?thesis
    using one two len
    by (cases "old_addrs go") (auto simp: Some pl ACKCIADDR_def addr_ci_def ADDCIADDR_def ipcp_cilen_defs
        expect_ci[where n = 4] expect_ci[where n = 8] Let_def h)
qed (simp add: ACKCIADDR_def expect_def)

lemma ACKCIVJ_expect:
  "cursor_ok c \<Longrightarrow> ACKCIVJ CI_COMPRESSTYPE (neg_vj go) (vj_protocol go) (old_vj go) (maxslotindex go) (cflag go) c
     = expect (vj_ci go) c"
proof (cases c)
  case (Some pl)
  moreover obtain p len where pl: "pl = (p, len)" by force
  moreover have "take 2 (drop 2 p) = PUTSHORT v \<longleftrightarrow> get_short (drop 2 p) = v" if "4 \<le> length p" for v
    using that take_drop_short[of 2 p v] by simp
  moreover have "take 4 (drop 2 p) = PUTSHORT v @ [a, b] \<longleftrightarrow> get_short (drop 2 p) = v \<and> p ! 4 = a \<and> p ! 5 = b"
    if "6 \<le> length p" for v a b
  proof -
    have "take 2 (drop 4 p) = [p ! 4, p ! 5]"
      using that by (auto simp: numeral_2_eq_2 take_Suc_conv_app_nth)
    then show ?thesis using that take_split[of "PUTSHORT v" 2 2 "drop 2 p" "[a, b]"] take_drop_short[of 2 p v] by auto
  qed
  moreover assume "cursor_ok c"
  ultimately show ?thesis
    by (auto simp: ACKCIVJ_def vj_ci_def ADDCIVJ_def cursor_ok_def ipcp_cilen_defs expect_ci[where n = 2]
        expect_ci[where n = 4] Let_def)
qed (simp add: ACKCIVJ_def expect_def)

text \<open>All bytes expected and none left over: the two are equal.\<close>

lemma expect_all:
  assumes "len \<le> length p"
  shows "(case expect bs (Some (p, len)) of None \<Rightarrow> False | Some (_, r) \<Rightarrow> r = 0) \<longleftrightarrow> take len p = bs"
proof
  assume "take len p = bs"
  moreover from this assms have "length bs = len" by (metis length_take min.absorb2)
  ultimately show "case expect bs (Some (p, len)) of None \<Rightarrow> False | Some (_, r) \<Rightarrow> r = 0" by (simp add: expect_def)
qed (auto simp: expect_def split: if_splits)

lemma ipcp_ackci_accepts: "len \<le> length p \<Longrightarrow> ipcp_ackci go p len \<longleftrightarrow> take len p = ipcp_request go"
proof -
  assume len: "len \<le> length p"
  then have ok: "cursor_ok (Some (p, len))" by (simp add: cursor_ok_def)
  show ?thesis
    by (simp add: ipcp_ackci_def ACKCIADDR_expect[OF ok] ACKCIVJ_expect[OF cursor_ok_expect[OF ok]] expect_append
        ipcp_request_def[symmetric] expect_all[OF len])
qed

text \<open>
  C22: IPCP accepts an acknowledgement exactly when it repeats the request that was sent:
  whatever options \<open>ipcp_addci\<close> dropped for lack of room or changed to the old forms, the
  bytes it wrote, and nothing else, are accepted by \<open>ipcp_ackci\<close> afterwards, and the length
  it reports is their number.
\<close>

theorem ipcp_ack_of_request:
  assumes "ipcp_addci cis wo ho go room = (bs, n, go')" and "len \<le> length p"
  shows "n = length bs \<and> n \<le> room \<and> (ipcp_ackci go' p len \<longleftrightarrow> take len p = bs)"
  using ipcp_addci_request[OF assms(1)] ipcp_ackci_accepts[OF assms(2), of go'] by simp

theorem ipcp_ack_of_request_witness:
  "ipcp_ackci (zero_ipcp_options\<lparr>neg_addr := True\<rparr>) [3, 6, 0, 0, 0, 0] 6"
proof -
  have z: "PUTLONG (ntohl 0) = [0, 0, 0, 0]" by (simp add: ntohl_def htonl_def PUTLONG_def GETLONG_def)
  have "ipcp_addci 0 zero_ipcp_options zero_ipcp_options (zero_ipcp_options\<lparr>neg_addr := True\<rparr>) 6 =
      ([3, 6, 0, 0, 0, 0], 6, zero_ipcp_options\<lparr>neg_addr := True\<rparr>)"
    by (simp add: ipcp_addci_def fall_back_def zero_ipcp_options_def ADDCIADDR_def ADDCIVJ_def addr_opt_def
        ipcp_cilen_defs ipcp_ci_defs z)
  from ipcp_ack_of_request[OF this, of 6 "[3, 6, 0, 0, 0, 0]"] show ?thesis by simp
qed

lemma fall_back_addr:
  assumes "neg_addr wo" and "\<not> neg_addr go" and "\<not> old_addrs go"
    and "ipcp_addci cis wo ho go (ipcp_cilen go) = (bs, n, go')"
  shows "\<not> neg_addr go' \<and> old_addrs go' \<and> addr_ci go' = []"
  using assms
  by (auto simp: ipcp_addci_def fall_back_def Let_def ADDCIADDR_def ADDCIVJ_def addr_ci_def ipcp_cilen_def
      LENCIADDR_def LENCIVJ_def ipcp_cilen_defs split: if_splits)

lemma no_fall_back:
  assumes "\<not> neg_addr go" and "old_addrs go" and "ipcp_addci cis wo ho go room = (bs, n, go')"
  shows "\<not> neg_addr go' \<and> old_addrs go' \<and> addr_ci go' = []"
  using assms
  by (auto simp: ipcp_addci_def fall_back_def Let_def ADDCIADDR_def ADDCIVJ_def addr_ci_def
      ipcp_cilen_defs split: if_splits)

text \<open>
  The change to the old form of the address option never reaches the peer: the length of
  the request is computed before the change, so there is no room for the old form, the
  option is dropped again, and the mark that it was tried stays. From then on the address
  is never asked for.
\<close>

theorem ipcp_old_addrs_never_sent:
  assumes "neg_addr wo" and "\<not> neg_addr go" and "\<not> old_addrs go"
    and "ipcp_addci cis wo ho go (ipcp_cilen go) = (bs, n, go')"
    and "ipcp_addci cis' wo ho' go' room = (bs', n', go'')"
  shows "bs = vj_ci go' \<and> bs' = vj_ci go'' \<and> \<not> neg_addr go'' \<and> old_addrs go''"
proof -
  have f: "\<not> neg_addr go'" "old_addrs go'" "addr_ci go' = []" using fall_back_addr[OF assms(1-4)] by simp_all
  show ?thesis using f ipcp_addci_request(1)[OF assms(4)] ipcp_addci_request(1)[OF assms(5)]
      no_fall_back[OF f(1,2) assms(5)] by (simp add: ipcp_request_def)
qed

theorem ipcp_old_addrs_never_sent_witness:
  "ipcp_addci 0 (zero_ipcp_options\<lparr>neg_addr := True\<rparr>) zero_ipcp_options zero_ipcp_options 0 =
     ([], 0, zero_ipcp_options\<lparr>old_addrs := True\<rparr>)
   \<and> vj_ci (zero_ipcp_options\<lparr>old_addrs := True\<rparr>) = []"
proof -
  let ?wo = "zero_ipcp_options\<lparr>neg_addr := True\<rparr>" and ?g = "zero_ipcp_options\<lparr>old_addrs := True\<rparr>"
  have r: "ipcp_addci 0 ?wo zero_ipcp_options zero_ipcp_options 0 = ([], 0, ?g)"
    "ipcp_addci 0 ?wo zero_ipcp_options ?g 0 = ([], 0, ?g)"
    by (simp_all add: ipcp_addci_def fall_back_def zero_ipcp_options_def ADDCIADDR_def ADDCIVJ_def ipcp_cilen_defs)
  have c: "ipcp_cilen zero_ipcp_options = 0"
    by (simp add: ipcp_cilen_def LENCIADDR_def LENCIVJ_def zero_ipcp_options_def)
  show ?thesis using ipcp_old_addrs_never_sent[of ?wo zero_ipcp_options 0 zero_ipcp_options "[]" 0 ?g 0
        zero_ipcp_options 0 "[]" 0 ?g] r c by (simp add: zero_ipcp_options_def)
qed

section \<open>Nak and Reject\<close>

definition nak_allows :: "ipcp_options \<Rightarrow> ipcp_options \<Rightarrow> bool" where
  "nak_allows go t \<longleftrightarrow>
     (ouraddr t = ouraddr go \<or> accept_local go \<and> ouraddr t \<noteq> 0)
     \<and> (hisaddr t = hisaddr go \<or> accept_remote go \<and> hisaddr t \<noteq> 0)
     \<and> maxslotindex t \<le> maxslotindex go \<and> (cflag t = cflag go \<or> cflag t = 0)
     \<and> (neg_vj t \<longrightarrow> neg_vj go) \<and> vj_protocol t \<in> {vj_protocol go, IPCP_VJ_COMP, IPCP_VJ_COMP_OLD}"

lemma nak_allows_addr:
  "nak_allows go t \<Longrightarrow> nak_allows go (accept_addr go a1 a2 t)"
  "nak_allows go t \<Longrightarrow> nak_allows go (accept_addr go a1 a2 (t\<lparr>neg_addr := x, old_addrs := y\<rparr>))"
  by (simp_all add: nak_allows_def accept_addr_def Let_def)

lemma nak_allows_vj: "nak_allows go t \<Longrightarrow> nak_allows go (nak_vj go n p t)"
  by (auto simp: nak_allows_def nak_vj_def Let_def)

lemma nak_option_allows:
  "nak_allows go (in_try s) \<Longrightarrow> ipcp_nak_option go s = Some s' \<Longrightarrow> nak_allows go (in_try s')"
  using nak_allows_addr(2)[of go "in_try s"] by (auto simp: ipcp_nak_option_def Let_def split: if_splits)

lemma nak_rest_allows:
  "nak_allows go (in_try s) \<Longrightarrow> ipcp_nak_rest go s = Some t \<Longrightarrow> nak_allows go t"
proof (induction go s rule: ipcp_nak_rest.induct)
  case (1 go s)
  from 1(3) show ?case
    by (subst (asm) ipcp_nak_rest.simps)
      (use 1(1,2) nak_option_allows in \<open>auto split: if_splits option.splits\<close>)
qed

text \<open>
  What the peer can achieve with a Nak. Our address changes only if we were configured to
  accept one, and then to a non-zero address the peer sent; the same for the peer's
  address; the number of slots only falls, slot compression is only turned off, compression
  is not asked for if it was not before and only with a protocol we know. A bad Nak, and
  every Nak in \<open>OPENED\<close>, changes nothing.
\<close>

theorem ipcp_nakci_allows:
  assumes "ipcp_nakci opened go p len = (good, go')"
  shows "nak_allows go go' \<and> (\<not> good \<or> opened \<longrightarrow> go' = go)"
proof -
  have "nak_allows go go" by (simp add: nak_allows_def)
  then have "nak_allows go (in_try (NAKCIVJ go (NAKCIADDR go
      \<lparr>in_p = p, in_len = len, in_no = zero_ipcp_options, in_try = go\<rparr>)))"
    by (simp add: NAKCIVJ_def NAKCIADDR_def Let_def nak_allows_addr nak_allows_vj)
  from nak_rest_allows[OF this] show ?thesis
    using assms \<open>nak_allows go go\<close> by (auto simp: ipcp_nakci_def split: option.splits if_splits)
qed

theorem ipcp_nakci_allows_witness:
  "nak_allows (zero_ipcp_options\<lparr>neg_vj := True, maxslotindex := 15\<rparr>)
     (zero_ipcp_options\<lparr>neg_vj := True, maxslotindex := 7\<rparr>)"
proof -
  have "ipcp_nakci False (zero_ipcp_options\<lparr>neg_vj := True, maxslotindex := 15\<rparr>) [2, 6, 0, 0x2d, 7, 0] 6 =
      (True, zero_ipcp_options\<lparr>neg_vj := True, maxslotindex := 7\<rparr>)"
    by (simp add: ipcp_nakci_def NAKCIADDR_def NAKCIVJ_def nak_vj_def zero_ipcp_options_def ipcp_cilen_defs
        ipcp_ci_defs get_short_def GETSHORT_def IPCP_VJ_COMP_def ipcp_nak_rest_done)
  from ipcp_nakci_allows[OF this] show ?thesis by simp
qed

text \<open>The macros of a Reject as \<open>expect\<close>: they consume exactly what the request holds for the option.\<close>

lemma REJCIADDR_sound:
  assumes "len \<le> length p" and "REJCIADDR go (Some (p, len, t)) = Some (q, n, t')"
  shows "n \<le> length q \<and> (if rejects_addr go p len
    then take len p = addr_ci go @ take n q \<and> t' = t\<lparr>neg_addr := False\<rparr>
    else q = p \<and> n = len \<and> t' = t)"
proof (cases "rejects_addr go p len")
  case True
  then have e: "expect (addr_ci go) (Some (p, len)) = Some (q, n)" and "t' = t\<lparr>neg_addr := False\<rparr>"
    using assms(2) ACKCIADDR_expect[of "Some (p, len)" go] assms(1)
    by (auto simp: REJCIADDR_def ACKCIADDR_def rejects_addr_def cursor_ok_def Let_def split: if_splits)
  then have c: "length (addr_ci go) \<le> len" "take (length (addr_ci go)) p = addr_ci go"
    "q = drop (length (addr_ci go)) p" "n = len - length (addr_ci go)"
    by (auto simp: expect_def split: if_splits)
  then have "take len p = addr_ci go @ take n q" by (metis le_add_diff_inverse take_add)
  then show ?thesis using True c assms(1) \<open>t' = _\<close> by simp
next
  case False
  then show ?thesis using assms by (simp add: REJCIADDR_def)
qed

lemma REJCIVJ_sound:
  assumes "len \<le> length p" and "REJCIVJ go (Some (p, len, t)) = Some (q, n, t')"
  shows "\<exists>r. (r \<longrightarrow> neg_vj go) \<and> take len p = (if r then vj_ci go else []) @ take n q
    \<and> t' = (if r then t\<lparr>neg_vj := False\<rparr> else t)"
proof (cases "neg_vj go \<and> p ! 1 = of_nat (if old_vj go then CILEN_COMPRESS else CILEN_VJ)
    \<and> len \<ge> unat (p ! 1) \<and> p ! 0 = CI_COMPRESSTYPE")
  case True
  then have e: "expect (vj_ci go) (Some (p, len)) = Some (q, n)" and t': "t' = t\<lparr>neg_vj := False\<rparr>"
    using assms(2) ACKCIVJ_expect[of "Some (p, len)" go] assms(1)
    by (auto simp: REJCIVJ_def ACKCIVJ_def cursor_ok_def Let_def ipcp_cilen_defs split: if_splits)
  then have c: "length (vj_ci go) \<le> len" "take (length (vj_ci go)) p = vj_ci go"
    "q = drop (length (vj_ci go)) p" "n = len - length (vj_ci go)"
    by (auto simp: expect_def split: if_splits)
  then have "take len p = vj_ci go @ take n q" by (metis le_add_diff_inverse take_add)
  then show ?thesis using True t' by (intro exI[of _ True]) simp
next
  case False
  then have "q = p \<and> n = len \<and> t' = t" using assms by (auto simp: REJCIVJ_def Let_def)
  then show ?thesis by (intro exI[of _ False]) simp
qed

text \<open>
  IPCP accepts a Reject only when it repeats the request for the address option, the
  compression option or both, in this order; exactly these are not asked for again, and
  nothing else changes. A bad Reject, and any Reject in \<open>OPENED\<close>, changes nothing.
\<close>

theorem ipcp_rejci_sound:
  assumes "ipcp_rejci opened go p len = (good, go')" and "len \<le> length p"
  shows "(good \<longrightarrow> (\<exists>a v. (a \<longrightarrow> neg_addr go) \<and> (v \<longrightarrow> neg_vj go)
        \<and> take len p = (if a then addr_ci go else []) @ (if v then vj_ci go else [])
        \<and> go' = (if opened then go else go\<lparr>neg_addr := neg_addr go \<and> \<not> a, neg_vj := neg_vj go \<and> \<not> v\<rparr>)))
    \<and> (\<not> good \<longrightarrow> go' = go)"
proof (cases good)
  case True
  then obtain q1 n1 t1 q t where s: "REJCIADDR go (Some (p, len, go)) = Some (q1, n1, t1)"
    "REJCIVJ go (Some (q1, n1, t1)) = Some (q, 0, t)" "go' = (if opened then go else t)"
    using assms(1)
    by (cases "REJCIADDR go (Some (p, len, go))")
      (auto simp: ipcp_rejci_def REJCIVJ_def split: option.splits prod.splits nat.splits if_splits)
  let ?a = "rejects_addr go p len"
  have a: "n1 \<le> length q1" "?a \<longrightarrow> neg_addr go" "take len p = (if ?a then addr_ci go else []) @ take n1 q1"
    "t1 = (if ?a then go\<lparr>neg_addr := False\<rparr> else go)"
    using REJCIADDR_sound[OF assms(2) s(1)] by (auto simp: rejects_addr_def Let_def split: if_splits)
  obtain v where "v \<longrightarrow> neg_vj go" "take n1 q1 = (if v then vj_ci go else [])"
    "t = (if v then t1\<lparr>neg_vj := False\<rparr> else t1)"
    using REJCIVJ_sound[OF a(1) s(2)] by auto
  then show ?thesis using True a s(3) by (intro conjI impI exI[of _ ?a] exI[of _ v]) auto
next
  case False
  then show ?thesis using assms(1) by (auto simp: ipcp_rejci_def split: option.splits prod.splits nat.splits)
qed

theorem ipcp_rejci_sound_witness:
  "\<exists>a v. take 4 [2, 4, 0, 0x2d] = (if a then addr_ci (zero_ipcp_options\<lparr>neg_vj := True, old_vj := True, vj_protocol := 0x2d\<rparr>) else [])
    @ (if v then vj_ci (zero_ipcp_options\<lparr>neg_vj := True, old_vj := True, vj_protocol := 0x2d\<rparr>) else [])"
proof -
  let ?go = "zero_ipcp_options\<lparr>neg_vj := True, old_vj := True, vj_protocol := 0x2d\<rparr>"
  have "ipcp_rejci False ?go [2, 4, 0, 0x2d] 4 = (True, ?go\<lparr>neg_vj := False\<rparr>)"
    by (simp add: ipcp_rejci_def REJCIADDR_def REJCIVJ_def rejects_addr_def zero_ipcp_options_def ipcp_cilen_defs
        ipcp_ci_defs get_short_def GETSHORT_def)
  moreover have "4 \<le> length [2, 4, 0, 0x2d :: u8]" by simp
  ultimately show ?thesis using ipcp_rejci_sound by blast
qed

end
