(* ===== verification/Ppp_Ipcp_Reqci.thy ===== *)
theory Ppp_Ipcp_Reqci
  imports Ppp_Ipcp_Options Ppp_Lcp_Reqci
begin

text \<open>
  \<open>ipcp_reqci\<close>: judging the peer's Configure-Request. The options of the answer are collected
  at the beginning of the request's own buffer, hints for a Nak being written into the option
  first. The specification is again one pass over the list of options.
\<close>

section \<open>One option\<close>

text \<open>The verdict, the peer's and our options afterwards, and the option with the hints written into it.\<close>

record ipcp_verdict =
  iv_orc :: u8
  iv_ho :: ipcp_options
  iv_go :: ipcp_options
  iv_ci :: "u8 list"

definition hint :: "bool \<Rightarrow> bool \<Rightarrow> nat \<Rightarrow> u8 list \<Rightarrow> u8 list \<Rightarrow> u8 list" where
  "hint bad rid off bs c = (if bad \<and> \<not> rid then poke c off bs else c)"

definition bad_remote :: "ipcp_options \<Rightarrow> u32 \<Rightarrow> bool" where
  "bad_remote wo a \<longleftrightarrow> a \<noteq> hisaddr wo \<and> (a = 0 \<or> \<not> accept_remote wo)"

definition bad_local :: "ipcp_options \<Rightarrow> u32 \<Rightarrow> bool" where
  "bad_local wo a \<longleftrightarrow> a \<noteq> ouraddr wo \<and> (a = 0 \<or> \<not> accept_local wo)"

definition reqci_addrs :: "ipcp_options \<Rightarrow> ipcp_options \<Rightarrow> bool \<Rightarrow> u8 list \<Rightarrow> ipcp_options \<Rightarrow> ipcp_options
    \<Rightarrow> ipcp_verdict" where
  "reqci_addrs wo ao rid c ho go =
     (if \<not> neg_addr ao \<or> length c \<noteq> CILEN_ADDRS then \<lparr>iv_orc = CONFREJ, iv_ho = ho, iv_go = go, iv_ci = c\<rparr>
      else
        let a1 = htonl (get_long (drop 2 c)); a2 = htonl (get_long (drop 6 c));
            c1 = hint (bad_remote wo a1) rid 2 (PUTLONG (ntohl (hisaddr wo))) c;
            c2 = hint (bad_local wo a2) rid 6 (PUTLONG (ntohl (ouraddr wo))) c1
        in \<lparr>iv_orc = (if bad_remote wo a1 \<or> bad_local wo a2 then CONFNAK else CONFACK),
            iv_ho = ho\<lparr>neg_addr := True, old_addrs := True, hisaddr := a1, ouraddr := a2\<rparr>,
            iv_go = (if a2 \<noteq> ouraddr wo \<and> \<not> bad_local wo a2 then go\<lparr>ouraddr := a2\<rparr> else go),
            iv_ci = c2\<rparr>)"

definition reqci_addr :: "ipcp_options \<Rightarrow> ipcp_options \<Rightarrow> bool \<Rightarrow> u8 list \<Rightarrow> ipcp_options \<Rightarrow> ipcp_options
    \<Rightarrow> ipcp_verdict" where
  "reqci_addr wo ao rid c ho go =
     (if \<not> neg_addr ao \<or> length c \<noteq> CILEN_ADDR then \<lparr>iv_orc = CONFREJ, iv_ho = ho, iv_go = go, iv_ci = c\<rparr>
      else
        let a1 = htonl (get_long (drop 2 c))
        in \<lparr>iv_orc = (if bad_remote wo a1 then CONFNAK else CONFACK),
            iv_ho = ho\<lparr>neg_addr := True, hisaddr := a1\<rparr>, iv_go = go,
            iv_ci = hint (bad_remote wo a1) rid 2 (PUTLONG (ntohl (hisaddr wo))) c\<rparr>)"

definition reqci_compress :: "ipcp_options \<Rightarrow> ipcp_options \<Rightarrow> bool \<Rightarrow> u8 list \<Rightarrow> ipcp_options \<Rightarrow> ipcp_options
    \<Rightarrow> ipcp_verdict" where
  "reqci_compress wo ao rid c ho go =
     (let cilen = length c; cishort = get_short (drop 2 c)
      in if \<not> neg_vj ao \<or> (cilen \<noteq> CILEN_VJ \<and> cilen \<noteq> CILEN_COMPRESS)
            \<or> \<not> (cishort = IPCP_VJ_COMP \<or> (cishort = IPCP_VJ_COMP_OLD \<and> cilen = CILEN_COMPRESS))
         then \<lparr>iv_orc = CONFREJ, iv_ho = ho, iv_go = go, iv_ci = c\<rparr>
         else
           let ho1 = ho\<lparr>neg_vj := True, vj_protocol := cishort\<rparr>
           in if cilen = CILEN_VJ
              then let bad1 = c ! 4 > maxslotindex ao; bad2 = c ! 5 \<noteq> 0 \<and> cflag ao = 0;
                       c1 = hint bad1 rid 4 [maxslotindex ao] c
                   in \<lparr>iv_orc = (if bad1 \<or> bad2 then CONFNAK else CONFACK),
                       iv_ho = ho1\<lparr>maxslotindex := c ! 4, cflag := cflag wo\<rparr>, iv_go = go,
                       iv_ci = hint bad2 rid 5 [cflag wo] c1\<rparr>
              else \<lparr>iv_orc = CONFACK, iv_ho = ho1\<lparr>old_vj := True, maxslotindex := MAX_STATES - 1, cflag := 1\<rparr>,
                    iv_go = go, iv_ci = c\<rparr>)"

definition ipcp_option :: "ipcp_options \<Rightarrow> ipcp_options \<Rightarrow> bool \<Rightarrow> u8 list \<Rightarrow> ipcp_options \<Rightarrow> ipcp_options
    \<Rightarrow> ipcp_verdict" where
  "ipcp_option wo ao rid c ho go =
     (if c ! 0 = CI_ADDRS then reqci_addrs wo ao rid c ho go
      else if c ! 0 = CI_ADDR then reqci_addr wo ao rid c ho go
      else if c ! 0 = CI_COMPRESSTYPE then reqci_compress wo ao rid c ho go
      else \<lparr>iv_orc = CONFREJ, iv_ho = ho, iv_go = go, iv_ci = c\<rparr>)"

section \<open>The loop\<close>

record ipcp_req =
  iq_buf :: "u8 list"
  iq_next :: nat
  iq_left :: nat
  iq_ucp :: nat
  iq_rc :: u8
  iq_ho :: ipcp_options
  iq_go :: ipcp_options

text \<open>From \<^verbatim>\<open>endswitch\<close> on, for the option of length \<open>cilen\<close> at offset \<open>cip\<close>.\<close>

definition ipcp_endswitch :: "bool \<Rightarrow> u8 \<Rightarrow> nat \<Rightarrow> nat \<Rightarrow> ipcp_req \<Rightarrow> ipcp_req" where
  "ipcp_endswitch rid orc0 cip cilen s =
     (if orc0 = CONFACK \<and> iq_rc s \<noteq> CONFACK then s
      else if orc0 = CONFNAK \<and> \<not> rid \<and> iq_rc s = CONFREJ then s
      else
        let orc = (if orc0 = CONFNAK \<and> rid then CONFREJ else orc0);
            s1 = (if orc = CONFNAK \<and> iq_rc s = CONFACK then s\<lparr>iq_rc := CONFNAK, iq_ucp := 0\<rparr> else s);
            s2 = (if orc = CONFREJ \<and> iq_rc s1 \<noteq> CONFREJ then s1\<lparr>iq_rc := CONFREJ, iq_ucp := 0\<rparr> else s1);
            buf = (if iq_ucp s2 \<noteq> cip then poke (iq_buf s2) (iq_ucp s2) (take cilen (drop cip (iq_buf s2)))
                   else iq_buf s2)
        in s2\<lparr>iq_buf := buf, iq_ucp := iq_ucp s2 + cilen\<rparr>)"

definition ipcp_step :: "ipcp_options \<Rightarrow> ipcp_options \<Rightarrow> bool \<Rightarrow> ipcp_req \<Rightarrow> ipcp_req" where
  "ipcp_step wo ao rid s =
     (let cip = iq_next s; p = drop cip (iq_buf s); l = iq_left s
      in if l < 2 \<or> unat (p ! 1) < 2 \<or> unat (p ! 1) > l
         then ipcp_endswitch rid CONFREJ cip (unat (of_nat l :: u16)) (s\<lparr>iq_left := 0\<rparr>)
         else let cilen = unat (p ! 1);
                  v = ipcp_option wo ao rid (take cilen p) (iq_ho s) (iq_go s)
              in ipcp_endswitch rid (iv_orc v) cip cilen
                   (s\<lparr>iq_left := l - cilen, iq_next := cip + cilen, iq_buf := poke (iq_buf s) cip (iv_ci v),
                      iq_ho := iv_ho v, iq_go := iv_go v\<rparr>))"

lemma iq_left_endswitch [simp]: "iq_left (ipcp_endswitch rid orc cip n s) = iq_left s"
  by (simp add: ipcp_endswitch_def Let_def)

lemma ipcp_step_progress: "iq_left s \<noteq> 0 \<Longrightarrow> iq_left (ipcp_step wo ao rid s) < iq_left s"
  by (auto simp: ipcp_step_def Let_def)

function ipcp_loop :: "ipcp_options \<Rightarrow> ipcp_options \<Rightarrow> bool \<Rightarrow> ipcp_req \<Rightarrow> ipcp_req" where
  "ipcp_loop wo ao rid s = (if iq_left s = 0 then s else ipcp_loop wo ao rid (ipcp_step wo ao rid s))"
  by pat_completeness auto

termination
  by (relation "measure (\<lambda>(_, _, _, s). iq_left s)") (simp_all add: ipcp_step_progress)

declare ipcp_loop.simps [simp del]

text \<open>
  The end: when the peer did not send its address and we want to know it, a Nak with a
  \<^verbatim>\<open>CI_ADDR\<close> option is made, or the option is added to the Nak. The result is the code, the
  buffer, the length of the answer, the peer's, our and the wanted options.
\<close>

definition ipcp_reqci :: "ipcp_options \<Rightarrow> ipcp_options \<Rightarrow> ipcp_options \<Rightarrow> u8 list \<Rightarrow> nat \<Rightarrow> bool
    \<Rightarrow> u8 \<times> u8 list \<times> nat \<times> ipcp_options \<times> ipcp_options \<times> ipcp_options" where
  "ipcp_reqci wo ao go inp len rid =
     (let s = ipcp_loop wo ao rid \<lparr>iq_buf = inp, iq_next = 0, iq_left = len, iq_ucp = 0, iq_rc = CONFACK,
                iq_ho = zero_ipcp_options, iq_go = go\<rparr>
      in if iq_rc s \<noteq> CONFREJ \<and> \<not> neg_addr (iq_ho s) \<and> req_addr wo \<and> \<not> rid
         then let wo' = (if iq_rc s = CONFACK then wo\<lparr>req_addr := False\<rparr> else wo);
                  ucp = (if iq_rc s = CONFACK then 0 else iq_ucp s)
              in (CONFNAK, poke (iq_buf s) ucp ([CI_ADDR, of_nat CILEN_ADDR] @ PUTLONG (ntohl (hisaddr wo))),
                  ucp + CILEN_ADDR, iq_ho s, iq_go s, wo')
         else (iq_rc s, iq_buf s, iq_ucp s, iq_ho s, iq_go s, wo))"

section \<open>The specification\<close>

record ipcp_acc =
  ia_rc :: u8
  ia_out :: "u8 list"
  ia_ho :: ipcp_options
  ia_go :: ipcp_options

definition ipcp_judge :: "ipcp_options \<Rightarrow> ipcp_options \<Rightarrow> bool \<Rightarrow> u8 list \<Rightarrow> ipcp_options \<Rightarrow> ipcp_options
    \<Rightarrow> ipcp_verdict" where
  "ipcp_judge wo ao rid c ho go =
     (if wf_ci c then ipcp_option wo ao rid c ho go
      else \<lparr>iv_orc = CONFREJ, iv_ho = ho, iv_go = go, iv_ci = c\<rparr>)"

text \<open>The severity of a verdict decides: a worse one discards what was collected before.\<close>

definition severity :: "u8 \<Rightarrow> nat" where
  "severity code = (if code = CONFACK then 0 else if code = CONFNAK then 1 else 2)"

definition ipcp_collect :: "bool \<Rightarrow> ipcp_acc \<Rightarrow> u8 \<Rightarrow> u8 list \<Rightarrow> ipcp_acc" where
  "ipcp_collect rid acc orc c =
     (let code = (if orc = CONFNAK \<and> rid then CONFREJ else orc)
      in if severity code < severity (ia_rc acc) then acc
         else if severity code = severity (ia_rc acc) then acc\<lparr>ia_out := ia_out acc @ c\<rparr>
         else acc\<lparr>ia_rc := code, ia_out := c\<rparr>)"

definition ipcp_spec_step :: "ipcp_options \<Rightarrow> ipcp_options \<Rightarrow> bool \<Rightarrow> ipcp_acc \<Rightarrow> u8 list \<Rightarrow> ipcp_acc" where
  "ipcp_spec_step wo ao rid acc c =
     (let v = ipcp_judge wo ao rid c (ia_ho acc) (ia_go acc)
      in ipcp_collect rid (acc\<lparr>ia_ho := iv_ho v, ia_go := iv_go v\<rparr>) (iv_orc v) (iv_ci v))"

definition ipcp_pass :: "ipcp_options \<Rightarrow> ipcp_options \<Rightarrow> bool \<Rightarrow> ipcp_options \<Rightarrow> u8 list \<Rightarrow> ipcp_acc" where
  "ipcp_pass wo ao rid go request =
     foldl (ipcp_spec_step wo ao rid)
       \<lparr>ia_rc = CONFACK, ia_out = [], ia_ho = zero_ipcp_options, ia_go = go\<rparr> (split_cis request)"

section \<open>The loop implements the specification\<close>

lemma ipcp_option_rule:
  assumes "P (reqci_addrs wo ao rid c ho go)" and "P (reqci_addr wo ao rid c ho go)"
    and "P (reqci_compress wo ao rid c ho go)"
    and "P \<lparr>iv_orc = CONFREJ, iv_ho = ho, iv_go = go, iv_ci = c\<rparr>"
  shows "P (ipcp_option wo ao rid c ho go)"
  unfolding ipcp_option_def using assms by simp

lemmas ipcp_option_defs = reqci_addrs_def reqci_addr_def reqci_compress_def hint_def

lemma ipcp_verdict_codes: "iv_orc (ipcp_option wo ao rid c ho go) \<in> {CONFACK, CONFNAK, CONFREJ}"
  by (rule ipcp_option_rule) (simp_all add: ipcp_option_defs Let_def)

lemma iv_ci_length: "length (iv_ci (ipcp_option wo ao rid c ho go)) = length c"
  by (rule ipcp_option_rule)
    (simp_all add: ipcp_option_defs CILEN_ADDRS_def CILEN_ADDR_def CILEN_VJ_def Let_def)

lemma iv_ci_unchanged:
  "iv_orc (ipcp_option wo ao rid c ho go) \<noteq> CONFNAK \<or> rid \<longrightarrow> iv_ci (ipcp_option wo ao rid c ho go) = c"
  by (rule ipcp_option_rule) (simp_all add: ipcp_option_defs Let_def)

text \<open>\<^verbatim>\<open>endswitch\<close> collects the option \<open>c\<close>, which stands at \<open>cip\<close>, at the front of the buffer.\<close>

definition holds_out :: "ipcp_req \<Rightarrow> ipcp_acc \<Rightarrow> bool" where
  "holds_out s acc \<longleftrightarrow>
     iq_ucp s = length (ia_out acc) \<and> take (length (ia_out acc)) (iq_buf s) = ia_out acc
     \<and> length (ia_out acc) \<le> length (iq_buf s)
     \<and> iq_rc s = ia_rc acc \<and> ia_rc acc \<in> {CONFACK, CONFNAK, CONFREJ} \<and> iq_ho s = ia_ho acc \<and> iq_go s = ia_go acc"

lemma severity_codes [simp]: "severity CONFACK = 0" "severity CONFNAK = 1" "severity CONFREJ = 2"
  by (simp_all add: severity_def)

lemma endswitch_moves:
  assumes codes: "orc \<in> {CONFACK, CONFNAK, CONFREJ}" "iq_rc s \<in> {CONFACK, CONFNAK, CONFREJ}"
    and fit: "cip + n \<le> length (iq_buf s)"
    and code: "code = (if orc = CONFNAK \<and> rid then CONFREJ else orc)"
    and ucp: "ucp = (if severity code = severity (iq_rc s) then iq_ucp s else 0)"
  shows "ipcp_endswitch rid orc cip n s =
    (if severity code < severity (iq_rc s) then s
     else s\<lparr>iq_rc := code, iq_buf := poke (iq_buf s) ucp (take n (drop cip (iq_buf s))), iq_ucp := ucp + n\<rparr>)"
proof -
  have self: "poke (iq_buf s) cip (take n (drop cip (iq_buf s))) = iq_buf s" using fit by (rule poke_self)
  then have zero: "cip = 0 \<Longrightarrow> poke (iq_buf s) 0 (take n (iq_buf s)) = iq_buf s" by auto
  obtain buf nxt l u rc ho go where s: "s = \<lparr>iq_buf = buf, iq_next = nxt, iq_left = l, iq_ucp = u, iq_rc = rc,
      iq_ho = ho, iq_go = go\<rparr>" by (cases s) simp
  consider "rc = CONFACK" | "rc = CONFNAK" | "rc = CONFREJ" using codes(2) s by auto
  then show ?thesis using codes(1) self zero unfolding ipcp_endswitch_def Let_def code ucp s
    by cases (auto simp: severity_def split: if_splits)
qed

lemma endswitch_collects:
  assumes codes: "orc \<in> {CONFACK, CONFNAK, CONFREJ}" and out: "holds_out s acc"
    and fit: "iq_ucp s \<le> cip" "cip + n \<le> length (iq_buf s)" and c: "take n (drop cip (iq_buf s)) = c"
    and s'_def: "s' = ipcp_endswitch rid orc cip n s"
  shows "holds_out s' (ipcp_collect rid acc orc c)" and "iq_ucp s' \<le> cip + n"
    and "drop (cip + n) (iq_buf s') = drop (cip + n) (iq_buf s)" and "length (iq_buf s') = length (iq_buf s)"
    and "iq_next s' = iq_next s"
proof -
  define code where "code = (if orc = CONFNAK \<and> rid then CONFREJ else orc)"
  define ucp where "ucp = (if severity code = severity (iq_rc s) then iq_ucp s else 0)"
  have rc: "iq_rc s = ia_rc acc" "iq_rc s \<in> {CONFACK, CONFNAK, CONFREJ}"
    using out by (simp_all add: holds_out_def)
  note step = endswitch_moves[OF codes rc(2) fit(2) code_def ucp_def]
  define moved where "moved = take ucp (iq_buf s)"
  have mv: "take ucp (iq_buf s) = moved" "length moved = ucp" "ucp \<le> cip" using fit by (simp_all add: moved_def ucp_def)
  note cmp = compact[OF mv fit(2) refl]
  have lc: "length c = n" using c fit(2) by auto
  have coll: "ipcp_collect rid acc orc c =
      (if severity code < severity (iq_rc s) then acc
       else acc\<lparr>ia_rc := code, ia_out := moved @ c\<rparr>)"
    using out codes rc(2) unfolding ipcp_collect_def Let_def code_def[symmetric]
    by (auto simp: holds_out_def moved_def ucp_def code_def)
  have "code \<in> {CONFACK, CONFNAK, CONFREJ}" using codes by (auto simp: code_def)
  then show "holds_out s' (ipcp_collect rid acc orc c)" unfolding s'_def step coll
    using out cmp(1,2) mv lc fit c by (auto simp: holds_out_def)
  show "iq_ucp s' \<le> cip + n" unfolding s'_def step using fit mv by simp
  show "drop (cip + n) (iq_buf s') = drop (cip + n) (iq_buf s)" unfolding s'_def step using cmp(3) by simp
  show "length (iq_buf s') = length (iq_buf s)" unfolding s'_def step using cmp(2) by simp
  show "iq_next s' = iq_next s" unfolding s'_def step by simp
qed

text \<open>The relation between the loop's variables and the specification's, with \<open>xs\<close> still to be read.\<close>

definition ipcp_sim :: "ipcp_req \<Rightarrow> ipcp_acc \<Rightarrow> u8 list \<Rightarrow> bool" where
  "ipcp_sim s acc xs \<longleftrightarrow>
     holds_out s acc \<and> iq_left s = length xs \<and> take (length xs) (drop (iq_next s) (iq_buf s)) = xs
     \<and> iq_next s + length xs \<le> length (iq_buf s) \<and> (xs \<noteq> [] \<longrightarrow> iq_ucp s \<le> iq_next s) \<and> length xs < 65536"

lemma holds_out_update:
  assumes "holds_out s acc" and "take (iq_ucp s) buf = take (iq_ucp s) (iq_buf s)" and "length buf = length (iq_buf s)"
  shows "holds_out (s\<lparr>iq_left := l, iq_next := k, iq_buf := buf, iq_ho := ho, iq_go := go\<rparr>)
    (acc\<lparr>ia_ho := ho, ia_go := go\<rparr>)"
  using assms unfolding holds_out_def by simp

lemma ipcp_sim_bad:
  assumes sim: "ipcp_sim s acc xs" and ne: "xs \<noteq> []"
    and bad: "length xs < 2 \<or> unat (xs ! 1) < 2 \<or> unat (xs ! 1) > length xs"
  shows "ipcp_sim (ipcp_step wo ao rid s) (ipcp_spec_step wo ao rid acc xs) []"
proof -
  define l where "l = length xs"
  have out: "holds_out (s\<lparr>iq_left := 0\<rparr>) acc" and fit: "iq_ucp s \<le> iq_next s" "iq_next s + l \<le> length (iq_buf s)"
    and xs: "take l (drop (iq_next s) (iq_buf s)) = xs" and left: "iq_left s = l" "l < 65536"
    using sim ne by (simp_all add: ipcp_sim_def holds_out_def l_def)
  have "l < 2 \<or> unat (drop (iq_next s) (iq_buf s) ! 1) < 2 \<or> unat (drop (iq_next s) (iq_buf s) ! 1) > l"
    using bad xs nth_take[of 1 l "drop (iq_next s) (iq_buf s)"] by (cases "l < 2") (simp_all add: l_def)
  moreover have "unat (of_nat l :: u16) = l" using left(2) by (simp add: unat_of_nat)
  ultimately have step: "ipcp_step wo ao rid s = ipcp_endswitch rid CONFREJ (iq_next s) l (s\<lparr>iq_left := 0\<rparr>)"
    by (simp add: ipcp_step_def left)
  have "\<not> wf_ci xs" using bad by (auto simp: wf_ci_def)
  then have spec: "ipcp_spec_step wo ao rid acc xs = ipcp_collect rid acc CONFREJ xs"
    by (simp add: ipcp_spec_step_def ipcp_judge_def)
  note coll = endswitch_collects[where orc = CONFREJ and rid = rid, OF _ out _ _ _ step]
  have "holds_out (ipcp_step wo ao rid s) (ipcp_collect rid acc CONFREJ xs)" using fit xs by (intro coll(1)) simp_all
  moreover have "length (iq_buf (ipcp_step wo ao rid s)) = length (iq_buf s)" "iq_next (ipcp_step wo ao rid s) = iq_next s"
    using coll(4)[of xs] coll(5)[of xs] fit xs by simp_all
  ultimately show ?thesis using fit unfolding ipcp_sim_def spec step by simp
qed

lemma ipcp_sim_good:
  assumes sim: "ipcp_sim s acc xs" and ne: "xs \<noteq> []"
    and ok: "2 \<le> length xs" "2 \<le> unat (xs ! 1)" "unat (xs ! 1) \<le> length xs"
  defines "n \<equiv> unat (xs ! 1)"
  shows "ipcp_sim (ipcp_step wo ao rid s) (ipcp_spec_step wo ao rid acc (take n xs)) (drop n xs)"
proof -
  define buf cip l where d: "buf = iq_buf s" "cip = iq_next s" "l = length xs"
  define c where "c = take n xs"
  define v where "v = ipcp_option wo ao rid c (iq_ho s) (iq_go s)"
  define buf1 where "buf1 = poke buf cip (iv_ci v)"
  have out: "holds_out s acc" and fit: "cip + l \<le> length buf" "iq_ucp s \<le> cip"
    and xs: "take l (drop cip buf) = xs" and left: "iq_left s = l" "l < 65536"
    using sim ne by (simp_all add: ipcp_sim_def d)
  have n: "2 \<le> n" "n \<le> l" using ok by (simp_all add: n_def d(3))
  have c: "take n (drop cip buf) = c" using xs n by (metis c_def min.absorb1 take_take)
  have hd: "drop cip buf ! 1 = xs ! 1" "c ! 1 = xs ! 1"
    using xs n nth_take[of 1 l "drop cip buf"] nth_take[of 1 n xs] by (simp_all add: c_def)
  have wf: "wf_ci c" and lc: "length c = n" using n hd by (simp_all add: wf_ci_def c_def d(3) n_def)
  have lv: "length (iv_ci v) = n" using lc by (simp add: v_def iv_ci_length)
  have buf1: "length buf1 = length buf" "drop (cip + n) buf1 = drop (cip + n) buf"
      "take (iq_ucp s) buf1 = take (iq_ucp s) buf" "take n (drop cip buf1) = iv_ci v"
    using lv n fit take_drop_poke[of cip buf "iv_ci v"] by (simp_all add: buf1_def)
  let ?s1 = "s\<lparr>iq_left := l - n, iq_next := cip + n, iq_buf := buf1, iq_ho := iv_ho v, iq_go := iv_go v\<rparr>"
  let ?a1 = "acc\<lparr>ia_ho := iv_ho v, ia_go := iv_go v\<rparr>"
  have step: "ipcp_step wo ao rid s = ipcp_endswitch rid (iv_orc v) cip n ?s1"
    unfolding ipcp_step_def Let_def left d(1,2)[symmetric] hd(1) n_def[symmetric] c v_def[symmetric] buf1_def
    using n by simp
  have spec: "ipcp_spec_step wo ao rid acc c = ipcp_collect rid ?a1 (iv_orc v) (iv_ci v)"
    using wf out by (simp add: ipcp_spec_step_def ipcp_judge_def v_def holds_out_def Let_def)
  have out1: "holds_out ?s1 ?a1" using out buf1 by (intro holds_out_update) (simp_all add: d(1))
  have codes: "iv_orc v \<in> {CONFACK, CONFNAK, CONFREJ}" unfolding v_def by (rule ipcp_verdict_codes)
  have fit1: "iq_ucp ?s1 \<le> cip" "cip + n \<le> length (iq_buf ?s1)" "take n (drop cip (iq_buf ?s1)) = iv_ci v"
    using fit n buf1 by simp_all
  note coll = endswitch_collects[OF codes out1 fit1 step]
  have rest: "take (l - n) (drop (cip + n) buf) = drop n xs" using xs by (metis add.commute drop_drop drop_take)
  have left': "iq_left (ipcp_step wo ao rid s) = l - n" unfolding step by simp
  show ?thesis unfolding ipcp_sim_def c_def[symmetric] spec left'
    using coll buf1 rest fit n left(2) by (simp add: d(3))
qed

lemma ipcp_loop_simulates:
  assumes "ipcp_sim s acc xs"
  shows "ipcp_sim (ipcp_loop wo ao rid s) (foldl (ipcp_spec_step wo ao rid) acc (split_cis xs)) []"
  using assms
proof (induction xs arbitrary: s acc rule: split_cis.induct)
  case (1 xs)
  show ?case
  proof (cases "xs = []")
    case True
    then have "iq_left s = 0" using "1.prems" by (simp add: ipcp_sim_def)
    then show ?thesis using "1.prems" True by (simp add: ipcp_loop.simps split_cis.simps)
  next
    case False
    have "ipcp_sim (ipcp_step wo ao rid s) (ipcp_spec_step wo ao rid acc (fst (next_ci xs))) (snd (next_ci xs))"
    proof (cases "length xs < 2 \<or> unat (xs ! 1) < 2 \<or> unat (xs ! 1) > length xs")
      case True
      then show ?thesis using ipcp_sim_bad[OF "1.prems" False True] unfolding next_ci_def if_P[OF True] by simp
    next
      case bad: False
      then show ?thesis using ipcp_sim_good[OF "1.prems" False] unfolding next_ci_def if_not_P[OF bad] by simp
    qed
    from "1.IH"[OF False this] have "ipcp_sim (ipcp_loop wo ao rid (ipcp_step wo ao rid s))
        (foldl (ipcp_spec_step wo ao rid) acc (split_cis xs)) []"
      using False by (subst split_cis.simps) simp
    moreover have "iq_left s \<noteq> 0" using "1.prems" False by (simp add: ipcp_sim_def)
    ultimately show ?thesis by (subst ipcp_loop.simps) simp
  qed
qed

definition asks_addr :: "ipcp_options \<Rightarrow> bool \<Rightarrow> ipcp_acc \<Rightarrow> bool" where
  "asks_addr wo rid acc \<longleftrightarrow> ia_rc acc \<noteq> CONFREJ \<and> \<not> neg_addr (ia_ho acc) \<and> req_addr wo \<and> \<not> rid"

definition asked :: "ipcp_options \<Rightarrow> ipcp_acc \<Rightarrow> u8 list" where
  "asked wo acc = (if ia_rc acc = CONFACK then [] else ia_out acc)
     @ CI_ADDR # of_nat CILEN_ADDR # PUTLONG (ntohl (hisaddr wo))"

lemma ipcp_reqci_implements:
  assumes "len \<le> length inp" and "len < 65536" and run: "ipcp_reqci wo ao go inp len rid = (rc, buf, n, ho, go', wo')"
    and spec: "spec = ipcp_pass wo ao rid go (take len inp)" and ask: "ask = asks_addr wo rid spec"
  shows "rc = (if ask then CONFNAK else ia_rc spec)" and "ho = ia_ho spec" and "go' = ia_go spec"
    and "take n buf = (if ask then asked wo spec else ia_out spec)"
    and "n = length (if ask then asked wo spec else ia_out spec)"
    and "wo' = (if ask \<and> ia_rc spec = CONFACK then wo\<lparr>req_addr := False\<rparr> else wo)"
proof -
  let ?s0 = "\<lparr>iq_buf = inp, iq_next = 0, iq_left = len, iq_ucp = 0, iq_rc = CONFACK, iq_ho = zero_ipcp_options,
    iq_go = go\<rparr>"
  let ?a0 = "\<lparr>ia_rc = CONFACK, ia_out = [], ia_ho = zero_ipcp_options, ia_go = go\<rparr>"
  define s where "s = ipcp_loop wo ao rid ?s0"
  have "ipcp_sim ?s0 ?a0 (take len inp)" using assms(1,2) by (simp add: ipcp_sim_def holds_out_def)
  then have "ipcp_sim s spec []" unfolding s_def spec ipcp_pass_def by (rule ipcp_loop_simulates)
  then have out: "iq_ucp s = length (ia_out spec)" "take (length (ia_out spec)) (iq_buf s) = ia_out spec"
      "length (ia_out spec) \<le> length (iq_buf s)" "iq_rc s = ia_rc spec" "iq_ho s = ia_ho spec" "iq_go s = ia_go spec"
    by (simp_all add: ipcp_sim_def holds_out_def)
  define opt where "opt = CI_ADDR # of_nat CILEN_ADDR # PUTLONG (ntohl (hisaddr wo))"
  have opt: "length opt = CILEN_ADDR" by (simp add: opt_def CILEN_ADDR_def)
  define ucp where "ucp = (if ia_rc spec = CONFACK then 0 else length (ia_out spec))"
  have "ucp \<le> length (iq_buf s)" using out(3) by (simp add: ucp_def)
  then have put: "take (ucp + CILEN_ADDR) (poke (iq_buf s) ucp opt) = asked wo spec"
    using take_poke_upto[of ucp "iq_buf s" opt] out(2) unfolding opt
    by (simp add: asked_def opt_def ucp_def)
  have la: "length (asked wo spec) = ucp + CILEN_ADDR" by (simp add: asked_def ucp_def CILEN_ADDR_def)
  have res: "(rc, buf, n, ho, go', wo') =
      (if ask then (CONFNAK, poke (iq_buf s) ucp opt, ucp + CILEN_ADDR, ia_ho spec, ia_go spec,
          if ia_rc spec = CONFACK then wo\<lparr>req_addr := False\<rparr> else wo)
       else (ia_rc spec, iq_buf s, length (ia_out spec), ia_ho spec, ia_go spec, wo))"
    using run unfolding ipcp_reqci_def s_def[symmetric] Let_def out(1,4-6) ask asks_addr_def ucp_def opt_def
    by (auto split: if_splits)
  show "rc = (if ask then CONFNAK else ia_rc spec)" "ho = ia_ho spec" "go' = ia_go spec"
    "wo' = (if ask \<and> ia_rc spec = CONFACK then wo\<lparr>req_addr := False\<rparr> else wo)"
    "take n buf = (if ask then asked wo spec else ia_out spec)"
    "n = length (if ask then asked wo spec else ia_out spec)"
    using res put la out(2) by (auto split: if_splits)
qed

text \<open>
  C19: judging a request in place is the same as one pass over its options, in which a worse
  verdict discards what a better one had collected. The code returned, the peer's, our and the
  wanted options agree, and the answer is exactly what the pass collected; when the peer left
  out its address and we ask for it, the answer is a Nak that ends with an address option.
\<close>

theorem ipcp_reqci_spec:
  assumes "len \<le> length inp" and "len < 65536" and "ipcp_reqci wo ao go inp len rid = (rc, buf, n, ho, go', wo')"
    and "spec = ipcp_pass wo ao rid go (take len inp)" and "ask = asks_addr wo rid spec"
  shows "rc = (if ask then CONFNAK else ia_rc spec) \<and> ho = ia_ho spec \<and> go' = ia_go spec
    \<and> take n buf = (if ask then asked wo spec else ia_out spec)
    \<and> n = length (if ask then asked wo spec else ia_out spec)
    \<and> wo' = (if ask \<and> ia_rc spec = CONFACK then wo\<lparr>req_addr := False\<rparr> else wo)"
  using ipcp_reqci_implements[OF assms] by blast

lemmas ipcp_eval = ipcp_reqci_def ipcp_loop.simps ipcp_step_def ipcp_option_def reqci_addrs_def reqci_addr_def
  reqci_compress_def hint_def bad_remote_def bad_local_def ipcp_endswitch_def CI_ADDRS_def CI_ADDR_def
  CI_COMPRESSTYPE_def CILEN_ADDRS_def CILEN_ADDR_def CILEN_VJ_def CILEN_COMPRESS_def IPCP_VJ_COMP_def
  IPCP_VJ_COMP_OLD_def zero_ipcp_options_def get_long_def get_short_def GETLONG_def GETSHORT_def htonl_def
  ntohl_def PUTLONG_def code_defs

theorem ipcp_reqci_spec_witness:
  "ia_out (ipcp_pass zero_ipcp_options zero_ipcp_options False zero_ipcp_options [3, 6, 1, 2, 3, 4, 9]) = [3, 6, 1, 2, 3, 4, 9]"
  using ipcp_reqci_spec[of 7 "[3, 6, 1, 2, 3, 4, 9, 0]" zero_ipcp_options zero_ipcp_options zero_ipcp_options False
      CONFREJ "[3, 6, 1, 2, 3, 4, 9, 0]" 7 zero_ipcp_options zero_ipcp_options zero_ipcp_options
      "ipcp_pass zero_ipcp_options zero_ipcp_options False zero_ipcp_options [3, 6, 1, 2, 3, 4, 9]" False]
  by (simp add: ipcp_eval asks_addr_def poke_def)

section \<open>What is accepted\<close>

text \<open>What an acknowledged request has made of the peer's and our options.\<close>

definition ipcp_his_ok :: "ipcp_options \<Rightarrow> ipcp_options \<Rightarrow> ipcp_options \<Rightarrow> bool" where
  "ipcp_his_ok wo ao ho \<longleftrightarrow>
     (neg_addr ho \<longrightarrow> neg_addr ao \<and> \<not> bad_remote wo (hisaddr ho))
     \<and> (old_addrs ho \<longrightarrow> neg_addr ho \<and> \<not> bad_local wo (ouraddr ho))
     \<and> (neg_vj ho \<longrightarrow> neg_vj ao \<and> (vj_protocol ho = IPCP_VJ_COMP \<or> vj_protocol ho = IPCP_VJ_COMP_OLD)
          \<and> (old_vj ho \<or> maxslotindex ho \<le> maxslotindex ao))"

definition ipcp_go_ok :: "ipcp_options \<Rightarrow> ipcp_options \<Rightarrow> ipcp_options \<Rightarrow> bool" where
  "ipcp_go_ok wo go go' \<longleftrightarrow>
     go' = go\<lparr>ouraddr := ouraddr go'\<rparr> \<and> (ouraddr go' = ouraddr go \<or> accept_local wo \<and> ouraddr go' \<noteq> 0)"

definition ipcp_known :: "u8 list \<Rightarrow> bool" where
  "ipcp_known c \<longleftrightarrow> wf_ci c \<and> c ! 0 \<in> {CI_ADDRS, CI_ADDR, CI_COMPRESSTYPE}"

lemma option_ack_ok:
  "iv_orc (ipcp_option wo ao rid c ho go) = CONFACK \<Longrightarrow> ipcp_his_ok wo ao ho \<Longrightarrow>
   ipcp_his_ok wo ao (iv_ho (ipcp_option wo ao rid c ho go))"
  by (rule ipcp_option_rule[where P = "\<lambda>v. iv_orc v = CONFACK \<longrightarrow> ipcp_his_ok wo ao ho \<longrightarrow> ipcp_his_ok wo ao (iv_ho v)",
        THEN mp, THEN mp])
    (auto simp: ipcp_option_defs ipcp_his_ok_def Let_def split: if_splits)

lemma option_go_ok:
  assumes "ipcp_go_ok wo go0 go"
  shows "ipcp_go_ok wo go0 (iv_go (ipcp_option wo ao rid c ho go))"
proof (rule ipcp_option_rule)
  show "ipcp_go_ok wo go0 (iv_go (reqci_addrs wo ao rid c ho go))"
  proof -
    have "go\<lparr>ouraddr := a\<rparr> = go0\<lparr>ouraddr := a\<rparr>" for a
      using assms unfolding ipcp_go_ok_def by (metis ipcp_options.surjective ipcp_options.update_convs(13))
    then show ?thesis using assms by (auto simp: reqci_addrs_def ipcp_go_ok_def bad_local_def Let_def)
  qed
qed (use assms in \<open>simp_all add: reqci_addr_def reqci_compress_def Let_def\<close>)

lemma option_ack_known:
  "iv_orc (ipcp_judge wo ao rid c ho go) = CONFACK \<Longrightarrow> ipcp_known c"
  by (auto simp: ipcp_judge_def ipcp_known_def ipcp_option_def split: if_splits)

lemma judge_verdict_codes: "iv_orc (ipcp_judge wo ao rid c ho go) \<in> {CONFACK, CONFNAK, CONFREJ}"
  using ipcp_verdict_codes by (simp add: ipcp_judge_def)

lemma pass_keeps_go:
  "ipcp_go_ok wo go0 (ia_go acc) \<Longrightarrow> ipcp_go_ok wo go0 (ia_go (foldl (ipcp_spec_step wo ao rid) acc cs))"
proof (induction cs arbitrary: acc)
  case (Cons c cs)
  have "ipcp_go_ok wo go0 (ia_go (ipcp_spec_step wo ao rid acc c))"
    using Cons.prems option_go_ok
    by (simp add: ipcp_spec_step_def ipcp_judge_def ipcp_collect_def Let_def)
  then show ?case using Cons.IH by simp
qed simp

lemma pass_stuck:
  "ia_rc acc \<in> {CONFACK, CONFNAK, CONFREJ} \<Longrightarrow> ia_rc acc \<noteq> CONFACK \<Longrightarrow>
   ia_rc (foldl (ipcp_spec_step wo ao rid) acc cs) \<noteq> CONFACK"
proof (induction cs arbitrary: acc)
  case (Cons c cs)
  then show ?case using judge_verdict_codes[of wo ao rid c "ia_ho acc" "ia_go acc"]
    by (auto simp: ipcp_spec_step_def ipcp_collect_def Let_def severity_def split: if_splits)
qed simp

lemma pass_ack:
  assumes "ia_rc (foldl (ipcp_spec_step wo ao rid) acc cs) = CONFACK" and "ipcp_his_ok wo ao (ia_ho acc)"
    and "ia_rc acc \<in> {CONFACK, CONFNAK, CONFREJ}"
  shows "ia_rc acc = CONFACK \<and> list_all ipcp_known cs
    \<and> ia_out (foldl (ipcp_spec_step wo ao rid) acc cs) = ia_out acc @ concat cs
    \<and> ipcp_his_ok wo ao (ia_ho (foldl (ipcp_spec_step wo ao rid) acc cs))"
  using assms
proof (induction cs arbitrary: acc)
  case (Cons c cs)
  define v where "v = ipcp_judge wo ao rid c (ia_ho acc) (ia_go acc)"
  define acc' where "acc' = ipcp_spec_step wo ao rid acc c"
  have step: "acc' = ipcp_collect rid (acc\<lparr>ia_ho := iv_ho v, ia_go := iv_go v\<rparr>) (iv_orc v) (iv_ci v)"
    by (simp add: acc'_def ipcp_spec_step_def v_def Let_def)
  have codes: "iv_orc v \<in> {CONFACK, CONFNAK, CONFREJ}" unfolding v_def by (rule judge_verdict_codes)
  have codes': "ia_rc acc' \<in> {CONFACK, CONFNAK, CONFREJ}"
    using codes Cons.prems(3) by (auto simp: step ipcp_collect_def Let_def)
  have ack: "ia_rc acc' = CONFACK"
    using pass_stuck[OF codes'] Cons.prems(1) by (auto simp: acc'_def)
  then have both: "ia_rc acc = CONFACK" "iv_orc v = CONFACK"
    using codes Cons.prems(3) by (auto simp: step ipcp_collect_def Let_def split: if_splits)
  have known: "ipcp_known c" using option_ack_known both(2) v_def by metis
  then have v: "v = ipcp_option wo ao rid c (ia_ho acc) (ia_go acc)" by (simp add: v_def ipcp_judge_def ipcp_known_def)
  have ci: "iv_ci v = c" using iv_ci_unchanged both(2) unfolding v by simp
  have his: "ipcp_his_ok wo ao (iv_ho v)" using option_ack_ok both(2) Cons.prems(2) unfolding v by blast
  have acc': "ia_out acc' = ia_out acc @ c" "ia_ho acc' = iv_ho v"
    using both ci by (simp_all add: step ipcp_collect_def)
  show ?case using Cons.IH[of acc'] Cons.prems(1) his acc' codes' both known by (simp add: acc'_def)
qed simp

lemma pass_no_nak: "rid \<Longrightarrow> ia_rc acc \<noteq> CONFNAK \<Longrightarrow> ia_rc (foldl (ipcp_spec_step wo ao rid) acc cs) \<noteq> CONFNAK"
proof (induction cs arbitrary: acc)
  case (Cons c cs)
  then show ?case by (simp add: ipcp_spec_step_def ipcp_collect_def Let_def)
qed simp

text \<open>
  C20: a request is acknowledged only as a whole: the answer is the request itself, every
  byte of it belongs to a well-formed option of a known type, the peer's address is
  the one we configured, or a non-zero one we are willing to learn, and likewise ours when the peer
  named both; compression was allowed, with no more slots than we have. Whatever the answer,
  our own options change only in our address and only when we accept the peer's idea of it,
  and a request that must not be naked is not.
\<close>

theorem ipcp_reqci_ack:
  assumes "len \<le> length inp" and "len < 65536" and "ipcp_reqci wo ao go inp len rid = (rc, buf, n, ho, go', wo')"
  shows "(rc = CONFACK \<longrightarrow> n = len \<and> take n buf = take len inp \<and> take len inp = concat (split_cis (take len inp))
      \<and> list_all ipcp_known (split_cis (take len inp)) \<and> ipcp_his_ok wo ao ho)
    \<and> ipcp_go_ok wo go go' \<and> (rid \<longrightarrow> rc \<noteq> CONFNAK)"
proof -
  define spec where "spec = ipcp_pass wo ao rid go (take len inp)"
  define ask where "ask = asks_addr wo rid spec"
  note impl = ipcp_reqci_implements[OF assms spec_def ask_def]
  let ?a0 = "\<lparr>ia_rc = CONFACK, ia_out = [], ia_ho = zero_ipcp_options, ia_go = go\<rparr>"
  have spec: "spec = foldl (ipcp_spec_step wo ao rid) ?a0 (split_cis (take len inp))"
    by (simp add: spec_def ipcp_pass_def)
  have "ipcp_go_ok wo go go'" unfolding impl(3) spec by (rule pass_keeps_go) (simp add: ipcp_go_ok_def)
  moreover have "rid \<longrightarrow> rc \<noteq> CONFNAK"
    using pass_no_nak[of rid ?a0 wo ao "split_cis (take len inp)"] unfolding impl(1) ask_def asks_addr_def spec by simp
  moreover have "n = len \<and> take n buf = take len inp \<and> take len inp = concat (split_cis (take len inp))
      \<and> list_all ipcp_known (split_cis (take len inp)) \<and> ipcp_his_ok wo ao ho" if "rc = CONFACK"
  proof -
    have "\<not> ask" and "ia_rc spec = CONFACK" using that unfolding impl(1) by (simp_all split: if_splits)
    moreover from this have "take n buf = ia_out spec" "n = length (ia_out spec)" using impl(4,5) by simp_all
    moreover have "ipcp_his_ok wo ao (ia_ho ?a0)" by (simp add: ipcp_his_ok_def zero_ipcp_options_def)
    ultimately show ?thesis using pass_ack[of wo ao rid ?a0 "split_cis (take len inp)"] assms(1)
      unfolding impl(2) spec[symmetric] by (simp add: concat_split_cis)
  qed
  ultimately show ?thesis by blast
qed

theorem ipcp_reqci_ack_witness:
  "list_all ipcp_known (split_cis [3, 6, 10, 0, 0, 1])"
  using ipcp_reqci_ack[of 6 "[3, 6, 10, 0, 0, 1]" "zero_ipcp_options\<lparr>accept_remote := True\<rparr>"
      "zero_ipcp_options\<lparr>neg_addr := True\<rparr>" zero_ipcp_options False
      CONFACK "[3, 6, 10, 0, 0, 1]" 6 "zero_ipcp_options\<lparr>neg_addr := True, hisaddr := 0x100000a\<rparr>"
      zero_ipcp_options "zero_ipcp_options\<lparr>accept_remote := True\<rparr>"]
  by (simp add: ipcp_eval poke_def)

text \<open>
  The peer says in the last byte of its compression option whether it can take
  compressed connection identifiers. A request that says it can not is acknowledged, and
  what is recorded for the peer, and later passed to the interface, is our own wish instead.
\<close>

theorem ipcp_reqci_cflag_ignored:
  assumes "neg_vj ao" and "slots \<le> maxslotindex ao" and "\<not> req_addr wo"
  shows "\<exists>buf ho. ipcp_reqci wo ao go [CI_COMPRESSTYPE, 6, 0, 0x2d, slots, 0] 6 rid = (CONFACK, buf, 6, ho, go, wo)
    \<and> neg_vj ho \<and> cflag ho = cflag wo"
proof -
  let ?req = "[CI_COMPRESSTYPE, 6, 0, 0x2d, slots, 0]"
  let ?s = "\<lparr>iq_buf = ?req, iq_next = 0, iq_left = 6, iq_ucp = 0, iq_rc = CONFACK, iq_ho = zero_ipcp_options,
    iq_go = go\<rparr>"
  let ?ho = "zero_ipcp_options\<lparr>neg_vj := True, vj_protocol := IPCP_VJ_COMP, maxslotindex := slots, cflag := cflag wo\<rparr>"
  have "ipcp_option wo ao rid ?req zero_ipcp_options go = \<lparr>iv_orc = CONFACK, iv_ho = ?ho, iv_go = go, iv_ci = ?req\<rparr>"
    using assms(1,2) by (simp add: ipcp_option_def reqci_compress_def hint_def CI_ADDRS_def CI_ADDR_def CI_COMPRESSTYPE_def
        CILEN_VJ_def CILEN_COMPRESS_def IPCP_VJ_COMP_def get_short_def GETSHORT_def linorder_not_less Let_def)
  then have step: "ipcp_step wo ao rid ?s = ?s\<lparr>iq_left := 0, iq_next := 6, iq_ucp := 6, iq_ho := ?ho\<rparr>"
    by (simp add: ipcp_step_def ipcp_endswitch_def poke_def)
  have "ipcp_loop wo ao rid ?s = ?s\<lparr>iq_left := 0, iq_next := 6, iq_ucp := 6, iq_ho := ?ho\<rparr>"
    by (subst ipcp_loop.simps, simp add: step, subst ipcp_loop.simps, simp)
  then show ?thesis using assms(3) by (simp add: ipcp_reqci_def)
qed

theorem ipcp_reqci_cflag_ignored_witness:
  "\<exists>buf ho. ipcp_reqci (zero_ipcp_options\<lparr>cflag := 1\<rparr>) (zero_ipcp_options\<lparr>neg_vj := True, maxslotindex := 15\<rparr>)
      zero_ipcp_options [CI_COMPRESSTYPE, 6, 0, 0x2d, 15, 0] 6 False
    = (CONFACK, buf, 6, ho, zero_ipcp_options, zero_ipcp_options\<lparr>cflag := 1\<rparr>) \<and> neg_vj ho \<and> cflag ho = 1"
  using ipcp_reqci_cflag_ignored[of "zero_ipcp_options\<lparr>neg_vj := True, maxslotindex := 15\<rparr>" 15
      "zero_ipcp_options\<lparr>cflag := 1\<rparr>" zero_ipcp_options False]
  by (simp add: zero_ipcp_options_def)

end
