(* ===== verification/Ppp_Words.thy ===== *)
theory Ppp_Words
  imports Main
begin

text \<open>
  Reading words from the option and secret files (\<^verbatim>\<open>options.c: getword\<close>). A file is the list of
  its characters; the caller's array of \<^verbatim>\<open>MAXWORDLEN\<close> characters is a list that a store past its
  end leaves unchanged but is recorded in \<open>gw_over\<close>. Read errors (\<^verbatim>\<open>ferror\<close>) are left out.
\<close>

section \<open>The reader\<close>

definition MAXWORDLEN :: nat where "MAXWORDLEN = 1024"

definition NL :: char where "NL = CHR 0x0A"
definition NUL :: char where "NUL = CHR 0x00"
definition BACKSLASH :: char where "BACKSLASH = CHR 0x5C"
definition QUOTE :: char where "QUOTE = CHR 0x22"
definition HASH :: char where "HASH = CHR 0x23"

lemmas char_defs = NL_def NUL_def BACKSLASH_def QUOTE_def HASH_def

definition isspace :: "char \<Rightarrow> bool" where
  "isspace c \<longleftrightarrow> c \<in> {CHR 0x20, CHR 0x09, CHR 0x0A, CHR 0x0B, CHR 0x0C, CHR 0x0D}"

record gw =
  gw_buf :: string
  gw_len :: nat
  gw_over :: bool

definition put_word :: "nat \<Rightarrow> char \<Rightarrow> gw \<Rightarrow> gw" where
  "put_word i c g =
     (if i < length (gw_buf g) then g\<lparr>gw_buf := (gw_buf g)[i := c]\<rparr> else g\<lparr>gw_over := True\<rparr>)"

definition add_char :: "char \<Rightarrow> gw \<Rightarrow> gw" where
  "add_char c g = (if gw_len g < MAXWORDLEN - 1 then put_word (gw_len g) c g else g)\<lparr>gw_len := gw_len g + 1\<rparr>"

text \<open>
  Skipping white space and comments. The result says whether the word begins with an escaped
  character, what is left, beginning with the first character of the word, and whether a line
  began. \<open>None\<close>: the end of the file.
\<close>

fun skip_space :: "string \<Rightarrow> bool \<Rightarrow> bool \<Rightarrow> (bool \<times> string \<times> bool) option" where
  "skip_space [] comment nl = None"
| "skip_space (c # cs) comment nl =
     (if comment then (if c = NL then skip_space cs False True else skip_space cs True nl)
      else if c = BACKSLASH
      then (case cs of [] \<Rightarrow> None
            | d # ds \<Rightarrow> if d = NL then skip_space ds False nl else Some (True, d # ds, nl))
      else if c = NL then skip_space cs False True
      else if c = HASH then skip_space cs True nl
      else if isspace c then skip_space cs False nl
      else Some (False, c # cs, nl))"

text \<open>One character of the word: the new escape and quote flags, or \<open>None\<close> when the character is not part of it.\<close>

definition getword_char :: "char \<Rightarrow> bool \<Rightarrow> bool \<Rightarrow> gw \<Rightarrow> (bool \<times> bool \<times> gw) option" where
  "getword_char c escape quoted g =
     (if escape
      then Some (False, quoted,
             if c = NL then g\<lparr>gw_len := gw_len g - 1\<rparr>
             else if c = QUOTE \<or> isspace c \<or> c = BACKSLASH then put_word (gw_len g - 1) c g
             else add_char c g)
      else if c = QUOTE then Some (False, \<not> quoted, g)
      else if \<not> quoted \<and> (isspace c \<or> c = HASH) then None
      else Some (c = BACKSLASH, quoted, add_char c g))"

fun getword_loop :: "string \<Rightarrow> bool \<Rightarrow> bool \<Rightarrow> gw \<Rightarrow> gw \<times> string" where
  "getword_loop [] escape quoted g = (g, [])"
| "getword_loop (c # cs) escape quoted g =
     (case getword_char c escape quoted g of
        None \<Rightarrow> (g, c # cs)
      | Some (e, q, g') \<Rightarrow> getword_loop cs e q g')"

text \<open>The string the caller sees: up to the first null character.\<close>

definition c_string :: "string \<Rightarrow> string" where
  "c_string = takeWhile (\<lambda>c. c \<noteq> NUL)"

definition gw_word :: "gw \<Rightarrow> string" where
  "gw_word g = c_string ((gw_buf g)[min (gw_len g) (MAXWORDLEN - 1) := NUL])"

definition getword_raw :: "string \<Rightarrow> string \<Rightarrow> (bool \<times> gw \<times> string) option" where
  "getword_raw word f =
     (case skip_space f False False of
        None \<Rightarrow> None
      | Some (escape, cs, nl) \<Rightarrow>
          let g0 = \<lparr>gw_buf = word, gw_len = 0, gw_over = False\<rparr>;
              g1 = (if escape then (put_word 0 BACKSLASH g0)\<lparr>gw_len := 1\<rparr> else g0);
              (g, rest) = getword_loop cs escape False g1
          in Some (nl, g, rest))"

text \<open>
  \<open>getword\<close>: whether the word begins a line, the word, and the rest of the file; \<open>None\<close> at its end. The
  array's old contents do not matter.
\<close>

definition getword :: "string \<Rightarrow> (bool \<times> string \<times> string) option" where
  "getword f = map_option (\<lambda>(nl, g, rest). (nl, gw_word g, rest)) (getword_raw (replicate MAXWORDLEN NUL) f)"

section \<open>Progress\<close>

lemma skip_space_shorter: "skip_space f cm nl = Some (e, cs, nl') \<Longrightarrow> length cs \<le> length f \<and> cs \<noteq> []"
  by (induction f cm nl rule: skip_space.induct) (auto split: if_splits list.splits)

lemma skip_space_start:
  "skip_space f cm nl = Some (False, c # cs, nl') \<Longrightarrow> \<not> isspace c \<and> c \<noteq> HASH"
  by (induction f cm nl rule: skip_space.induct) (auto split: if_splits list.splits)

lemma getword_loop_rest: "length (snd (getword_loop cs e q g)) \<le> length cs"
proof (induction cs arbitrary: e q g)
  case (Cons c cs)
  then show ?case by (auto simp: le_SucI split: option.split)
qed simp

lemma getword_loop_first:
  assumes "e \<or> \<not> (isspace c \<or> c = HASH)"
  shows "length (snd (getword_loop (c # cs) e False g)) \<le> length cs"
proof -
  have "getword_char c e False g \<noteq> None" using assms by (auto simp: getword_char_def simp del: not_None_eq)
  then obtain e' q g' where "getword_char c e False g = Some (e', q, g')" by auto
  then show ?thesis using getword_loop_rest[of cs e' q g'] by simp
qed

lemma getword_shorter: "getword f = Some (nl, w, rest) \<Longrightarrow> length rest < length f"
proof -
  assume "getword f = Some (nl, w, rest)"
  then obtain g0 where "getword_raw (replicate MAXWORDLEN NUL) f = Some (nl, g0, rest)"
    by (auto simp: getword_def)
  then obtain e cs g where s: "skip_space f False False = Some (e, cs, nl)"
    and r: "rest = snd (getword_loop cs e False g)"
    unfolding getword_raw_def Let_def
    by (cases "skip_space f False False") (auto split: prod.splits, metis snd_conv)
  obtain c ds where cs: "cs = c # ds" using skip_space_shorter[OF s] by (cases cs) auto
  have "e \<or> \<not> (isspace c \<or> c = HASH)" using skip_space_start[of f False False c ds nl] s cs by (cases e) auto
  then have "length rest \<le> length ds" unfolding r cs by (rule getword_loop_first)
  then show ?thesis using skip_space_shorter[OF s] cs by simp
qed

text \<open>A file as the sequence of its words, each with the mark that it begins a line.\<close>

function tokens :: "string \<Rightarrow> (bool \<times> string) list" where
  "tokens f = (case getword f of None \<Rightarrow> [] | Some (nl, w, rest) \<Rightarrow> (nl, w) # tokens rest)"
  by pat_completeness auto

termination
  by (relation "measure length") (auto dest: getword_shorter)

declare tokens.simps [simp del]

section \<open>Writing a word so that it is read back\<close>

definition quote_char :: "char \<Rightarrow> string" where
  "quote_char c = (if c = QUOTE \<or> c = BACKSLASH then [BACKSLASH, c] else [c])"

definition quote_word :: "string \<Rightarrow> string" where
  "quote_word w = QUOTE # concat (map quote_char w) @ [QUOTE]"

lemma special_chars [simp]: "QUOTE \<noteq> BACKSLASH" "BACKSLASH \<noteq> QUOTE" "QUOTE \<noteq> NL" "BACKSLASH \<noteq> NL" "HASH \<noteq> QUOTE"
  "QUOTE \<noteq> HASH" "HASH \<noteq> BACKSLASH" "\<not> isspace QUOTE" "\<not> isspace HASH" "\<not> isspace BACKSLASH" "NL \<noteq> QUOTE" "NL \<noteq> BACKSLASH"
  "BACKSLASH \<noteq> HASH"
  by (simp_all add: char_defs isspace_def)

text \<open>The array holds the \<open>gw_len\<close> characters read so far, and no store went past its end.\<close>

definition holds_word :: "gw \<Rightarrow> string \<Rightarrow> bool" where
  "holds_word g w \<longleftrightarrow> gw_len g = length w \<and> take (length w) (gw_buf g) = w \<and> length (gw_buf g) = MAXWORDLEN
     \<and> \<not> gw_over g"

lemma holds_add: "holds_word g w \<Longrightarrow> length w < MAXWORDLEN - 1 \<Longrightarrow> holds_word (add_char c g) (w @ [c])"
  by (simp add: holds_word_def add_char_def put_word_def take_Suc_conv_app_nth)

lemma holds_escaped:
  assumes "holds_word g w" and "length w < MAXWORDLEN - 1"
  shows "holds_word (put_word (gw_len (add_char b g) - 1) c (add_char b g)) (w @ [c])"
  using assms by (simp add: holds_word_def add_char_def put_word_def take_Suc_conv_app_nth)

lemma getword_loop_quoted:
  assumes "holds_word g w" and "length w + length v < MAXWORDLEN"
  shows "\<exists>g'. holds_word g' (w @ v) \<and>
    getword_loop (concat (map quote_char v) @ QUOTE # rest) False True g = getword_loop rest False False g'"
  using assms
proof (induction v arbitrary: g w)
  case Nil
  then show ?case by (intro exI[of _ g]) (simp add: getword_char_def)
next
  case (Cons c v)
  have room: "length w < MAXWORDLEN - 1" using Cons.prems(2) by simp
  define g1 where "g1 = (if c = QUOTE \<or> c = BACKSLASH
      then put_word (gw_len (add_char BACKSLASH g) - 1) c (add_char BACKSLASH g) else add_char c g)"
  have g1: "holds_word g1 (w @ [c])"
    using holds_add[OF Cons.prems(1) room] holds_escaped[OF Cons.prems(1) room] by (simp add: g1_def)
  have step: "getword_loop (quote_char c @ cs) False True g = getword_loop cs False True g1" for cs
    by (auto simp: quote_char_def getword_char_def g1_def)
  from Cons.IH[OF g1] Cons.prems(2) obtain g' where "holds_word g' ((w @ [c]) @ v)"
      "getword_loop (concat (map quote_char v) @ QUOTE # rest) False True g1 = getword_loop rest False False g'"
    by auto
  then show ?case using step by auto
qed

lemma holds_gw_word:
  assumes "holds_word g w" and "length w < MAXWORDLEN" and "NUL \<notin> set w"
  shows "gw_word g = w"
proof -
  let ?b = "gw_buf g"
  have n: "min (gw_len g) (MAXWORDLEN - 1) = length w" using assms(1,2) by (simp add: holds_word_def)
  have "?b[length w := NUL] = w @ NUL # drop (Suc (length w)) ?b"
    using assms(1,2) upd_conv_take_nth_drop[of "length w" ?b NUL] by (simp add: holds_word_def)
  then have "c_string (?b[length w := NUL]) = takeWhile (\<lambda>c. c \<noteq> NUL) (w @ NUL # drop (Suc (length w)) ?b)"
    by (simp add: c_string_def)
  also have "\<dots> = w" using assms(3) by (auto simp: takeWhile_append)
  finally show ?thesis unfolding gw_word_def n .
qed

text \<open>
  C28: any word without null characters that fits the array can be written in quotes, with quotes
  and backslashes escaped, so that \<open>getword\<close> reads exactly this word, stays inside the array and
  leaves the rest of the file, beginning with the white space behind it.
\<close>

theorem getword_quote:
  assumes "length w < MAXWORDLEN" and "NUL \<notin> set w" and "isspace c"
  shows "getword (quote_word w @ c # rest) = Some (False, w, c # rest)"
proof -
  let ?g0 = "\<lparr>gw_buf = replicate MAXWORDLEN NUL, gw_len = 0, gw_over = False\<rparr>"
  have skip: "skip_space (quote_word w @ c # rest) False False = Some (False, quote_word w @ c # rest, False)"
    by (simp add: quote_word_def)
  have g0: "holds_word ?g0 []" by (simp add: holds_word_def)
  obtain g' where g': "holds_word g' ([] @ w)"
      "getword_loop (concat (map quote_char w) @ QUOTE # (c # rest)) False True ?g0 = getword_loop (c # rest) False False g'"
    using getword_loop_quoted[OF g0, of w "c # rest"] assms(1) by auto
  have ne: "c \<noteq> QUOTE" using assms(3) by auto
  then have loop: "getword_loop (quote_word w @ c # rest) False False ?g0 = (g', c # rest)"
    using g'(2) assms(3) by (simp add: quote_word_def getword_char_def)
  have "getword_raw (replicate MAXWORDLEN NUL) (quote_word w @ c # rest) = Some (False, g', c # rest)"
    by (simp add: getword_raw_def skip loop)
  moreover have "gw_word g' = w" using g'(1) assms holds_gw_word by simp
  ultimately show ?thesis by (simp add: getword_def)
qed

theorem getword_quote_witness:
  "getword (quote_word ''a b'' @ NL # ''c'') = Some (False, ''a b'', NL # ''c'')"
  using getword_quote[of "''a b''" NL "''c''"] by (simp add: MAXWORDLEN_def char_defs isspace_def)

section \<open>Long words\<close>

lemma loop_plain:
  assumes "\<not> isspace c" "c \<noteq> HASH" "c \<noteq> QUOTE" "c \<noteq> BACKSLASH" and "length (gw_buf g) = MAXWORDLEN" and "\<not> gw_over g"
  shows "\<exists>b. getword_loop (replicate n c @ cs) False False g = getword_loop cs False False
      (g\<lparr>gw_buf := b, gw_len := gw_len g + n\<rparr>) \<and> length b = MAXWORDLEN"
  using assms(5,6)
proof (induction n arbitrary: g)
  case (Suc n)
  let ?g = "add_char c g"
  have "length (gw_buf ?g) = MAXWORDLEN" "\<not> gw_over ?g" "gw_len ?g = gw_len g + 1"
    using Suc.prems by (auto simp: add_char_def put_word_def)
  then obtain b where "getword_loop (replicate n c @ cs) False False ?g =
      getword_loop cs False False (?g\<lparr>gw_buf := b, gw_len := gw_len ?g + n\<rparr>)" "length b = MAXWORDLEN"
    using Suc.IH[of ?g] by blast
  moreover have "?g\<lparr>gw_buf := b, gw_len := gw_len ?g + n\<rparr> = g\<lparr>gw_buf := b, gw_len := gw_len g + Suc n\<rparr>"
    using Suc.prems by (simp add: add_char_def put_word_def)
  moreover have "getword_char c False False g = Some (False, False, ?g)" using assms by (simp add: getword_char_def)
  ultimately show ?case by auto
qed (simp, metis gw.surjective gw.update_convs(1))

text \<open>
  Plain characters beyond the array are dropped, but an escaped quote, space or backslash is
  stored without looking at the length: a word of at least 1024 plain characters followed by
  \<^verbatim>\<open>\"\<close> makes \<open>getword\<close> write past the caller's array.
\<close>

theorem getword_overflow:
  assumes "MAXWORDLEN \<le> n" and "isspace c \<and> c \<noteq> NL \<or> c = QUOTE \<or> c = BACKSLASH"
    and "\<not> isspace d" and "d \<notin> {HASH, QUOTE, BACKSLASH}" and "length word = MAXWORDLEN"
  shows "\<exists>nl g rest. getword_raw word (replicate n d @ [BACKSLASH, c]) = Some (nl, g, rest) \<and> gw_over g"
proof -
  let ?f = "replicate n d @ [BACKSLASH, c]"
  let ?g0 = "\<lparr>gw_buf = word, gw_len = 0, gw_over = False\<rparr>"
  have "0 < n" using assms(1) by (simp add: MAXWORDLEN_def)
  then obtain m where n: "n = Suc m" by (cases n) simp_all
  have "d \<noteq> NL" using assms(3) by (auto simp: isspace_def NL_def)
  then have skip: "skip_space ?f False False = Some (False, ?f, False)"
    using assms(3,4) by (simp add: n)
  obtain b where b: "length b = MAXWORDLEN" and loop: "getword_loop ?f False False ?g0 =
      getword_loop [BACKSLASH, c] False False (?g0\<lparr>gw_buf := b, gw_len := n\<rparr>)"
    using loop_plain[of d ?g0 n "[BACKSLASH, c]"] assms(3-5) by auto
  let ?g1 = "\<lparr>gw_buf = b, gw_len = n + 1, gw_over = False\<rparr>"
  have add: "add_char BACKSLASH (?g0\<lparr>gw_buf := b, gw_len := n\<rparr>) = ?g1"
    using assms(1) by (simp add: add_char_def)
  have "getword_char c True False ?g1 = Some (False, False, put_word n c ?g1)"
    using assms(2) by (auto simp: getword_char_def)
  then have "getword_loop ?f False False ?g0 = (put_word n c ?g1, [])"
    unfolding loop using add by (simp add: getword_char_def)
  moreover have "gw_over (put_word n c ?g1)" using assms(1) b by (simp add: put_word_def)
  ultimately show ?thesis by (auto simp: getword_raw_def skip)
qed

theorem getword_overflow_witness:
  "\<exists>nl g rest. getword_raw (replicate MAXWORDLEN NUL) (replicate 1024 (CHR ''a'') @ [BACKSLASH, QUOTE]) = Some (nl, g, rest) \<and> gw_over g"
  using getword_overflow[of 1024 QUOTE "CHR ''a''" "replicate MAXWORDLEN NUL"]
  by (simp add: MAXWORDLEN_def isspace_def char_defs)

end
