(* ===== verification/Ppp_Secret.thy ===== *)
theory Ppp_Secret
  imports Ppp_Ipcp_Options Ppp_Words
begin

text \<open>
  Which addresses a peer may use (\<^verbatim>\<open>auth.c\<close>: \<open>bad_ip_adrs\<close>, \<open>auth_ip_addr\<close>), and the two places secrets are
  looked up in: the table (\<^verbatim>\<open>pppSecretLib.c\<close>) and the secret files (\<^verbatim>\<open>auth.c: scan_authfile\<close>). Names are
  resolved by \<^verbatim>\<open>inet_addr\<close> and \<^verbatim>\<open>hostGetByName\<close> of the system's libraries, the fields of \<open>resolver\<close>; a file
  system is a function from file names to contents. A null pointer for a name is the empty string, which the
  code treats alike.
\<close>

section \<open>Authorised addresses\<close>

text \<open>Both functions return \<^verbatim>\<open>ERROR\<close> (-1) for a name they do not know.\<close>

record resolver =
  r_inet_addr :: "string \<Rightarrow> u32"
  r_hostGetByName :: "string \<Rightarrow> u32"

definition bad_ip_adrs :: "u32 \<Rightarrow> bool" where
  "bad_ip_adrs a \<longleftrightarrow>
     (let addr = ntohl a
      in drop_bit 24 addr = 127 \<or> addr AND 0xf0000000 = 0xe0000000 \<or> addr AND 0xf0000000 = 0xf0000000)"

text \<open>The loop over the word list. An unknown host is looked for with \<^verbatim>\<open>NULL\<close> instead of \<^verbatim>\<open>ERROR\<close>.\<close>

fun auth_list :: "resolver \<Rightarrow> u32 \<Rightarrow> string list \<Rightarrow> bool" where
  "auth_list res addr [] = False"
| "auth_list res addr (w # ws) =
     (if w = ''-'' then False
      else let a = r_inet_addr res w
           in if a = -1
              then let h = r_hostGetByName res w in if h = 0 then auth_list res addr ws else addr = h \<or> auth_list res addr ws
              else addr = a \<or> auth_list res addr ws)"

definition auth_ip_addr :: "resolver \<Rightarrow> string list \<Rightarrow> u32 \<Rightarrow> bool" where
  "auth_ip_addr res addrs addr =
     (if bad_ip_adrs addr then False else if addrs = [] then True else auth_list res addr addrs)"

text \<open>What a word of the list stands for.\<close>

definition resolve :: "resolver \<Rightarrow> string \<Rightarrow> u32 option" where
  "resolve res w =
     (if r_inet_addr res w \<noteq> -1 then Some (r_inet_addr res w)
      else if r_hostGetByName res w \<noteq> -1 then Some (r_hostGetByName res w) else None)"

lemma broadcast_bad: "bad_ip_adrs (-1)"
  by code_simp

lemma auth_list_iff:
  assumes "addr \<noteq> 0" and "addr \<noteq> -1"
  shows "auth_list res addr ws \<longleftrightarrow> Some addr \<in> resolve res ` set (takeWhile (\<lambda>w. w \<noteq> ''-'') ws)"
  using assms by (induction ws) (auto simp: resolve_def Let_def)



section \<open>The table of secrets\<close>

text \<open>The entries are C strings in arrays of 256 characters; longer ones are outside the model.\<close>

record ppp_secret =
  s_client :: string
  s_server :: string
  s_secret :: string
  s_addrs :: string

record secret_lib =
  sl_init :: bool
  pppSecretHead :: "ppp_secret list"

datatype secret_error = NOT_INITIALIZED | SECRET_DOES_NOT_EXIST | NO_MEMORY | NO_SECRET_FILE

definition NONWILD_SERVER :: int where "NONWILD_SERVER = 1"
definition NONWILD_CLIENT :: int where "NONWILD_CLIENT = 2"

definition ISWILD :: "string \<Rightarrow> bool" where
  "ISWILD w \<longleftrightarrow> w = ''*''"

definition pppSecretLibInit :: "bool \<Rightarrow> secret_lib \<Rightarrow> bool \<times> secret_lib" where
  "pppSecretLibInit sem_ok lib =
     (if sl_init lib then (True, lib) else if sem_ok then (True, lib\<lparr>sl_init := True\<rparr>) else (False, lib))"

definition pppSecretAdd :: "bool \<Rightarrow> string \<Rightarrow> string \<Rightarrow> string \<Rightarrow> string \<Rightarrow> secret_lib \<Rightarrow> secret_error + secret_lib" where
  "pppSecretAdd mem client server secret addrs lib =
     (if \<not> sl_init lib then Inl NOT_INITIALIZED
      else if \<not> mem then Inl NO_MEMORY
      else Inr (lib\<lparr>pppSecretHead := \<lparr>s_client = client, s_server = server, s_secret = secret, s_addrs = addrs\<rparr>
                  # pppSecretHead lib\<rparr>))"

text \<open>The loop of \<open>pppSecretDelete\<close>: the first entry that is equal in all three strings is taken out.\<close>

definition same_secret :: "string \<Rightarrow> string \<Rightarrow> string \<Rightarrow> ppp_secret \<Rightarrow> bool" where
  "same_secret client server secret e \<longleftrightarrow> client = s_client e \<and> server = s_server e \<and> secret = s_secret e"

fun unlink_secret :: "string \<Rightarrow> string \<Rightarrow> string \<Rightarrow> ppp_secret list \<Rightarrow> ppp_secret list option" where
  "unlink_secret client server secret [] = None"
| "unlink_secret client server secret (e # es) =
     (if same_secret client server secret e then Some es
      else map_option ((#) e) (unlink_secret client server secret es))"

definition pppSecretDelete :: "string \<Rightarrow> string \<Rightarrow> string \<Rightarrow> secret_lib \<Rightarrow> secret_error + secret_lib" where
  "pppSecretDelete client server secret lib =
     (if \<not> sl_init lib then Inl NOT_INITIALIZED
      else case unlink_secret client server secret (pppSecretHead lib) of
             None \<Rightarrow> Inl SECRET_DOES_NOT_EXIST
           | Some es \<Rightarrow> Inr (lib\<lparr>pppSecretHead := es\<rparr>))"

definition name_matches :: "string \<Rightarrow> string \<Rightarrow> bool" where
  "name_matches name word \<longleftrightarrow> name = [] \<or> name = word \<or> ISWILD word"

text \<open>The search. \<^verbatim>\<open>got_flag\<close> is not cleared between entries.\<close>

fun best_entry :: "string \<Rightarrow> string \<Rightarrow> ppp_secret list \<Rightarrow> int \<Rightarrow> int \<Rightarrow> ppp_secret option \<Rightarrow> int \<times> ppp_secret option" where
  "best_entry client server [] got best sel = (best, sel)"
| "best_entry client server (e # es) got best sel =
     (if \<not> name_matches client (s_client e) \<or> \<not> name_matches server (s_server e)
      then best_entry client server es got best sel
      else
        let got1 = (if \<not> ISWILD (s_client e) then NONWILD_CLIENT else got);
            got2 = (if \<not> ISWILD (s_server e) then got1 OR NONWILD_SERVER else got1)
        in if got2 > best then best_entry client server es got2 got2 (Some e)
           else best_entry client server es got2 best sel)"

type_synonym files = "string \<Rightarrow> string option"

text \<open>\<^verbatim>\<open>@filename\<close>: the first word of the file. When it cannot be read the result is \<open>None\<close>.\<close>

definition indirect_secret :: "files \<Rightarrow> string \<Rightarrow> string option" where
  "indirect_secret fs word =
     (if word \<noteq> [] \<and> hd word = CHR ''@''
      then Option.bind (fs (tl word)) (\<lambda>f. map_option (\<lambda>(_, w, _). w) (getword f))
      else Some word)"

text \<open>\<^verbatim>\<open>strtok_r\<close> with space and tab as separators.\<close>

fun strtok_words :: "string \<Rightarrow> string \<Rightarrow> string list" where
  "strtok_words w [] = (if w = [] then [] else [w])"
| "strtok_words w (c # cs) =
     (if c = CHR 0x20 \<or> c = CHR 0x09 then (if w = [] then [] else [w]) @ strtok_words [] cs
      else strtok_words (w @ [c]) cs)"

text \<open>
  \<open>pppSecretFind\<close>: the strength, the secret (when the caller wants one) and the authorised addresses.
\<close>

definition pppSecretFind :: "files \<Rightarrow> secret_lib \<Rightarrow> string \<Rightarrow> string \<Rightarrow> bool
    \<Rightarrow> secret_error + (int \<times> string \<times> string list)" where
  "pppSecretFind fs lib client server wanted =
     (if \<not> sl_init lib then Inl NOT_INITIALIZED
      else case best_entry client server (pppSecretHead lib) 0 (-1) None of
             (best, None) \<Rightarrow> Inl SECRET_DOES_NOT_EXIST
           | (best, Some e) \<Rightarrow>
               if \<not> wanted then Inr (best, [], strtok_words [] (s_addrs e))
               else case indirect_secret fs (s_secret e) of
                      None \<Rightarrow> Inl NO_SECRET_FILE
                    | Some sec \<Rightarrow> Inr (best, sec, strtok_words [] (s_addrs e)))"

section \<open>Secret files\<close>

text \<open>The best match so far: its strength, its secret and its addresses.\<close>

type_synonym scan_state = "int \<times> string \<times> string list"

text \<open>
  The loop of \<open>scan_authfile\<close> over the words of the file. \<open>word\<close> is the first word of a line and \<open>ts\<close>
  what follows; \<open>next_line\<close> skips to the next word that begins a line.
\<close>

definition next_line :: "(bool \<times> string) list \<Rightarrow> (string \<times> (bool \<times> string) list) option" where
  "next_line ts = (case dropWhile (\<lambda>t. \<not> fst t) ts of [] \<Rightarrow> None | t # ts' \<Rightarrow> Some (snd t, ts'))"

lemma next_line_less: "next_line ts = Some (w, ts') \<Longrightarrow> length ts' < length ts"
  using length_dropWhile_le[of "\<lambda>t. \<not> fst t" ts] by (auto simp: next_line_def split: list.splits)

lemma next_line_simps [simp]: "next_line [] = None" "next_line ((nl, w) # ts) = (if nl then Some (w, ts) else next_line ts)"
  by (simp_all add: next_line_def)

text \<open>One pass through the body of the loop: the state, and the first word of the next line, if any.\<close>

definition scan_line :: "files \<Rightarrow> string \<Rightarrow> string \<Rightarrow> scan_state \<Rightarrow> string \<Rightarrow> (bool \<times> string) list
    \<Rightarrow> scan_state \<times> (string \<times> (bool \<times> string) list) option" where
  "scan_line fs client server st word ts =
     (if \<not> name_matches client word then (st, next_line ts)
      else
        let got1 = (if \<not> ISWILD word then NONWILD_CLIENT else 0)
        in case ts of
             [] \<Rightarrow> (st, None)
           | (nl, srv) # ts1 \<Rightarrow>
               if nl then (st, Some (srv, ts1))
               else if \<not> name_matches server srv then (st, next_line ts1)
               else
                 let got = (if \<not> ISWILD srv then got1 OR NONWILD_SERVER else got1)
                 in if got \<le> fst st then (st, next_line ts1)
                    else case ts1 of
                           [] \<Rightarrow> (st, None)
                         | (nl2, sec) # ts2 \<Rightarrow>
                             if nl2 then (st, Some (sec, ts2))
                             else case indirect_secret fs sec of
                                    None \<Rightarrow> (st, next_line ts2)
                                  | Some s \<Rightarrow>
                                      ((got, s, map snd (takeWhile (\<lambda>t. \<not> fst t) ts2)), next_line ts2))"

text \<open>Where the next line begins does not depend on the words of this one.\<close>

lemma scan_line_next: "snd (scan_line fs client server st word ts) = next_line ts"
  by (simp add: scan_line_def Let_def split: list.split prod.split option.split)

lemma scan_line_less: "scan_line fs client server st word ts = (st', Some (w, ts')) \<Longrightarrow> length ts' < length ts"
  using scan_line_next[of fs client server st word ts] next_line_less[of ts w ts'] by simp

function scan_lines :: "files \<Rightarrow> string \<Rightarrow> string \<Rightarrow> scan_state \<Rightarrow> string \<Rightarrow> (bool \<times> string) list \<Rightarrow> scan_state" where
  "scan_lines fs client server st word ts =
     (case scan_line fs client server st word ts of
        (st', None) \<Rightarrow> st'
      | (st', Some (w, ts')) \<Rightarrow> scan_lines fs client server st' w ts')"
  by pat_completeness auto

termination
  by (relation "measure (\<lambda>(_, _, _, _, _, ts). length ts)") (auto dest: scan_line_less[OF sym])

declare scan_lines.simps [simp del]

definition scan_authfile :: "files \<Rightarrow> string \<Rightarrow> string \<Rightarrow> string \<Rightarrow> scan_state" where
  "scan_authfile fs client server f =
     (case tokens f of [] \<Rightarrow> (-1, [], []) | (_, w) # ts \<Rightarrow> scan_lines fs client server (-1, [], []) w ts)"

section \<open>The best match\<close>

text \<open>The lines of a file as lists of words, and what a line offers.\<close>

function file_lines :: "string \<Rightarrow> (bool \<times> string) list \<Rightarrow> string list list" where
  "file_lines w ts = (w # map snd (takeWhile (\<lambda>t. \<not> fst t) ts))
     # (case next_line ts of None \<Rightarrow> [] | Some (w', ts') \<Rightarrow> file_lines w' ts')"
  by pat_completeness auto

termination
  by (relation "measure (\<lambda>(_, ts). length ts)") (auto dest: next_line_less)

declare file_lines.simps [simp del]

definition authfile_lines :: "string \<Rightarrow> string list list" where
  "authfile_lines f = (case tokens f of [] \<Rightarrow> [] | (_, w) # ts \<Rightarrow> file_lines w ts)"

definition strength :: "string \<Rightarrow> string \<Rightarrow> int" where
  "strength client server = (if ISWILD client then 0 else 2) + (if ISWILD server then 0 else 1)"

definition line_offer :: "files \<Rightarrow> string \<Rightarrow> string \<Rightarrow> string list \<Rightarrow> scan_state option" where
  "line_offer fs client server ws =
     (case ws of
        c # s # sec # addrs \<Rightarrow>
          if name_matches client c \<and> name_matches server s
          then map_option (\<lambda>x. (strength c s, x, addrs)) (indirect_secret fs sec) else None
      | _ \<Rightarrow> None)"

definition better :: "scan_state \<Rightarrow> scan_state \<Rightarrow> scan_state" where
  "better st x = (if fst x > fst st then x else st)"

lemma flag_strength:
  "(if \<not> ISWILD s then (if \<not> ISWILD c then NONWILD_CLIENT else 0) OR NONWILD_SERVER
    else if \<not> ISWILD c then NONWILD_CLIENT else 0) = strength c s"
  by (simp add: strength_def NONWILD_CLIENT_def NONWILD_SERVER_def)

lemma scan_line_step:
  "fst (scan_line fs client server st word ts) =
    (case line_offer fs client server (word # map snd (takeWhile (\<lambda>t. \<not> fst t) ts)) of
       None \<Rightarrow> st | Some x \<Rightarrow> better st x)"
proof (cases "name_matches client word")
  case True
  show ?thesis
  proof (cases ts)
    case (Cons t ts1)
    obtain nl srv where t: "t = (nl, srv)" by force
    show ?thesis
    proof (cases ts1)
      case Nil
      then show ?thesis using True Cons t by (simp add: scan_line_def line_offer_def Let_def)
    next
      case (Cons u ts2)
      obtain nl2 sec where u: "u = (nl2, sec)" by force
      show ?thesis unfolding scan_line_def Let_def flag_strength \<open>ts = t # ts1\<close> Cons t u
        using True by (auto simp: line_offer_def better_def split: option.split)
    qed
  qed (use True in \<open>simp add: scan_line_def line_offer_def Let_def\<close>)
qed (simp add: scan_line_def line_offer_def split: list.split)

lemma scan_lines_fold:
  "scan_lines fs client server st word ts =
    foldl better st (List.map_filter (line_offer fs client server) (file_lines word ts))"
proof (induction fs client server st word ts rule: scan_lines.induct)
  case (1 fs client server st word ts)
  obtain st' where line: "scan_line fs client server st word ts = (st', next_line ts)"
    using scan_line_next[of fs client server st word ts] by (cases "scan_line fs client server st word ts") simp
  have st': "st' = (case line_offer fs client server (word # map snd (takeWhile (\<lambda>t. \<not> fst t) ts)) of
       None \<Rightarrow> st | Some x \<Rightarrow> better st x)"
    using scan_line_step[of fs client server st word ts] line by simp
  show ?case
  proof (cases "next_line ts")
    case None
    then have "scan_lines fs client server st word ts = st'" using line by (subst scan_lines.simps) simp
    then show ?thesis using None
      by (subst file_lines.simps) (simp add: st' map_filter_simps split: option.split)
  next
    case (Some wt)
    then obtain w ts' where n: "next_line ts = Some (w, ts')" by (cases wt) simp
    then have "scan_lines fs client server st word ts = scan_lines fs client server st' w ts'"
      using line by (subst scan_lines.simps) simp
    moreover have "scan_lines fs client server st' w ts' =
        foldl better st' (List.map_filter (line_offer fs client server) (file_lines w ts'))"
      using "1.IH" line n by simp
    moreover have "file_lines word ts = (word # map snd (takeWhile (\<lambda>t. \<not> fst t) ts)) # file_lines w ts'"
      using n by (subst file_lines.simps) simp
    ultimately show ?thesis by (simp add: st' map_filter_simps split: option.split)
  qed
qed

text \<open>A fold with \<open>better\<close> ends with the first of the strongest.\<close>

definition first_best :: "scan_state list \<Rightarrow> scan_state \<Rightarrow> bool" where
  "first_best xs x \<longleftrightarrow> (\<exists>pre post. xs = pre @ x # post \<and> list_all (\<lambda>y. fst y < fst x) pre
     \<and> list_all (\<lambda>y. fst y \<le> fst x) post)"

lemma first_best_Cons:
  "fst y < fst x \<Longrightarrow> first_best xs x \<Longrightarrow> first_best (y # xs) x"
  "list_all (\<lambda>y. fst y \<le> fst x) xs \<Longrightarrow> first_best (x # xs) x"
proof -
  assume y: "fst y < fst x" and "first_best xs x"
  then obtain pre post where "xs = pre @ x # post" "list_all (\<lambda>y. fst y < fst x) pre" "list_all (\<lambda>y. fst y \<le> fst x) post"
    by (auto simp: first_best_def)
  then show "first_best (y # xs) x" unfolding first_best_def using y
    by (intro exI[of _ "y # pre"] exI[of _ post]) simp
next
  assume "list_all (\<lambda>y. fst y \<le> fst x) xs"
  then show "first_best (x # xs) x" unfolding first_best_def
    by (intro exI[of _ "[]"] exI[of _ xs]) simp
qed

lemma foldl_better:
  "foldl better st xs = st \<and> list_all (\<lambda>y. fst y \<le> fst st) xs
    \<or> fst st < fst (foldl better st xs) \<and> first_best xs (foldl better st xs)"
proof (induction xs arbitrary: st)
  case (Cons x xs)
  show ?case
  proof (cases "fst st < fst x")
    case True
    then have b: "foldl better st (x # xs) = foldl better x xs" by (simp add: better_def)
    from Cons.IH[of x] show ?thesis
    proof (elim disjE conjE)
      assume "foldl better x xs = x" "list_all (\<lambda>y. fst y \<le> fst x) xs"
      then show ?thesis unfolding b using True first_best_Cons(2)[of x xs] by simp
    next
      assume "fst x < fst (foldl better x xs)" "first_best xs (foldl better x xs)"
      then show ?thesis unfolding b using True first_best_Cons(1)[of x "foldl better x xs" xs] by simp
    qed
  next
    case False
    then have b: "foldl better st (x # xs) = foldl better st xs" by (simp add: better_def)
    show ?thesis using Cons.IH[of st] False first_best_Cons(1)[of x "foldl better st xs" xs] unfolding b by auto
  qed
qed simp

lemma foldl_better_start:
  assumes "list_all (\<lambda>y. 0 \<le> fst y) xs"
  shows "if xs = [] then foldl better (-1, s, a) xs = (-1, s, a) else first_best xs (foldl better (-1, s, a) xs)"
  using foldl_better[of "(-1, s, a)" xs] assms by (cases xs) auto

text \<open>
  C26: \<open>scan_authfile\<close> finds the first of the strongest lines. A line counts when it has a client and a
  server that match, by name or as a wildcard, and a secret that can be read; naming the client
  counts more than naming the server. The secret and the addresses come from this
  line, and without one the result is -1.
\<close>

theorem scan_authfile_best:
  "let offers = List.map_filter (line_offer fs client server) (authfile_lines f) in
    if offers = [] then fst (scan_authfile fs client server f) = -1
    else first_best offers (scan_authfile fs client server f)"
proof -
  define offers where "offers = List.map_filter (line_offer fs client server) (authfile_lines f)"
  have "scan_authfile fs client server f = foldl better (-1, [], []) offers"
    by (simp add: scan_authfile_def offers_def authfile_lines_def scan_lines_fold map_filter_simps split: list.split)
  moreover have "0 \<le> fst y" if "line_offer fs client server ws = Some y" for ws y
    using that by (auto simp: line_offer_def strength_def split: list.splits if_splits)
  then have "list_all (\<lambda>y. 0 \<le> fst y) offers"
    unfolding offers_def list_all_iff List.map_filter_def by force
  ultimately show ?thesis using foldl_better_start[of offers "[]" "[]"]
    unfolding offers_def[symmetric] Let_def by (auto split: if_splits)
qed

section \<open>The table\<close>

text \<open>The flags are at most 3, so an entry that names both is not replaced.\<close>

lemma best_entry_exact:
  assumes "0 \<le> got" and "got \<le> 3"
  shows "best_entry client server es got 3 sel = (3, sel)"
  using assms
proof (induction es arbitrary: got)
  case (Cons e es)
  define got1 where "got1 = (if \<not> ISWILD (s_client e) then NONWILD_CLIENT else got)"
  define got2 where "got2 = (if \<not> ISWILD (s_server e) then got1 OR NONWILD_SERVER else got1)"
  have "got1 \<in> {0, 1, 2, 3}" using Cons.prems by (auto simp: got1_def NONWILD_CLIENT_def)
  moreover have "(0 :: int) OR 1 = 1" "(1 :: int) OR 1 = 1" "(2 :: int) OR 1 = 3" "(3 :: int) OR 1 = 3" by simp_all
  ultimately have "got2 \<in> {0, 1, 2, 3}" unfolding got2_def NONWILD_SERVER_def by (elim insertE) simp_all
  then have "0 \<le> got2" "got2 \<le> 3" by auto
  then show ?case using Cons.IH[of got] Cons.IH[of got2] Cons.prems
    by (simp add: got1_def[symmetric] got2_def[symmetric] Let_def)
qed simp



text \<open>
  \<^verbatim>\<open>got_flag\<close> is left over from the entry before. An entry for one client on any server, followed
  by an entry for any client on our server, makes \<open>pppSecretFind\<close> choose the second for that client and
  report it as naming the client, although only the first does; the file reader, given the
  same two lines, chooses the first.
\<close>

theorem pppSecretFind_stale:
  assumes "client \<noteq> []" and "\<not> ISWILD client" and "server \<noteq> []" and "\<not> ISWILD server" and "sl_init lib"
    and "pppSecretHead lib = [\<lparr>s_client = client, s_server = ''*'', s_secret = own, s_addrs = a1\<rparr>,
      \<lparr>s_client = ''*'', s_server = server, s_secret = shared, s_addrs = a2\<rparr>]"
    and "indirect_secret fs shared = Some sec" and "indirect_secret fs own = Some mine"
  shows "pppSecretFind fs lib client server True = Inr (3, sec, strtok_words [] a2)
    \<and> foldl better (-1, [], []) (List.map_filter (line_offer fs client server) [[client, ''*'', own], [''*'', server, shared]])
        = (2, mine, [])"
proof -
  have w: "ISWILD ''*''" by (simp add: ISWILD_def)
  have "(2 :: int) OR 1 = 3" by simp
  then have "best_entry client server (pppSecretHead lib) 0 (-1) None =
      (3, Some \<lparr>s_client = ''*'', s_server = server, s_secret = shared, s_addrs = a2\<rparr>)"
    using assms(1-4) w unfolding assms(6)
    by (simp add: name_matches_def NONWILD_CLIENT_def NONWILD_SERVER_def)
  moreover have "foldl better (-1, [], []) (List.map_filter (line_offer fs client server)
      [[client, ''*'', own], [''*'', server, shared]]) = (2, mine, [])"
    using assms w by (simp add: map_filter_simps line_offer_def name_matches_def strength_def better_def)
  ultimately show ?thesis using assms(5,7) by (simp add: pppSecretFind_def)
qed

theorem pppSecretFind_stale_witness:
  "pppSecretFind (\<lambda>_. None) \<lparr>sl_init = True, pppSecretHead =
       [\<lparr>s_client = ''joe'', s_server = ''*'', s_secret = ''x'', s_addrs = []\<rparr>,
        \<lparr>s_client = ''*'', s_server = ''gate'', s_secret = [], s_addrs = []\<rparr>]\<rparr> ''joe'' ''gate'' True = Inr (3, [], [])"
  using pppSecretFind_stale[of "''joe''" "''gate''" "\<lparr>sl_init = True, pppSecretHead =
       [\<lparr>s_client = ''joe'', s_server = ''*'', s_secret = ''x'', s_addrs = []\<rparr>,
        \<lparr>s_client = ''*'', s_server = ''gate'', s_secret = [], s_addrs = []\<rparr>]\<rparr>" "''x''" "[]" "[]" "[]" "\<lambda>_. None" "[]" "''x''"]
  by (simp add: ISWILD_def indirect_secret_def)

end
