(* ===== verification/Ppp_Ipcp.thy ===== *)
theory Ppp_Ipcp
  imports Ppp_Lcp_Log Ppp_Ipcp_Reqci Ppp_Secret
begin

text \<open>
  The IP control protocol proper (\<^verbatim>\<open>ipcp.c\<close>) over the same unit: its callback table for the
  automaton, what it does to the network interface, and its entry points. The unit now holds
  two automata, LCP's in the field \<open>lcp_fsm\<close> and IPCP's as the first component of the state.

  IPCP takes the whole link down by calling \<open>die\<close>, which closes LCP, which in turn tells IPCP
  that the lower layer is down. As for LCP the cycle is cut where the code does not use it:
  \<open>fsm_lowerdown\<close> and \<open>fsm_close\<close> call neither \<open>rejci\<close> nor \<open>up\<close>.
\<close>

section \<open>The unit\<close>

text \<open>
  Calls into the interface code (\<^verbatim>\<open>ppp_vxworks.c\<close>, not in the tree), with the answers of those that
  give one: \<open>ip_answers\<close> is the parameter that says what the next call returns.
\<close>

datatype ip_call =
    Sifaddr u32 u32 u32
  | Sifvjcomp bool u8 u8
  | Sifup
  | Sifdefaultroute u32 | Sifproxyarp u32
  | Cifproxyarp u32 | Cifdefaultroute u32
  | Sifdown_ip
  | Cifaddr u32 u32

record ipcp_unit = lcp_unit +
  lcp_fsm :: fsm
  ipcp_wantoptions :: ipcp_options
  ipcp_gotoptions :: ipcp_options
  ipcp_allowoptions :: ipcp_options
  ipcp_hisoptions :: ipcp_options
  cis_received :: int
  addresses :: "string list"
  netmask :: u32
  names :: resolver
  ip_answers :: "nat \<Rightarrow> bool"
  ip_calls :: "(ip_call \<times> bool) list"

type_synonym ipcp_st = "fsm \<times> ipcp_unit"

definition on_ip :: "(ipcp_unit \<Rightarrow> ipcp_unit) \<Rightarrow> ipcp_st \<Rightarrow> ipcp_st" where
  "on_ip g st = (fst st, g (snd st))"

definition ip_answer :: "ipcp_st \<Rightarrow> bool" where
  "ip_answer st = ip_answers (snd st) (length (ip_calls (snd st)))"

definition ip_ask :: "ip_call \<Rightarrow> ipcp_st \<Rightarrow> ipcp_st" where
  "ip_ask c st = on_ip (\<lambda>w. w\<lparr>ip_calls := ip_calls w @ [(c, ip_answer st)]\<rparr>) st"

text \<open>The part of the unit LCP works on, and running one of its routines there.\<close>

definition lcp_part :: "ipcp_unit \<Rightarrow> lcp_st" where
  "lcp_part w = (lcp_fsm w, lcp_unit.truncate w)"

definition with_lcp :: "lcp_st \<Rightarrow> ipcp_unit \<Rightarrow> ipcp_unit" where
  "with_lcp l w = (lcp_unit.extend (snd l) (lcp_unit.more w))\<lparr>lcp_fsm := fst l\<rparr>"

section \<open>Callbacks\<close>

definition ipcp_resetci :: "ipcp_st \<Rightarrow> ipcp_st" where
  "ipcp_resetci = on_ip (\<lambda>w.
     let wo0 = ipcp_wantoptions w;
         wo1 = wo0\<lparr>req_addr := neg_addr wo0 \<and> neg_addr (ipcp_allowoptions w)\<rparr>;
         wo2 = (if ouraddr wo1 = 0 then wo1\<lparr>accept_local := True\<rparr> else wo1);
         wo = (if hisaddr wo2 = 0 then wo2\<lparr>accept_remote := True\<rparr> else wo2)
     in w\<lparr>ipcp_wantoptions := wo, ipcp_gotoptions := wo, cis_received := 0\<rparr>)"

definition ipcp_cilen_cb :: "ipcp_st \<Rightarrow> nat" where
  "ipcp_cilen_cb st = ipcp_cilen (ipcp_gotoptions (snd st))"

definition ipcp_addci_cb :: "ipcp_st \<Rightarrow> nat \<Rightarrow> u8 list \<times> nat \<times> ipcp_st" where
  "ipcp_addci_cb st len =
     (let w = snd st;
          (bs, n, go) = ipcp_addci (cis_received w) (ipcp_wantoptions w) (ipcp_hisoptions w) (ipcp_gotoptions w) len
      in (bs, n, fst st, w\<lparr>ipcp_gotoptions := go\<rparr>))"

definition ipcp_ackci_cb :: "ipcp_st \<Rightarrow> u8 list \<Rightarrow> nat \<Rightarrow> bool \<times> ipcp_st" where
  "ipcp_ackci_cb st p len = (ipcp_ackci (ipcp_gotoptions (snd st)) p len, st)"

definition ipcp_nakci_cb :: "ipcp_st \<Rightarrow> u8 list \<Rightarrow> nat \<Rightarrow> (bool \<times> ipcp_st) option" where
  "ipcp_nakci_cb st p len =
     (let (good, go) = ipcp_nakci (st_of st = OPENED) (ipcp_gotoptions (snd st)) p len
      in Some (good, fst st, (snd st)\<lparr>ipcp_gotoptions := go\<rparr>))"

definition ipcp_reqci_cb :: "ipcp_st \<Rightarrow> u8 list \<Rightarrow> nat \<Rightarrow> bool \<Rightarrow> u8 \<times> u8 list \<times> nat \<times> ipcp_st" where
  "ipcp_reqci_cb st inp len rid =
     (let w = snd st;
          (rc, buf, n, ho, go, wo) =
            ipcp_reqci (ipcp_wantoptions w) (ipcp_allowoptions w) (ipcp_gotoptions w) inp len rid
      in (rc, buf, n, fst st, w\<lparr>ipcp_hisoptions := ho, ipcp_gotoptions := go, ipcp_wantoptions := wo\<rparr>))"

definition ipcp_down :: "ipcp_st \<Rightarrow> ipcp_st" where
  "ipcp_down st =
     (let our = ouraddr (ipcp_gotoptions (snd st)); his = hisaddr (ipcp_hisoptions (snd st));
          st1 = (if proxy_arp (ipcp_gotoptions (snd st)) then ip_ask (Cifproxyarp his) st else st);
          st2 = (if default_route (ipcp_gotoptions (snd st)) then ip_ask (Cifdefaultroute his) st1 else st1)
      in ip_ask (Cifaddr our his) (ip_ask Sifdown_ip st2))"

text \<open>The table without \<open>rejci\<close> and \<open>up\<close>, the two callbacks that call \<open>die\<close>.\<close>

definition ipcp_base_callbacks :: "unit ipcp_unit_ext lcp_unit_ext fsm_callbacks" where
  "ipcp_base_callbacks = \<lparr>cb_resetci = Some ipcp_resetci, cb_cilen = Some ipcp_cilen_cb,
     cb_addci = Some ipcp_addci_cb, cb_ackci = Some ipcp_ackci_cb, cb_nakci = Some ipcp_nakci_cb,
     cb_rejci = None, cb_reqci = Some ipcp_reqci_cb, cb_up = None,
     cb_down = Some ipcp_down, cb_starting = None, cb_finished = None,
     cb_retransmit = None, cb_extcode = None\<rparr>"

definition ipcp_lowerdown :: "ipcp_st \<Rightarrow> ipcp_st" where
  "ipcp_lowerdown = fsm_lowerdown ipcp_base_callbacks"

text \<open>
  \<open>die\<close> as IPCP sees it: LCP closes, and if that took LCP down (\<open>lcp_down\<close> calls
  \<^verbatim>\<open>ipcp_lowerdown\<close>) so does IPCP. When \<open>exited\<close> is set the task is gone.
\<close>

definition ipcp_die :: "ipcp_st \<Rightarrow> ipcp_st" where
  "ipcp_die st =
     (let w = snd st; l = die (lcp_part w); st' = (fst st, with_lcp l w)
      in if Ipcp_lowerdown \<in> set (drop (length (calls w)) (calls (snd l))) then ipcp_lowerdown st' else st')"

text \<open>
  \<open>ipcp_rejci\<close>: a rejected address option ends the link before the values are compared. When
  the task has ended no more is done, which the automaton is told with the result \<open>False\<close>.
\<close>

definition ipcp_rejci_cb :: "ipcp_st \<Rightarrow> u8 list \<Rightarrow> nat \<Rightarrow> bool \<times> ipcp_st" where
  "ipcp_rejci_cb st p len =
     (let st1 = (if rejects_addr (ipcp_gotoptions (snd st)) p len then ipcp_die st else st)
      in if rejects_addr (ipcp_gotoptions (snd st)) p len \<and> exited (snd st1) then (False, st1)
         else let (good, go) = ipcp_rejci (st_of st1 = OPENED) (ipcp_gotoptions (snd st1)) p len
              in (good, on_ip (\<lambda>w. w\<lparr>ipcp_gotoptions := go\<rparr>) st1))"

definition ipcp_close :: "ipcp_st \<Rightarrow> ipcp_st" where
  "ipcp_close st = ipcp_die (fsm_close ipcp_base_callbacks st)"

definition GetMask :: "ipcp_unit \<Rightarrow> u32" where
  "GetMask w = netmask w"

text \<open>The end of \<open>ipcp_up\<close>, when the interface is up: the route and the proxy ARP entry.\<close>

definition ipcp_routes :: "ipcp_st \<Rightarrow> ipcp_st" where
  "ipcp_routes st =
     (let his = hisaddr (ipcp_hisoptions (snd st));
          st1 = (if default_route (ipcp_wantoptions (snd st))
                 then let st' = ip_ask (Sifdefaultroute his) st
                      in if ip_answer st then on_ip (\<lambda>w. w\<lparr>ipcp_gotoptions := (ipcp_gotoptions w)\<lparr>default_route := True\<rparr>\<rparr>) st'
                         else st'
                 else st)
      in if proxy_arp (ipcp_wantoptions (snd st1))
         then let st' = ip_ask (Sifproxyarp his) st1
              in if ip_answer st1 then on_ip (\<lambda>w. w\<lparr>ipcp_gotoptions := (ipcp_gotoptions w)\<lparr>proxy_arp := True\<rparr>\<rparr>) st'
                 else st'
         else st1)"

text \<open>The beginning: flags cleared, and the configured address taken for a peer that sent none.\<close>

definition ipcp_up_begin :: "ipcp_st \<Rightarrow> ipcp_st" where
  "ipcp_up_begin = on_ip (\<lambda>w.
     let ho = ipcp_hisoptions w
     in w\<lparr>ipcp_gotoptions := (ipcp_gotoptions w)\<lparr>default_route := False, proxy_arp := False\<rparr>,
          ipcp_hisoptions := (if neg_addr ho then ho else ho\<lparr>hisaddr := hisaddr (ipcp_wantoptions w)\<rparr>)\<rparr>)"

definition ipcp_up :: "ipcp_st \<Rightarrow> ipcp_st" where
  "ipcp_up st0 =
     (let st = ipcp_up_begin st0; w = snd st;
          his = hisaddr (ipcp_hisoptions w); our = ouraddr (ipcp_gotoptions w)
      in if his = 0 then ipcp_close st
         else if our = 0 then ipcp_close st
         else if \<not> auth_ip_addr (names w) (addresses w) his then ipcp_close st
         else
           let st1 = ip_ask (Sifaddr our his (GetMask w)) st
           in if \<not> ip_answer st then ipcp_close st1
              else
                let ho = ipcp_hisoptions w;
                    st2 = ip_ask (Sifvjcomp (neg_vj ho) (cflag ho) (maxslotindex ho)) st1;
                    st3 = ip_ask Sifup st2
                in if \<not> ip_answer st2 then ipcp_close st3 else ipcp_routes st3)"

definition ipcp_callbacks :: "unit ipcp_unit_ext lcp_unit_ext fsm_callbacks" where
  "ipcp_callbacks = ipcp_base_callbacks\<lparr>cb_rejci := Some ipcp_rejci_cb, cb_up := Some ipcp_up\<rparr>"

section \<open>Entry points\<close>

definition ipcp_init :: "int \<Rightarrow> ipcp_st \<Rightarrow> ipcp_st" where
  "ipcp_init unit st =
     (let st1 = fsm_init ((fst st)\<lparr>f_unit := unit, f_protocol := IPCP\<rparr>, snd st)
      in on_ip (\<lambda>w. w\<lparr>
           ipcp_wantoptions := (ipcp_wantoptions w)\<lparr>neg_addr := True, old_addrs := False, ouraddr := 0,
             hisaddr := 0, neg_vj := True, old_vj := False, vj_protocol := IPCP_VJ_COMP,
             maxslotindex := MAX_STATES - 1, cflag := 1\<rparr>,
           ipcp_allowoptions := (ipcp_allowoptions w)\<lparr>neg_addr := True, neg_vj := True,
             maxslotindex := MAX_STATES - 1, cflag := 1\<rparr>\<rparr>) st1)"

definition ipcp_open :: "ipcp_st \<Rightarrow> ipcp_st" where
  "ipcp_open = fsm_open ipcp_callbacks"

definition ipcp_lowerup :: "ipcp_st \<Rightarrow> ipcp_st" where
  "ipcp_lowerup = fsm_lowerup ipcp_callbacks"

definition ipcp_input :: "u8 list \<Rightarrow> nat \<Rightarrow> ipcp_st \<Rightarrow> ipcp_st option" where
  "ipcp_input p len = fsm_input ipcp_callbacks p len"

definition ipcp_protrej :: "ipcp_st \<Rightarrow> ipcp_st" where
  "ipcp_protrej = fsm_lowerdown ipcp_base_callbacks"

section \<open>The link\<close>

text \<open>
  LCP and IPCP together. What LCP's routines record for IPCP is carried out when the routine
  returns, in the order in which it was recorded; a frame for IPCP goes to \<open>ipcp_input\<close> when
  LCP is open (\<^verbatim>\<open>pppLib.c: io\<close>).
\<close>

definition ipcp_notified :: "ppp_call \<Rightarrow> ipcp_st \<Rightarrow> ipcp_st" where
  "ipcp_notified c st =
     (case c of
        Ipcp_lowerup \<Rightarrow> ipcp_lowerup st
      | Ipcp_lowerdown \<Rightarrow> ipcp_lowerdown st
      | Ipcp_open \<Rightarrow> ipcp_open st
      | Protrej prot \<Rightarrow> if prot = IPCP then ipcp_protrej st else st
      | _ \<Rightarrow> st)"

definition told :: "ipcp_st \<Rightarrow> lcp_st \<Rightarrow> ipcp_st" where
  "told st l = fold ipcp_notified (drop (length (calls (snd st))) (calls (snd l))) (fst st, with_lcp l (snd st))"

definition link_run_timer :: "ppp_key \<Rightarrow> ipcp_st \<Rightarrow> ipcp_st" where
  "link_run_timer k st =
     (if exited (snd st) then st
      else if k = timer_key (fst st) then fsm_timeout ipcp_callbacks st
      else told st (run_timer k (lcp_part (snd st))))"

definition link_alrm :: "ipcp_st \<Rightarrow> ipcp_st" where
  "link_alrm st =
     (case callout_list (snd st) of
        [] \<Rightarrow> st
      | c # cs \<Rightarrow>
          fold link_run_timer (map c_key (c # takeWhile (\<lambda>d. c_time d = 0) cs))
            (on_ip (\<lambda>w. w\<lparr>callout_list := dropWhile (\<lambda>d. c_time d = 0) cs\<rparr>) st))"

definition for_ipcp :: "lcp_event \<Rightarrow> ipcp_st \<Rightarrow> bool" where
  "for_ipcp ev st \<longleftrightarrow>
     (case ev of
        Frame p len \<Rightarrow> len \<ge> DLLHEADERLEN \<and> get_short (drop 2 p) = IPCP \<and> f_state (lcp_fsm (snd st)) = OPENED
      | _ \<Rightarrow> False)"

definition link_handle :: "lcp_event \<Rightarrow> ipcp_st \<Rightarrow> ipcp_st option" where
  "link_handle ev st =
     (case ev of
        Alarm \<Rightarrow> Some (link_alrm st)
      | Frame p len \<Rightarrow>
          if for_ipcp ev st then ipcp_input (drop 4 p) (len - DLLHEADERLEN) st
          else map_option (told st) (lcp_handle ev (lcp_part (snd st)))
      | _ \<Rightarrow> map_option (told st) (lcp_handle ev (lcp_part (snd st))))"

definition link_init :: "int \<Rightarrow> ipcp_st \<Rightarrow> ipcp_st" where
  "link_init unit st = ipcp_init unit (fst st, with_lcp (lcp_init unit (lcp_part (snd st))) (snd st))"

definition ipcp_configure :: "ipcp_options \<Rightarrow> ipcp_options \<Rightarrow> u32 \<Rightarrow> ipcp_unit \<Rightarrow> ipcp_unit" where
  "ipcp_configure wo ao nmask w = w\<lparr>ipcp_wantoptions := wo, ipcp_allowoptions := ao, netmask := nmask\<rparr>"

text \<open>
  The states of a unit: both protocols initialised, their options configured, then events in any order. With \<open>s\<close>, frames
  that carry a Terminate-Ack are left out while LCP is open.
\<close>

inductive link_reach :: "bool \<Rightarrow> ipcp_st \<Rightarrow> bool" for s where
  init: "calls (snd st) = [] \<Longrightarrow> ip_calls (snd st) = [] \<Longrightarrow> \<not> exited (snd st) \<Longrightarrow> link_reach s (link_init unit st)"
| configure: "link_reach s st \<Longrightarrow> f_state (lcp_fsm (snd st)) = INITIAL \<Longrightarrow>
    link_reach s (on_ip (\<lambda>w. ipcp_configure iwo iao nmask (lcp_configure wo ao required interval fails w)) st)"
| step: "link_reach s st \<Longrightarrow> \<not> exited (snd st) \<Longrightarrow> s \<longrightarrow> \<not> stray_termack ev (lcp_part (snd st)) \<Longrightarrow>
    link_handle ev st = Some st' \<Longrightarrow> link_reach s st'"

end
