(* ===== verification/Ppp_Ipcp_Correct.thy ===== *)
theory Ppp_Ipcp_Correct
  imports Ppp_Ipcp
begin

text \<open>
  IPCP meets the contract of the automaton, the interface is up exactly while IPCP is open, and
  IPCP is active only while LCP has told it that the link is up.
\<close>

section \<open>Views of the unit\<close>

lemma lcp_part_with_lcp [simp]: "lcp_part (with_lcp l w) = l"
  by (cases l; cases "snd l") (simp add: lcp_part_def with_lcp_def lcp_unit.defs)

lemma with_lcp_fields [simp]:
  "ipcp_gotoptions (with_lcp l w) = ipcp_gotoptions w" "ipcp_hisoptions (with_lcp l w) = ipcp_hisoptions w"
  "ipcp_wantoptions (with_lcp l w) = ipcp_wantoptions w" "ipcp_allowoptions (with_lcp l w) = ipcp_allowoptions w"
  "ip_calls (with_lcp l w) = ip_calls w" "callout_list (with_lcp l w) = callout_list (snd l)"
  "calls (with_lcp l w) = calls (snd l)" "lcp_fsm (with_lcp l w) = fst l" "exited (with_lcp l w) = exited (snd l)"
  by (cases w; simp add: with_lcp_def lcp_unit.defs)+

lemma lcp_part_fields [simp]: "fst (lcp_part w) = lcp_fsm w" "calls (snd (lcp_part w)) = calls w"
  "callout_list (snd (lcp_part w)) = callout_list w" "exited (snd (lcp_part w)) = exited w"
  by (simp_all add: lcp_part_def lcp_unit.defs)

lemma on_ip_simps [simp]: "fst (on_ip g st) = fst st" "snd (on_ip g st) = g (snd st)"
  by (simp_all add: on_ip_def)

lemma ip_ask_simps [simp]: "fst (ip_ask c st) = fst st"
  "snd (ip_ask c st) = (snd st)\<lparr>ip_calls := ip_calls (snd st) @ [(c, ip_answer st)]\<rparr>"
  by (simp_all add: ip_ask_def)

text \<open>Whether the interface is up: the last of the calls that say so.\<close>

primrec ip_last :: "bool \<Rightarrow> (ip_call \<times> bool) list \<Rightarrow> bool" where
  "ip_last b [] = b"
| "ip_last b (c # cs) = ip_last (if c = (Sifup, True) then True else if fst c = Sifdown_ip then False else b) cs"

definition if_up :: "ipcp_unit \<Rightarrow> bool" where
  "if_up w = ip_last False (ip_calls w)"

lemma ip_last_append [simp]: "ip_last b (xs @ ys) = ip_last (ip_last b xs) ys"
  by (induction xs arbitrary: b) simp_all

section \<open>The base table\<close>

lemmas ipcp_cb_defs = ipcp_resetci_def ipcp_addci_cb_def ipcp_ackci_cb_def ipcp_nakci_cb_def ipcp_reqci_cb_def

lemma ipcp_tables [simp]:
  "cb_resetci ipcp_base_callbacks = Some ipcp_resetci" "cb_resetci ipcp_callbacks = Some ipcp_resetci"
  "cb_cilen ipcp_base_callbacks = Some ipcp_cilen_cb" "cb_cilen ipcp_callbacks = Some ipcp_cilen_cb"
  "cb_addci ipcp_base_callbacks = Some ipcp_addci_cb" "cb_addci ipcp_callbacks = Some ipcp_addci_cb"
  "cb_ackci ipcp_base_callbacks = Some ipcp_ackci_cb" "cb_ackci ipcp_callbacks = Some ipcp_ackci_cb"
  "cb_nakci ipcp_base_callbacks = Some ipcp_nakci_cb" "cb_nakci ipcp_callbacks = Some ipcp_nakci_cb"
  "cb_reqci ipcp_base_callbacks = Some ipcp_reqci_cb" "cb_reqci ipcp_callbacks = Some ipcp_reqci_cb"
  "cb_down ipcp_base_callbacks = Some ipcp_down" "cb_down ipcp_callbacks = Some ipcp_down"
  "cb_starting ipcp_base_callbacks = None" "cb_starting ipcp_callbacks = None"
  "cb_finished ipcp_base_callbacks = None" "cb_finished ipcp_callbacks = None"
  "cb_retransmit ipcp_base_callbacks = None" "cb_retransmit ipcp_callbacks = None"
  "cb_extcode ipcp_base_callbacks = None" "cb_extcode ipcp_callbacks = None"
  "cb_rejci ipcp_base_callbacks = None" "cb_rejci ipcp_callbacks = Some ipcp_rejci_cb"
  "cb_up ipcp_base_callbacks = None" "cb_up ipcp_callbacks = Some ipcp_up"
  by (simp_all add: ipcp_base_callbacks_def ipcp_callbacks_def)

text \<open>The option callbacks change only IPCP's options.\<close>

definition same_ip :: "ipcp_st \<Rightarrow> ipcp_st \<Rightarrow> bool" where
  "same_ip st st' \<longleftrightarrow> ci_frame st st' \<and> ip_calls (snd st') = ip_calls (snd st) \<and> lcp_fsm (snd st') = lcp_fsm (snd st)
     \<and> calls (snd st') = calls (snd st)"

lemma ipcp_ci_laws:
  "same_ip st (ipcp_resetci st)"
  "ipcp_addci_cb st n = (bs, m, st') \<Longrightarrow> same_ip st st'"
  "ipcp_ackci_cb st p n = (good, st') \<Longrightarrow> same_ip st st'"
  "ipcp_nakci_cb st p n = Some (good, st') \<Longrightarrow> same_ip st st'"
  "ipcp_reqci_cb st p n rej = (code, p', n', st') \<Longrightarrow> same_ip st st'"
  by (auto simp: same_ip_def ci_frame_def ipcp_cb_defs Let_def split: prod.splits)

lemma same_ip_frame: "same_ip st st' \<Longrightarrow> ci_frame st st'" "same_ip st st' \<Longrightarrow> if_up (snd st') = if_up (snd st)"
  by (simp_all add: same_ip_def if_up_def)

lemma ipcp_down_fsm [simp]: "fst (ipcp_down st) = fst st"
  by (simp add: ipcp_down_def Let_def)

lemma ipcp_down_unit: "lcp_fsm (snd (ipcp_down st)) = lcp_fsm (snd st)" "calls (snd (ipcp_down st)) = calls (snd st)"
  "callout_list (snd (ipcp_down st)) = callout_list (snd st)" "\<not> if_up (snd (ipcp_down st))"
  by (simp_all add: ipcp_down_def Let_def if_up_def)

lemma if_up_updates [simp]: "if_up (w\<lparr>callout_list := x1\<rparr>) = if_up w" "if_up (w\<lparr>outpacket_buf := x2\<rparr>) = if_up w"
  "if_up (w\<lparr>wire_out := x3\<rparr>) = if_up w"
  by (simp_all add: if_up_def)

interpretation ipcp_base: fsm_protocol ipcp_base_callbacks
  by unfold_locales (auto dest: ipcp_ci_laws(2-5)[THEN same_ip_frame(1)] intro: ipcp_ci_laws(1)[THEN same_ip_frame(1)])

lemma if_up_ci:
  "if_up (snd (ipcp_resetci st)) = if_up (snd st)"
  "if_up (snd (snd (snd (ipcp_addci_cb st n)))) = if_up (snd st)"
  "if_up (snd (snd (ipcp_ackci_cb st p n))) = if_up (snd st)"
  "ipcp_nakci_cb st p n = Some r \<Longrightarrow> if_up (snd (snd r)) = if_up (snd st)"
  "if_up (snd (snd (snd (snd (ipcp_reqci_cb st p n rej))))) = if_up (snd st)"
  by (auto simp: ipcp_cb_defs Let_def if_up_def split: prod.splits)

interpretation ipcp_base_layer: fsm_layer_below ipcp_base_callbacks if_up
  by unfold_locales (simp_all add: if_up_ci ipcp_down_unit)

text \<open>LCP's automaton and record are not touched.\<close>

definition lcp_view :: "fsm \<times> ppp_call list \<Rightarrow> ipcp_st \<Rightarrow> bool" where
  "lcp_view v st \<longleftrightarrow> (lcp_fsm (snd st), calls (snd st)) = v"

lemma same_ip_view: "same_ip st st' \<Longrightarrow> lcp_view v st' = lcp_view v st"
  by (simp add: same_ip_def lcp_view_def)

interpretation ipcp_base_view: fsm_stable_unit ipcp_base_callbacks "lcp_view v" for v
  by unfold_locales
    (auto simp: lcp_view_def[of _ "(_, _)"] lcp_view_def[of _ "TIMEOUT _"] lcp_view_def[of _ "UNTIMEOUT _"]
      TIMEOUT_def UNTIMEOUT_def ipcp_down_unit lcp_view_def[of _ "ipcp_down _"]
      dest: ipcp_ci_laws(2-5)[THEN same_ip_view] intro: ipcp_ci_laws(1)[THEN same_ip_view, THEN iffD2])

lemma ipcp_view_lowerdown: "lcp_fsm (snd (ipcp_lowerdown st)) = lcp_fsm (snd st)" "calls (snd (ipcp_lowerdown st)) = calls (snd st)"
  using ipcp_base_view.stable_lowerdown[of "(lcp_fsm (snd st), calls (snd st))" st]
  by (simp_all add: lcp_view_def ipcp_lowerdown_def)

section \<open>Taking the link down\<close>

text \<open>LCP's routines may restart timers of their own, but \<open>die\<close> never stops another protocol's.\<close>

lemma pending_sconfreq_base:
  "0 < pending_count (Fsm_timeout p) (callout_list (snd st)) \<Longrightarrow>
   0 < pending_count (Fsm_timeout p) (callout_list (snd (fsm_sconfreq lcp_base_callbacks r st)))"
proof -
  have addci: "callout_list (snd st') = callout_list (snd s)" if "lcp_addci_cb s n = (bs, m, st')" for s n bs m st'
    using that by (simp add: lcp_addci_cb_def)
  show "0 < pending_count (Fsm_timeout p) (callout_list (snd st)) \<Longrightarrow> ?thesis"
    using lcp_resetci_frame[of st]
    by (auto simp: fsm_sconfreq_def Let_def TIMEOUT_def ci_frame_def dest!: addci intro!: co.set_keeps_armed
        split: prod.split)
qed

lemma pending_start_termination:
  assumes "p \<noteq> f_protocol (fst st) \<Longrightarrow> 0 < pending_count (Fsm_timeout p) (callout_list (snd st))"
  shows "0 < pending_count (Fsm_timeout p) (callout_list (snd (start_termination s st)))"
  using assms
  by (cases "p = f_protocol (fst st)")
    (simp_all add: start_termination_def send_termreq_def Let_def TIMEOUT_def timer_key_def on_fsm_def co.pending_set)

lemma pending_untimeout_other:
  "p \<noteq> f_protocol (fst st) \<Longrightarrow>
   pending_count (Fsm_timeout p) (callout_list (snd (UNTIMEOUT st))) = pending_count (Fsm_timeout p) (callout_list (snd st))"
  by (simp add: UNTIMEOUT_def timer_key_def co.cancel_other_key)

lemma pending_lcp_down: "pending_count (Fsm_timeout p) (callout_list (snd (lcp_down st))) = pending_count (Fsm_timeout p) (callout_list (snd st))"
  by (simp add: lcp_down_def link_down_def lcp_echo_lowerdown_def ECHO_KEY_def co.cancel_other_key)

lemma pending_die:
  assumes "0 < pending_count (Fsm_timeout p) (callout_list (snd st))"
  shows "0 < pending_count (Fsm_timeout p) (callout_list (snd (die st)))"
proof -
  have fin: "0 < pending_count (Fsm_timeout p) (callout_list (snd (lcp_finished (set_state CLOSED st))))"
    using assms pending_sconfreq_base[of p "set_state CLOSED st" False]
    by (simp add: lcp_finished_def fsm_open_def link_terminated_def Let_def)
  have "0 < pending_count (Fsm_timeout p) (callout_list (snd (start_termination CLOSING (UNTIMEOUT st))))"
    by (rule pending_start_termination) (use assms in \<open>simp add: pending_untimeout_other\<close>)
  then have "0 < pending_count (Fsm_timeout p) (callout_list (snd (fsm_close lcp_base_callbacks st)))"
    using assms
    by (cases "st_of st")
      (simp_all add: fsm_close_def pending_start_termination pending_lcp_down)
  with fin have "0 < pending_count (Fsm_timeout p) (callout_list (snd (lcp_close st)))"
    by (simp add: lcp_close_def)
  then show ?thesis by (simp add: die_def Let_def)
qed

lemma ipcp_lowerdown_down: "lower_down (fst (ipcp_lowerdown st))" "f_flags (fst (ipcp_lowerdown st)) = f_flags (fst st)"
proof -
  show "lower_down (fst (ipcp_lowerdown st))"
    by (cases "st_of st") (simp_all add: ipcp_lowerdown_def fsm_lowerdown_def)
  show "f_flags (fst (ipcp_lowerdown st)) = f_flags (fst st)"
    unfolding ipcp_lowerdown_def by (rule ipcp_base_view.flags_lowerdown)
qed

lemma lower_down_armed: "lower_down (fst st) \<Longrightarrow> armed st"
  by (rule armed_idle) (auto simp: lower_down_def)

text \<open>What \<open>ipcp_die\<close> does: IPCP is unchanged or down.\<close>

lemma ipcp_die_cases:
  obtains "ipcp_die st = (fst st, with_lcp (die (lcp_part (snd st))) (snd st))"
      "Ipcp_lowerdown \<notin> set (drop (length (calls (snd st))) (calls (snd (die (lcp_part (snd st))))))"
  | "ipcp_die st = ipcp_lowerdown (fst st, with_lcp (die (lcp_part (snd st))) (snd st))"
  by (cases "Ipcp_lowerdown \<in> set (drop (length (calls (snd st))) (calls (snd (die (lcp_part (snd st))))))")
    (simp_all add: ipcp_die_def Let_def)

lemma armed_ipcp_die: "armed st \<Longrightarrow> armed (ipcp_die st)"
proof (cases rule: ipcp_die_cases[of st])
  case 1
  assume "armed st"
  then have "armed (fst st, with_lcp (die (lcp_part (snd st))) (snd st))"
    using pending_die[of "f_protocol (fst st)" "lcp_part (snd st)"] by (simp add: armed_def fsm_pending_def timer_key_def)
  with 1 show ?thesis by simp
next
  case 2
  then show ?thesis using lower_down_armed[OF ipcp_lowerdown_down(1)] by simp
qed

lemma ipcp_die_not_opening: "st_of (ipcp_die st) = OPENED \<Longrightarrow> st_of st = OPENED"
proof (cases rule: ipcp_die_cases[of st])
  case 2
  assume "st_of (ipcp_die st) = OPENED"
  then show ?thesis using 2 ipcp_lowerdown_down(1)[of "(fst st, with_lcp (die (lcp_part (snd st))) (snd st))"]
    by (simp add: lower_down_def)
qed simp

lemma if_up_with_lcp [simp]: "if_up (with_lcp l w) = if_up w"
  by (simp add: if_up_def)

lemma in_step_ipcp_die: "in_step if_up st \<Longrightarrow> in_step if_up (ipcp_die st)"
proof -
  assume s: "in_step if_up st"
  then have "in_step if_up (fst st, with_lcp (die (lcp_part (snd st))) (snd st))" by (simp add: in_step_def)
  then show ?thesis
    using ipcp_base_layer.in_step_lowerdown by (cases rule: ipcp_die_cases[of st]) (simp_all add: ipcp_lowerdown_def)
qed

lemma ipcp_close_laws:
  "armed st \<Longrightarrow> armed (ipcp_close st)" "st_of (ipcp_close st) \<noteq> OPENED"
  "in_step if_up st \<Longrightarrow> in_step if_up (ipcp_close st)"
  using ipcp_die_not_opening[of "fsm_close ipcp_base_callbacks st"] ipcp_base.close_not_opening[of st]
  by (auto simp: ipcp_close_def armed_ipcp_die ipcp_base.armed_close in_step_ipcp_die ipcp_base_layer.in_step_close)

section \<open>The whole table\<close>

lemma ipcp_routes_frame [simp]: "fst (ipcp_routes st) = fst st"
  by (simp add: ipcp_routes_def Let_def)

lemma ipcp_routes_unit:
  "if_up (snd (ipcp_routes st)) = if_up (snd st)" "callout_list (snd (ipcp_routes st)) = callout_list (snd st)"
  "lcp_fsm (snd (ipcp_routes st)) = lcp_fsm (snd st)" "calls (snd (ipcp_routes st)) = calls (snd st)"
  by (simp_all add: ipcp_routes_def Let_def if_up_def)

lemma ipcp_up_begin_unit [simp]:
  "fst (ipcp_up_begin st) = fst st" "ip_calls (snd (ipcp_up_begin st)) = ip_calls (snd st)"
  "callout_list (snd (ipcp_up_begin st)) = callout_list (snd st)"
  "lcp_fsm (snd (ipcp_up_begin st)) = lcp_fsm (snd st)" "calls (snd (ipcp_up_begin st)) = calls (snd st)"
  by (simp_all add: ipcp_up_begin_def Let_def)

text \<open>The two ways \<open>ipcp_up\<close> ends: the interface is up, or IPCP is closed.\<close>

lemma ipcp_up_cases:
  obtains (up) st3 where "ipcp_up st = ipcp_routes st3" "same_ip (on_ip (\<lambda>w. w\<lparr>ip_calls := ip_calls (snd st3)\<rparr>) st) st3"
      "if_up (snd st3)"
  | (closed) st' where "ipcp_up st = ipcp_close st'" "same_ip (on_ip (\<lambda>w. w\<lparr>ip_calls := ip_calls (snd st')\<rparr>) st) st'"
proof -
  define b where "b = ipcp_up_begin st"
  define w where "w = snd b"
  define st1 where "st1 = ip_ask (Sifaddr (ouraddr (ipcp_gotoptions w)) (hisaddr (ipcp_hisoptions w)) (GetMask w)) b"
  define st2 where "st2 = ip_ask (Sifvjcomp (neg_vj (ipcp_hisoptions w)) (cflag (ipcp_hisoptions w))
     (maxslotindex (ipcp_hisoptions w))) st1"
  define st3 where "st3 = ip_ask Sifup st2"
  have frame: "same_ip (on_ip (\<lambda>w. w\<lparr>ip_calls := ip_calls (snd s)\<rparr>) st) s" if "s \<in> {b, st1, st2, st3}" for s
    using that by (auto simp: same_ip_def ci_frame_def b_def st1_def st2_def st3_def)
  have "ipcp_up st = ipcp_routes st3 \<and> ip_answer st2 \<or> (\<exists>s \<in> {b, st1, st3}. ipcp_up st = ipcp_close s)"
    unfolding ipcp_up_def Let_def b_def[symmetric] w_def[symmetric] st1_def[symmetric] st2_def[symmetric] st3_def[symmetric]
    by simp
  then show thesis
  proof
    assume "ipcp_up st = ipcp_routes st3 \<and> ip_answer st2"
    then show thesis using up[of st3] frame[of st3] by (simp add: st3_def if_up_def)
  next
    assume "\<exists>s \<in> {b, st1, st3}. ipcp_up st = ipcp_close s"
    then show thesis using closed frame by blast
  qed
qed

lemma armed_same_ip: "same_ip (on_ip (\<lambda>w. w\<lparr>ip_calls := x\<rparr>) st) st' \<Longrightarrow> armed st' = armed st"
  unfolding same_ip_def ci_frame_def by (rule armed_cong) (auto intro: fsm_pending_cong)

lemma armed_ipcp_up: "armed st \<Longrightarrow> armed (ipcp_up st)"
proof (cases rule: ipcp_up_cases[of st])
  case (up st3)
  assume "armed st"
  then have "armed st3" using armed_same_ip up(2) by blast
  then show ?thesis unfolding up(1) using armed_frame[of st3 "ipcp_routes st3"]
    by (simp add: ci_frame_def ipcp_routes_unit)
next
  case (closed st')
  assume "armed st"
  then show ?thesis using closed armed_same_ip ipcp_close_laws(1) by auto
qed

lemma ipcp_up_not_opening: "st_of (ipcp_up st) = OPENED \<Longrightarrow> st_of st = OPENED"
  by (cases rule: ipcp_up_cases[of st]) (auto simp: same_ip_def ci_frame_def ipcp_close_laws(2))

lemma in_step_ipcp_up: "st_of st = OPENED \<Longrightarrow> in_step if_up (ipcp_up st)"
proof (cases rule: ipcp_up_cases[of st])
  case (up st3)
  assume "st_of st = OPENED"
  then show ?thesis using up by (simp add: in_step_def ipcp_routes_unit same_ip_def ci_frame_def)
next
  case (closed st')
  assume "st_of st = OPENED"
  then have op: "st_of st' = OPENED" using closed by (simp add: same_ip_def ci_frame_def)
  have "in_step if_up (fsm_close ipcp_base_callbacks st')"
    using op by (simp add: fsm_close_def in_step_def ipcp_base_layer.layer_send ipcp_down_unit)
  then show ?thesis unfolding closed(1) ipcp_close_def by (rule in_step_ipcp_die)
qed

lemma ipcp_rejci_cases:
  assumes "ipcp_rejci_cb st p n = (good, st')"
  obtains s go where "s = st \<or> s = ipcp_die st" "st' = on_ip (\<lambda>w. w\<lparr>ipcp_gotoptions := go\<rparr>) s"
proof -
  define s where "s = (if rejects_addr (ipcp_gotoptions (snd st)) p n then ipcp_die st else st)"
  obtain good' go where r: "ipcp_rejci (st_of s = OPENED) (ipcp_gotoptions (snd s)) p n = (good', go)" by force
  have "st' = s \<or> st' = on_ip (\<lambda>w. w\<lparr>ipcp_gotoptions := go\<rparr>) s"
    using assms r unfolding ipcp_rejci_cb_def Let_def s_def[symmetric] by (simp split: if_splits)
  moreover have "on_ip (\<lambda>w. w\<lparr>ipcp_gotoptions := ipcp_gotoptions (snd s)\<rparr>) s = s" by (simp add: on_ip_def)
  moreover have "s = st \<or> s = ipcp_die st" by (simp add: s_def)
  ultimately show thesis using that by metis
qed

lemma armed_on_ip: "(\<And>w. callout_list (g w) = callout_list w) \<Longrightarrow> armed (on_ip g st) = armed st"
  by (rule armed_cong) (simp_all add: fsm_pending_def)

lemma ipcp_rejci_laws:
  assumes "ipcp_rejci_cb st p n = (good, st')"
  shows "armed st \<Longrightarrow> armed st'" and "st_of st' = OPENED \<Longrightarrow> st_of st = OPENED"
    and "in_step if_up st \<Longrightarrow> in_step if_up st'"
proof -
  obtain s go where s: "s = st \<or> s = ipcp_die st" and st': "st' = on_ip (\<lambda>w. w\<lparr>ipcp_gotoptions := go\<rparr>) s"
    using ipcp_rejci_cases[OF assms] by blast
  show "armed st \<Longrightarrow> armed st'" using s armed_ipcp_die[of st] by (auto simp: st' armed_on_ip)
  show "st_of st' = OPENED \<Longrightarrow> st_of st = OPENED" using s ipcp_die_not_opening[of st] by (auto simp: st')
  have "in_step if_up st' = in_step if_up s" by (simp add: st' in_step_def if_up_def)
  then show "in_step if_up st \<Longrightarrow> in_step if_up st'" using s in_step_ipcp_die[of st] by auto
qed

interpretation ipcp: fsm_protocol ipcp_callbacks
  by unfold_locales
    (auto dest: ipcp_ci_laws(2-5)[THEN same_ip_frame(1)] ipcp_rejci_laws ipcp_up_not_opening
      intro: ipcp_ci_laws(1)[THEN same_ip_frame(1)] armed_ipcp_up)

interpretation ipcp_layer: fsm_layered ipcp_callbacks if_up
  by unfold_locales (auto simp: if_up_ci ipcp_down_unit in_step_ipcp_up dest: ipcp_rejci_laws)

section \<open>IPCP's entry points\<close>

lemma ipcp_lowerdown_table: "ipcp_lowerdown st = fsm_lowerdown ipcp_callbacks st"
  unfolding ipcp_lowerdown_def fsm_lowerdown_def ipcp_tables by (rule refl)

lemma ipcp_protrej_lowerdown: "ipcp_protrej = ipcp_lowerdown"
  by (simp add: fun_eq_iff ipcp_protrej_def ipcp_lowerdown_def)


text \<open>A unit for the concrete instances: LCP open, IPCP waiting for the last acknowledgement.\<close>

definition demo_ipcp_options :: ipcp_options where
  "demo_ipcp_options = zero_ipcp_options\<lparr>ouraddr := 0x100000a, hisaddr := 0x200000a\<rparr>"

definition demo_ipcp_unit :: ipcp_unit where
  "demo_ipcp_unit = lcp_unit.extend (demo_unit\<lparr>calls := [Ipcp_lowerup]\<rparr>)
     (ipcp_unit.fields demo_fsm demo_ipcp_options demo_ipcp_options demo_ipcp_options demo_ipcp_options 0 [] 0
        \<lparr>r_inet_addr = (\<lambda>_. -1), r_hostGetByName = (\<lambda>_. -1)\<rparr> (\<lambda>_. True) [])"

definition demo_ipcp :: ipcp_st where
  "demo_ipcp = (demo_fsm\<lparr>f_protocol := IPCP, f_state := ACKSENT\<rparr>, demo_ipcp_unit)"



text \<open>
  When IPCP brings the interface up, both ends have an address other than 0, the peer is
  authorised to use its own, and the calls made are, in this order: the addresses
  and the mask, the compression negotiated by the peer, the interface, and then at most
  the default route and the proxy ARP entry. When it does not, IPCP is no longer open.
\<close>

theorem ipcp_up_calls:
  assumes "st_of st = OPENED" and "\<not> if_up (snd st)"
  defines "w \<equiv> snd (ipcp_up st)"
  defines "his \<equiv> hisaddr (ipcp_hisoptions w)" and "our \<equiv> ouraddr (ipcp_gotoptions w)"
  shows "if if_up w
    then his \<noteq> 0 \<and> our \<noteq> 0 \<and> auth_ip_addr (names w) (addresses w) his
      \<and> (\<exists>ok routes. ip_calls w = ip_calls (snd st) @ [(Sifaddr our his (netmask w), True),
            (Sifvjcomp (neg_vj (ipcp_hisoptions w)) (cflag (ipcp_hisoptions w)) (maxslotindex (ipcp_hisoptions w)), ok),
            (Sifup, True)] @ routes
          \<and> fst ` set routes \<subseteq> {Sifdefaultroute his, Sifproxyarp his})
    else st_of (ipcp_up st) \<noteq> OPENED"
proof (cases "if_up w")
  case False
  then show ?thesis using in_step_ipcp_up[OF assms(1)] by (simp add: in_step_def w_def)
next
  case True
  have op: "st_of (ipcp_up st) = OPENED" using in_step_ipcp_up[OF assms(1)] True by (simp add: in_step_def w_def)
  define b where "b = ipcp_up_begin st"
  let ?his = "hisaddr (ipcp_hisoptions (snd b))" and ?our = "ouraddr (ipcp_gotoptions (snd b))"
  define st1 where "st1 = ip_ask (Sifaddr ?our ?his (GetMask (snd b))) b"
  define st2 where "st2 = ip_ask (Sifvjcomp (neg_vj (ipcp_hisoptions (snd b))) (cflag (ipcp_hisoptions (snd b)))
     (maxslotindex (ipcp_hisoptions (snd b)))) st1"
  define st3 where "st3 = ip_ask Sifup st2"
  have "?his \<noteq> 0 \<and> ?our \<noteq> 0 \<and> auth_ip_addr (names (snd b)) (addresses (snd b)) ?his
      \<and> ip_answer b \<and> ip_answer st2 \<and> ipcp_up st = ipcp_routes st3"
    using op ipcp_close_laws(2)
    unfolding ipcp_up_def Let_def b_def[symmetric] st1_def[symmetric] st2_def[symmetric] st3_def[symmetric]
    by (simp split: if_splits)
  then have c: "?his \<noteq> 0" "?our \<noteq> 0" "auth_ip_addr (names (snd b)) (addresses (snd b)) ?his" "ip_answer b"
      "ip_answer st2" and w: "w = snd (ipcp_routes st3)"
    by (simp_all add: w_def)
  have same: "ipcp_hisoptions w = ipcp_hisoptions (snd b)" "our = ?our" "names w = names (snd b)"
      "addresses w = addresses (snd b)" "netmask w = netmask (snd b)"
    by (simp_all add: w our_def ipcp_routes_def st1_def st2_def st3_def Let_def)
  have calls3: "ip_calls (snd st3) = ip_calls (snd st) @ [(Sifaddr ?our ?his (netmask (snd b)), True),
      (Sifvjcomp (neg_vj (ipcp_hisoptions (snd b))) (cflag (ipcp_hisoptions (snd b)))
         (maxslotindex (ipcp_hisoptions (snd b))), ip_answer st1), (Sifup, True)]"
    using c by (simp add: st3_def st2_def[symmetric]) (simp add: st2_def st1_def[symmetric], simp add: st1_def b_def GetMask_def)
  have "ipcp_hisoptions (snd st3) = ipcp_hisoptions (snd b)" by (simp add: st1_def st2_def st3_def)
  then have "\<exists>routes. ip_calls w = ip_calls (snd st3) @ routes \<and> fst ` set routes \<subseteq> {Sifdefaultroute ?his, Sifproxyarp ?his}"
    by (auto simp: w ipcp_routes_def Let_def)
  then show ?thesis using True c same calls3 by (auto simp: his_def)
qed

theorem ipcp_up_calls_witness:
  "ip_calls (snd (ipcp_up (on_fsm (\<lambda>f. f\<lparr>f_state := OPENED\<rparr>) demo_ipcp))) =
     [(Sifaddr 0x100000a 0x200000a 0, True), (Sifvjcomp False 0 0, True), (Sifup, True)]"
proof -
  let ?st = "on_fsm (\<lambda>f. f\<lparr>f_state := OPENED\<rparr>) demo_ipcp"
  have "st_of ?st = OPENED" "\<not> if_up (snd ?st)" by code_simp+
  note ipcp_up_calls[OF this]
  moreover have "ip_calls (snd (ipcp_up ?st)) =
     [(Sifaddr 0x100000a 0x200000a 0, True), (Sifvjcomp False 0 0, True), (Sifup, True)]" by code_simp
  ultimately show ?thesis by blast
qed

end
