(* ===== verification/Ppp_Link.thy ===== *)
theory Ppp_Link
  imports Ppp_Ipcp_Correct
begin

text \<open>
  LCP and IPCP on one unit: IPCP is active, and so the interface is up, only while LCP has told it
  that the link is up.
\<close>

section \<open>IPCP above LCP\<close>

text \<open>
  \<open>above b\<close>: IPCP is below or was told that the lower layer is up (\<open>b\<close>). IPCP's automaton has no
  flags set, so it is never restarted by \<open>fsm_open\<close>.
\<close>

definition above :: "bool \<Rightarrow> ipcp_st \<Rightarrow> bool" where
  "above b st \<longleftrightarrow> f_flags (fst st) = 0 \<and> (lower_down (fst st) \<or> b)"

lemma above_same: "above b st \<Longrightarrow> fst st' = fst st \<Longrightarrow> above b st'"
  by (simp add: above_def)

lemma above_ci: "same_ip st st' \<Longrightarrow> above b st \<Longrightarrow> above b st'"
  by (rule above_same) (simp_all add: same_ip_def ci_frame_def)

interpretation above_base: fsm_stable ipcp_base_callbacks "above b" for b
  by unfold_locales
    (auto simp: above_def[of _ "(_, _)"] dest: ipcp_ci_laws(2-5)[THEN above_ci] above_same
      intro: above_ci[OF ipcp_ci_laws(1)] above_same)

lemma above_lowerdown: "f_flags (fst st) = 0 \<Longrightarrow> above b (ipcp_lowerdown st)"
  by (simp add: above_def ipcp_lowerdown_down)

lemma above_die: "above b st \<Longrightarrow> above b (ipcp_die st)"
  by (cases rule: ipcp_die_cases[of st]) (auto simp: above_def ipcp_lowerdown_down)

lemma above_up: "above b st \<Longrightarrow> above b (ipcp_up st)"
proof (cases rule: ipcp_up_cases[of st])
  case (up st3)
  assume "above b st"
  then show ?thesis using up by (auto simp: above_def same_ip_def ci_frame_def)
next
  case (closed st')
  assume "above b st"
  then have "above b st'" using closed(2) by (auto simp: above_def same_ip_def ci_frame_def)
  then show ?thesis using closed(1) by (simp add: ipcp_close_def above_die above_base.stable_close)
qed

lemma above_rejci: "ipcp_rejci_cb st p n = (good, st') \<Longrightarrow> above b st \<Longrightarrow> above b st'"
proof -
  assume "ipcp_rejci_cb st p n = (good, st')" and ab: "above b st"
  then obtain s go where "s = st \<or> s = ipcp_die st" "st' = on_ip (\<lambda>w. w\<lparr>ipcp_gotoptions := go\<rparr>) s"
    using ipcp_rejci_cases by blast
  then show ?thesis using ab above_die[OF ab] above_same[of b s st'] by auto
qed

interpretation above_ipcp: fsm_stable ipcp_callbacks "above b" for b
  by unfold_locales
    (auto simp: above_def[of _ "(_, _)"] above_up dest: ipcp_ci_laws(2-5)[THEN above_ci] above_same above_rejci
      intro: above_ci[OF ipcp_ci_laws(1)] above_same)

text \<open>What LCP records, and IPCP's reaction to it.\<close>

lemma above_lowerup: "f_flags (fst st) = 0 \<Longrightarrow> above True (ipcp_lowerup st)"
  by (cases "st_of st") (simp_all add: above_def ipcp_lowerup_def fsm_lowerup_def above_base.flags_sconfreq
      above_ipcp.flags_sconfreq set_state_def on_fsm_def)

lemma above_notified: "above b st \<Longrightarrow> above (last_up b [c]) (ipcp_notified c st)"
  using above_lowerup[of st] above_lowerdown[of st False] above_lowerdown[of st b] above_ipcp.stable_open[of b st]
  by (cases c) (auto simp: ipcp_notified_def ipcp_open_def ipcp_protrej_lowerdown above_def[of _ st])

lemma above_fold: "above b st \<Longrightarrow> above (last_up b cs) (fold ipcp_notified cs st)"
proof (induction cs arbitrary: b st)
  case (Cons c cs)
  then show ?case using Cons.IH[OF above_notified[OF Cons.prems, of c]] by simp
qed simp

lemma ipcp_open_table: "fsm_open ipcp_callbacks = fsm_open ipcp_base_callbacks"
    "fsm_lowerup ipcp_callbacks = fsm_lowerup ipcp_base_callbacks"
proof -
  have sc: "fsm_sconfreq ipcp_callbacks = fsm_sconfreq ipcp_base_callbacks"
    by (rule ext)+ (simp only: fsm_sconfreq_def ipcp_tables)
  have down: "fsm_lowerdown ipcp_callbacks = fsm_lowerdown ipcp_base_callbacks"
    by (rule ext) (simp only: fsm_lowerdown_def ipcp_tables)
  show up: "fsm_lowerup ipcp_callbacks = fsm_lowerup ipcp_base_callbacks"
    by (rule ext) (simp only: fsm_lowerup_def sc)
  show "fsm_open ipcp_callbacks = fsm_open ipcp_base_callbacks"
    by (rule ext) (simp only: fsm_open_def sc up down ipcp_tables)
qed

lemma view_notified: "lcp_view v st \<Longrightarrow> lcp_view v (ipcp_notified c st)"
  by (cases c) (simp_all add: ipcp_notified_def ipcp_open_def ipcp_lowerup_def ipcp_protrej_lowerdown ipcp_lowerdown_def
      ipcp_open_table ipcp_base_view.stable_open ipcp_base_view.stable_lowerup ipcp_base_view.stable_lowerdown)

lemma view_fold: "lcp_view v st \<Longrightarrow> lcp_view v (fold ipcp_notified cs st)"
  by (induction cs arbitrary: st) (simp_all add: view_notified)

lemma told_lcp: "lcp_fsm (snd (told st l)) = fst l" "calls (snd (told st l)) = calls (snd l)"
  using view_fold[of "(fst l, calls (snd l))" "(fst st, with_lcp l (snd st))"] by (simp_all add: told_def lcp_view_def)

section \<open>The invariant\<close>

text \<open>
  \<open>linked False\<close>: IPCP is below unless LCP told it last that the link is up. \<open>linked True\<close>: also, what
  LCP told it agrees with LCP's own state.
\<close>

definition link_up :: "ipcp_unit \<Rightarrow> bool" where
  "link_up w = last_up False (calls w)"

definition linked :: "bool \<Rightarrow> ipcp_st \<Rightarrow> bool" where
  "linked s st \<longleftrightarrow> above (link_up (snd st)) st \<and> (s \<longrightarrow> (f_state (lcp_fsm (snd st)) = OPENED) = link_up (snd st))"

lemma in_step_lcp_part: "in_step net_up (lcp_part w) \<longleftrightarrow> (f_state (lcp_fsm w) = OPENED) = link_up w"
  by (simp add: in_step_def net_up_def link_up_def)

lemma linked_same:
  "linked s st \<Longrightarrow> fst st' = fst st \<Longrightarrow> lcp_fsm (snd st') = lcp_fsm (snd st) \<Longrightarrow> calls (snd st') = calls (snd st)
    \<Longrightarrow> linked s st'"
  by (simp add: linked_def above_def link_up_def)

lemma linked_ci: "same_ip st st' \<Longrightarrow> linked s st \<Longrightarrow> linked s st'"
  by (rule linked_same) (simp_all add: same_ip_def ci_frame_def)

lemma linked_fsm: "linked s (f, w) \<Longrightarrow> f_flags f' = f_flags f \<Longrightarrow>
    lower_down f' \<or> \<not> lower_down f \<or> f_flags f AND OPT_RESTART \<noteq> 0 \<Longrightarrow> linked s (f', w)"
  by (auto simp: linked_def above_def)

lemma linked_down: "linked s st \<Longrightarrow> linked s (ipcp_down st)"
  by (erule linked_same) (simp_all add: ipcp_down_unit)

lemma linked_timer: "linked s st \<Longrightarrow> linked s (TIMEOUT st)" "linked s st \<Longrightarrow> linked s (UNTIMEOUT st)"
  by (erule linked_same; simp add: TIMEOUT_def UNTIMEOUT_def)+

interpretation linked_base: fsm_stable ipcp_base_callbacks "linked s" for s
  by unfold_locales
    (auto simp: linked_down linked_timer dest: linked_fsm ipcp_ci_laws(2-5)[THEN linked_ci]
      intro: linked_ci[OF ipcp_ci_laws(1)] linked_same)

lemma last_up_keeps: "Ipcp_lowerdown \<notin> set cs \<Longrightarrow> b \<Longrightarrow> last_up b cs"
  by (induction cs arbitrary: b) auto

lemma last_up_prefix:
  "prefix cs cs' \<Longrightarrow> last_up False cs' = last_up (last_up False cs) (drop (length cs) cs')"
  by (auto elim!: prefixE)

lemma die_prefix: "prefix (calls w) (calls (snd (die (lcp_part w))))"
  using lcp_log.keep_die[of "calls w" "lcp_part w"] by (simp add: grows_def)

lemma linked_die:
  assumes "linked s st" shows "linked s (ipcp_die st)"
proof -
  let ?l = "die (lcp_part (snd st))"
  have lcp: "s \<longrightarrow> (f_state (fst ?l) = OPENED) = last_up False (calls (snd ?l))"
    using assms in_step_link.keep_die[of "lcp_part (snd st)"]
    by (auto simp: linked_def in_step_lcp_part) (simp_all add: in_step_def net_up_def)
  show ?thesis
  proof (cases rule: ipcp_die_cases[of st])
    case 1
    have "above (last_up False (calls (snd ?l))) st"
      using assms last_up_keeps[OF 1(2)] last_up_prefix[OF die_prefix] by (auto simp: linked_def above_def link_up_def)
    then show ?thesis using 1(1) lcp by (simp add: linked_def above_def link_up_def)
  next
    case 2
    have "f_flags (fst st) = 0" using assms by (simp add: linked_def above_def)
    then show ?thesis using 2 lcp
      by (simp add: linked_def above_def link_up_def ipcp_lowerdown_down ipcp_view_lowerdown)
  qed
qed

lemma linked_up: "linked s st \<Longrightarrow> linked s (ipcp_up st)"
proof (cases rule: ipcp_up_cases[of st])
  case (up st3)
  assume "linked s st"
  then have "linked s st3" using up(2) by (elim linked_same) (simp_all add: same_ip_def ci_frame_def)
  then show ?thesis unfolding up(1) by (rule linked_same) (simp_all add: ipcp_routes_unit)
next
  case (closed st')
  assume "linked s st"
  then have "linked s st'" using closed(2) by (elim linked_same) (simp_all add: same_ip_def ci_frame_def)
  then show ?thesis using closed(1) by (simp add: ipcp_close_def linked_die linked_base.stable_close)
qed

lemma linked_rejci: "ipcp_rejci_cb st p n = (good, st') \<Longrightarrow> linked s st \<Longrightarrow> linked s st'"
proof -
  assume "ipcp_rejci_cb st p n = (good, st')" and ab: "linked s st"
  then obtain u go where u: "u = st \<or> u = ipcp_die st" "st' = on_ip (\<lambda>w. w\<lparr>ipcp_gotoptions := go\<rparr>) u"
    using ipcp_rejci_cases by blast
  then have "linked s u" using ab linked_die by blast
  then show ?thesis by (rule linked_same) (simp_all add: u(2))
qed

interpretation linked_ipcp: fsm_stable ipcp_callbacks "linked s" for s
  by unfold_locales
    (auto simp: linked_down linked_up linked_timer dest: linked_fsm ipcp_ci_laws(2-5)[THEN linked_ci] linked_rejci
      intro: linked_ci[OF ipcp_ci_laws(1)] linked_same)

lemma linked_told:
  assumes "linked s st" and "prefix (calls (snd st)) (calls (snd l))" and "s \<Longrightarrow> in_step net_up l"
  shows "linked s (told st l)"
proof -
  have "above (last_up False (calls (snd st))) (fst st, with_lcp l (snd st))"
    using assms(1) by (simp add: linked_def above_def link_up_def)
  from above_fold[OF this, of "drop (length (calls (snd st))) (calls (snd l))"]
  have "above (last_up False (calls (snd l))) (told st l)"
    by (simp add: told_def last_up_prefix[OF assms(2)])
  then show ?thesis using assms(3) by (auto simp: linked_def link_up_def told_lcp in_step_def net_up_def)
qed

section \<open>Events\<close>

lemma linked_run_timer: "linked s st \<Longrightarrow> linked s (link_run_timer k st)"
proof -
  assume st: "linked s st"
  have "in_step net_up (run_timer k (lcp_part (snd st)))" if s
    using st that lcp_layer.in_step_timeout in_step_link.keep_LcpEchoTimeout
    by (auto simp: run_timer_def linked_def in_step_lcp_part)
  moreover have "grows (calls (snd st)) (run_timer k (lcp_part (snd st)))"
    by (rule lcp_log.keep_run_timer) (simp add: grows_def)
  ultimately have "linked s (told st (run_timer k (lcp_part (snd st))))"
    using st by (intro linked_told) (simp_all add: grows_def)
  then show ?thesis using st by (simp add: link_run_timer_def linked_ipcp.stable_timeout)
qed

lemma linked_alrm: "linked s st \<Longrightarrow> linked s (link_alrm st)"
proof -
  have run: "linked s (fold link_run_timer ks u)" if "linked s u" for ks u
    using that by (induction ks arbitrary: u) (simp_all add: linked_run_timer)
  assume "linked s st"
  then have "linked s (on_ip (\<lambda>w. w\<lparr>callout_list := x\<rparr>) st)" for x by (rule linked_same) simp_all
  then show ?thesis using run \<open>linked s st\<close>
    by (cases "callout_list (snd st)") (simp_all add: link_alrm_def linked_run_timer)
qed

lemma linked_lcp_event:
  assumes "linked s st" and "lcp_handle ev (lcp_part (snd st)) = Some l" and "s \<Longrightarrow> \<not> stray_termack ev (lcp_part (snd st))"
  shows "linked s (told st l)"
proof (rule linked_told[OF assms(1)])
  show "prefix (calls (snd st)) (calls (snd l))"
    using grows_handle[OF _ assms(2), of "calls (snd st)"] by (simp add: grows_def)
  show "in_step net_up l" if s
    using in_step_events[OF _ assms(2)] assms(1,3) that by (simp add: linked_def in_step_lcp_part)
qed

lemma linked_handle:
  assumes "linked s st" and "link_handle ev st = Some st'" and "s \<Longrightarrow> \<not> stray_termack ev (lcp_part (snd st))"
  shows "linked s st'"
proof (cases "ev = Alarm \<or> for_ipcp ev st")
  case True
  then show ?thesis using assms(1,2) linked_alrm[of s st] linked_ipcp.stable_input[of s st]
    by (cases ev) (auto simp: link_handle_def for_ipcp_def ipcp_input_def split: if_splits)
next
  case False
  then obtain l where "lcp_handle ev (lcp_part (snd st)) = Some l" "st' = told st l"
    using assms(2) by (cases ev) (auto simp: link_handle_def split: if_splits)
  then show ?thesis using linked_lcp_event[OF assms(1) _ assms(3)] by simp
qed

lemma in_step_notified: "in_step if_up st \<Longrightarrow> in_step if_up (ipcp_notified c st)"
  by (cases c) (simp_all add: ipcp_notified_def ipcp_open_def ipcp_lowerup_def ipcp_protrej_lowerdown ipcp_lowerdown_table
      ipcp_layer.in_step_open ipcp_layer.in_step_lowerup ipcp_layer.in_step_lowerdown)

lemma in_step_told: "in_step if_up st \<Longrightarrow> in_step if_up (told st l)"
proof -
  have fold: "in_step if_up (fold ipcp_notified cs u)" if "in_step if_up u" for cs u
    using that by (induction cs arbitrary: u) (simp_all add: in_step_notified)
  assume "in_step if_up st"
  then show ?thesis unfolding told_def by (intro fold) (simp add: in_step_def)
qed

lemma in_step_link_alrm: "in_step if_up st \<Longrightarrow> in_step if_up (link_alrm st)"
proof -
  have step: "in_step if_up (link_run_timer k u)" if "in_step if_up u" for k u
    using that by (simp add: link_run_timer_def in_step_told ipcp_layer.in_step_timeout)
  then have run: "in_step if_up (fold link_run_timer ks u)" if "in_step if_up u" for ks u
    using that by (induction ks arbitrary: u) simp_all
  assume "in_step if_up st"
  then have "in_step if_up (on_ip (\<lambda>w. w\<lparr>callout_list := x\<rparr>) st)" for x by (simp add: in_step_def)
  then show ?thesis using run step \<open>in_step if_up st\<close>
    by (cases "callout_list (snd st)") (simp_all add: link_alrm_def)
qed

lemma in_step_link_handle:
  assumes "in_step if_up st" and "link_handle ev st = Some st'" and "\<not> stray_termack ev (lcp_part (snd st))"
  shows "in_step if_up st'"
proof (cases "ev = Alarm \<or> for_ipcp ev st")
  case True
  then show ?thesis using assms in_step_link_alrm[OF assms(1)] ipcp_layer.in_step_input[OF assms(1)]
    by (cases ev) (auto simp: link_handle_def for_ipcp_def ipcp_input_def stray_termack_def split: if_splits)
next
  case False
  then obtain l where "st' = told st l"
    using assms(2) by (cases ev) (auto simp: link_handle_def split: if_splits)
  then show ?thesis using in_step_told[OF assms(1)] by simp
qed

lemma link_init_linked:
  assumes "calls (snd st) = []" and "ip_calls (snd st) = []"
  shows "linked s (link_init u st)" and "in_step if_up (link_init u st)"
proof -
  let ?w = "with_lcp (lcp_init u (lcp_part (snd st))) (snd st)"
  have i: "fst (ipcp_init u (f, w)) = (fst (fsm_init (f\<lparr>f_unit := u, f_protocol := IPCP\<rparr>, w)))"
    "ip_calls (snd (ipcp_init u (f, w))) = ip_calls w" "calls (snd (ipcp_init u (f, w))) = calls w"
    "lcp_fsm (snd (ipcp_init u (f, w))) = lcp_fsm w" for f w
    by (simp_all add: ipcp_init_def fsm_init_def random_def Let_def)
  have f: "st_of (fsm_init x) = INITIAL" "f_flags (fst (fsm_init x)) = 0" for x :: ipcp_st
    by (simp_all add: fsm_init_def random_def Let_def)
  have "calls ?w = []" "ip_calls ?w = []" "f_state (lcp_fsm ?w) = INITIAL" using assms by simp_all
  then show "linked s (link_init u st)" "in_step if_up (link_init u st)"
    by (simp_all add: link_init_def linked_def above_def link_up_def in_step_def if_up_def i f)
qed

lemma link_reach_invariant: "link_reach s st \<Longrightarrow> linked s st \<and> (s \<longrightarrow> in_step if_up st)"
proof (induction rule: link_reach.induct)
  case (init st u)
  then show ?case using link_init_linked by blast
next
  case (configure st iwo iao nmask wo ao required interval fails)
  let ?st = "on_ip (\<lambda>w. ipcp_configure iwo iao nmask (lcp_configure wo ao required interval fails w)) st"
  have "linked s ?st = linked s st" "in_step if_up ?st = in_step if_up st"
    by (simp_all add: linked_def above_def link_up_def in_step_def if_up_def lcp_configure_def ipcp_configure_def)
  then show ?case using configure.IH by simp
next
  case (step st ev st')
  then show ?case using linked_handle[of s st ev st'] in_step_link_handle[of st ev st'] by blast
qed


text \<open>A run that brings the line and LCP up.\<close>

definition demo_link :: ipcp_st where
  "demo_link = link_init 0 (demo_fsm, demo_ipcp_unit\<lparr>calls := []\<rparr>)"

lemma demo_link_reach:
  assumes "link_handle Lowerup demo_link = Some st1"
  shows "link_reach True st1"
proof (rule link_reach.step[OF _ _ _ assms])
  show "link_reach True demo_link" unfolding demo_link_def
    by (rule link_reach.init) (simp_all add: demo_ipcp_unit_def lcp_unit.defs ipcp_unit.defs demo_unit_def)
  show "\<not> exited (snd demo_link)" by code_simp
  show "True \<longrightarrow> \<not> stray_termack Lowerup (lcp_part (snd demo_link))" by (simp add: stray_termack_def)
qed


section \<open>The timers of CHAP\<close>

text \<open>IPCP leaves them alone as LCP does.\<close>

lemma chap_timers_same:
  "callout_list (snd st') = callout_list (snd st) \<Longrightarrow> chap_timers n st' = chap_timers n st"
  using chap_pending_cong[of "snd st'" "snd st"] by (simp add: chap_timers_def)

lemma chap_timers_ci: "same_ip st st' \<Longrightarrow> chap_timers n st \<Longrightarrow> chap_timers n st'"
  using chap_timers_same[of st' st] by (simp add: same_ip_def ci_frame_def)

lemma chap_timers_down: "chap_timers n (ipcp_down st) = chap_timers n st"
  by (rule chap_timers_same) (simp add: ipcp_down_unit)

lemma chap_timers_io:
  "chap_timers n (f, w) \<Longrightarrow> chap_timers n (f', w)"
  "chap_timers n (f, w) \<Longrightarrow> chap_timers n (f, w\<lparr>outpacket_buf := b\<rparr>)"
  "chap_timers n (f, w) \<Longrightarrow> chap_timers n (f, w\<lparr>wire_out := o'\<rparr>)"
  "chap_timers n st \<Longrightarrow> chap_timers n (TIMEOUT st)" "chap_timers n st \<Longrightarrow> chap_timers n (UNTIMEOUT st)"
  for f :: fsm and w :: ipcp_unit and st :: ipcp_st
  using chap_timers_same[of "(f', w)" "(f, w)" n] chap_timers_same[of "(f, w\<lparr>outpacket_buf := b\<rparr>)" "(f, w)" n]
    chap_timers_same[of "(f, w\<lparr>wire_out := o'\<rparr>)" "(f, w)" n]
  by simp_all (simp_all add: chap_timers_def)

interpretation ipcp_base_timers: fsm_stable_unit ipcp_base_callbacks "chap_timers n" for n
  by unfold_locales
    (auto simp: chap_timers_down dest: ipcp_ci_laws(2-5)[THEN chap_timers_ci]
      intro: chap_timers_ci[OF ipcp_ci_laws(1)] chap_timers_io)

lemma chap_timers_with_lcp: "chap_timers n l \<Longrightarrow> chap_timers n (f, with_lcp l w)"
  using chap_pending_cong[of "with_lcp l w" "snd l"] by (simp add: chap_timers_def chap_pending_def fun_eq_iff)

lemma chap_timers_lcp_part: "chap_timers n st \<Longrightarrow> chap_timers n (lcp_part (snd st))"
proof -
  have "chap_pending (snd (lcp_part (snd st))) = chap_pending (snd st)" by (rule ext) (simp add: chap_pending_def)
  then show "chap_timers n st \<Longrightarrow> ?thesis" by (simp add: chap_timers_def)
qed

lemma chap_timers_die: "chap_timers n st \<Longrightarrow> chap_timers n (ipcp_die st)"
proof -
  assume "chap_timers n st"
  then have "chap_timers n (fst st, with_lcp (die (lcp_part (snd st))) (snd st))"
    by (intro chap_timers_with_lcp lcp_timers.keep_die chap_timers_lcp_part)
  then show ?thesis
    by (cases rule: ipcp_die_cases[of st]) (simp_all add: ipcp_lowerdown_def ipcp_base_timers.stable_lowerdown)
qed

lemma chap_timers_up: "chap_timers n st \<Longrightarrow> chap_timers n (ipcp_up st)"
proof (cases rule: ipcp_up_cases[of st])
  case (up st3)
  assume "chap_timers n st"
  then have "chap_timers n st3" using up(2) chap_timers_same[of st3 st] by (simp add: same_ip_def ci_frame_def)
  then show ?thesis unfolding up(1) using chap_timers_same[of "ipcp_routes st3" st3] by (simp add: ipcp_routes_unit)
next
  case (closed st')
  assume "chap_timers n st"
  then have "chap_timers n st'" using closed(2) chap_timers_same[of st' st] by (simp add: same_ip_def ci_frame_def)
  then show ?thesis using closed(1) by (simp add: ipcp_close_def chap_timers_die ipcp_base_timers.stable_close)
qed

lemma chap_timers_rejci: "chap_timers n st \<Longrightarrow> ipcp_rejci_cb st p m = (good, st') \<Longrightarrow> chap_timers n st'"
proof -
  assume t: "chap_timers n st" and "ipcp_rejci_cb st p m = (good, st')"
  then obtain u go where u: "u = st \<or> u = ipcp_die st" "st' = on_ip (\<lambda>w. w\<lparr>ipcp_gotoptions := go\<rparr>) u"
    using ipcp_rejci_cases by blast
  then show ?thesis using t chap_timers_die[OF t] chap_timers_same[of st' u n] by auto
qed

interpretation ipcp_timers: fsm_stable_unit ipcp_callbacks "chap_timers n" for n
  by unfold_locales
    (auto simp: chap_timers_down chap_timers_up dest: ipcp_ci_laws(2-5)[THEN chap_timers_ci] chap_timers_rejci
      intro: chap_timers_ci[OF ipcp_ci_laws(1)] chap_timers_io)

lemma chap_timers_notified: "chap_timers n st \<Longrightarrow> chap_timers n (ipcp_notified c st)"
  by (cases c) (simp_all add: ipcp_notified_def ipcp_open_def ipcp_lowerup_def ipcp_protrej_lowerdown ipcp_lowerdown_def
      ipcp_timers.stable_open ipcp_timers.stable_lowerup ipcp_base_timers.stable_lowerdown)

end
