(* ===== verification/Ppp_Auth.thy ===== *)
theory Ppp_Auth
  imports Ppp_Ipcp_Correct
begin

text \<open>
  Names, passwords and secrets (\<^verbatim>\<open>auth.c\<close>): which authentication protocols a unit may offer and
  ask for, the check of a PAP name and password, the null login, and the secrets CHAP uses. Every
  routine looks in the table of secrets first and in the file of the protocol after that.

  The unit of \<open>Ppp_Ipcp\<close> is the field \<open>link\<close>. Parameters that stand for code outside the tree: the
  login library's \<^verbatim>\<open>loginUserVerify\<close> and the routine \<^verbatim>\<open>pppCryptRtn\<close> points to. The names are C strings
  that fit their arrays.
\<close>

section \<open>The unit\<close>

record auth_unit =
  link :: ipcp_st
  hostname :: string
  our_name :: string
  remote_name :: string
  user :: string
  passwd :: string
  uselogin :: bool
  pap_file :: "string option"
  chap_file :: "string option"
  secrets :: secret_lib
  file_system :: files
  pppCryptRtn :: "(string \<Rightarrow> string \<Rightarrow> string) option"
  loginUserVerify :: "string \<Rightarrow> string \<Rightarrow> bool"

definition MAXSECRETLEN :: nat where "MAXSECRETLEN = 256"

definition on_link :: "(ipcp_unit \<Rightarrow> ipcp_unit) \<Rightarrow> 'x auth_unit_scheme \<Rightarrow> 'x auth_unit_scheme" where
  "on_link g u = u\<lparr>link := on_ip g (link u)\<rparr>"

definition set_addresses :: "string list \<Rightarrow> 'x auth_unit_scheme \<Rightarrow> 'x auth_unit_scheme" where
  "set_addresses ws = on_link (\<lambda>w. w\<lparr>addresses := ws\<rparr>)"

text \<open>The two lookups: the table, and a file that is opened first.\<close>

definition in_table :: "'x auth_unit_scheme \<Rightarrow> string \<Rightarrow> string \<Rightarrow> bool \<Rightarrow> scan_state option" where
  "in_table u client server wanted =
     (case pppSecretFind (file_system u) (secrets u) client server wanted of Inl _ \<Rightarrow> None | Inr r \<Rightarrow> Some r)"

definition in_file :: "'x auth_unit_scheme \<Rightarrow> string option \<Rightarrow> string \<Rightarrow> string \<Rightarrow> scan_state option" where
  "in_file u filename client server =
     (case Option.bind filename (file_system u) of
        None \<Rightarrow> None
      | Some f \<Rightarrow> let r = scan_authfile (file_system u) client server f in if fst r < 0 then None else Some r)"

section \<open>Routines\<close>

text \<open>\<open>null_login\<close>: a name and password of \<^verbatim>\<open>""\<close>. An entry for any client is not to count.\<close>

definition null_accepts :: "scan_state \<Rightarrow> bool" where
  "null_accepts r \<longleftrightarrow> fst r \<ge> 0 \<and> fst r AND NONWILD_CLIENT \<noteq> 0 \<and> fst (snd r) = []"

definition null_login :: "'x auth_unit_scheme \<Rightarrow> bool \<times> 'x auth_unit_scheme" where
  "null_login u =
     (case Option.bind (in_table u [] (our_name u) True) (\<lambda>r. if null_accepts r then Some r else None) of
        Some r \<Rightarrow> (True, set_addresses (snd (snd r)) u)
      | None \<Rightarrow>
          (case in_file u (pap_file u) [] (our_name u) of
             None \<Rightarrow> (False, u)
           | Some r \<Rightarrow> if null_accepts r then (True, set_addresses (snd (snd r)) u) else (False, u)))"

text \<open>
  \<open>check_passwd\<close>: the name and the password as they were received, as C strings after the copy. The
  stored secret and the password are the routine's arguments in this order.
\<close>

definition passwd_matches :: "'x auth_unit_scheme \<Rightarrow> string \<Rightarrow> string \<Rightarrow> bool" where
  "passwd_matches u pw secret \<longleftrightarrow>
     secret = [] \<or> pw = secret \<or> (case pppCryptRtn u of None \<Rightarrow> False | Some crypt \<Rightarrow> crypt secret pw = pw)"

definition check_passwd :: "string \<Rightarrow> string \<Rightarrow> 'x auth_unit_scheme \<Rightarrow> bool \<times> string \<times> 'x auth_unit_scheme" where
  "check_passwd auser apasswd u =
     (let pw = c_string apasswd; usr = c_string auser;
          res =
            (if uselogin u then (if loginUserVerify u usr pw then Some [] else None)
             else case Option.bind (in_table u usr (our_name u) True)
                         (\<lambda>r. if passwd_matches u pw (fst (snd r)) then Some r else None) of
                    Some r \<Rightarrow> Some (snd (snd r))
                  | None \<Rightarrow>
                      (case in_file u (pap_file u) usr (our_name u) of
                         None \<Rightarrow> None
                       | Some r \<Rightarrow> if passwd_matches u pw (fst (snd r)) then Some (snd (snd r)) else None))
      in case res of
           None \<Rightarrow> (False, ''Login incorrect'', u)
         | Some addrs \<Rightarrow> (True, ''Login ok'', set_addresses addrs u))"

text \<open>\<open>get_upap_passwd\<close>: \<^verbatim>\<open>strncpy\<close> and the null character leave at most \<open>MAXSECRETLEN - 1\<close> characters.\<close>

definition find_secret :: "'x auth_unit_scheme \<Rightarrow> string option \<Rightarrow> string \<Rightarrow> string \<Rightarrow> bool \<Rightarrow> scan_state option" where
  "find_secret u filename client server wanted =
     (case in_table u client server wanted of Some r \<Rightarrow> Some r | None \<Rightarrow> in_file u filename client server)"

definition get_upap_passwd :: "'x auth_unit_scheme \<Rightarrow> bool \<times> 'x auth_unit_scheme" where
  "get_upap_passwd u =
     (case find_secret u (pap_file u) (user u) (remote_name u) True of
        None \<Rightarrow> (False, u)
      | Some r \<Rightarrow> (True, u\<lparr>passwd := take (MAXSECRETLEN - 1) (fst (snd r))\<rparr>))"

definition have_upap_secret :: "'x auth_unit_scheme \<Rightarrow> bool" where
  "have_upap_secret u \<longleftrightarrow> uselogin u \<or> find_secret u (pap_file u) [] (our_name u) False \<noteq> None"

definition have_chap_secret :: "string \<Rightarrow> string \<Rightarrow> 'x auth_unit_scheme \<Rightarrow> bool" where
  "have_chap_secret client server u \<longleftrightarrow> find_secret u (chap_file u) client server False \<noteq> None"

text \<open>\<open>get_secret\<close>: the secret, shortened if it is too long, and the unit with the addresses saved.\<close>

definition get_secret :: "string \<Rightarrow> string \<Rightarrow> bool \<Rightarrow> 'x auth_unit_scheme \<Rightarrow> string option \<times> 'x auth_unit_scheme" where
  "get_secret client server save_addrs u =
     (case find_secret u (chap_file u) client server True of
        None \<Rightarrow> (None, u)
      | Some r \<Rightarrow>
          (Some (take MAXSECRETLEN (fst (snd r))), if save_addrs then set_addresses (snd (snd r)) u else u))"

text \<open>\<open>check_auth_options\<close>, in two parts: the choice of protocols, and the refusal to run without one.\<close>

definition default_names :: "'x auth_unit_scheme \<Rightarrow> 'x auth_unit_scheme" where
  "default_names u =
     (let u1 = (if our_name u = [] then u\<lparr>our_name := hostname u\<rparr> else u)
      in if user u1 = [] then u1\<lparr>user := our_name u1\<rparr> else u1)"

abbreviation wo_of :: "'x auth_unit_scheme \<Rightarrow> lcp_options" where
  "wo_of u \<equiv> lcp_wantoptions (snd (link u))"

abbreviation ao_of :: "'x auth_unit_scheme \<Rightarrow> lcp_options" where
  "ao_of u \<equiv> lcp_allowoptions (snd (link u))"

definition on_wo :: "(lcp_options \<Rightarrow> lcp_options) \<Rightarrow> 'x auth_unit_scheme \<Rightarrow> 'x auth_unit_scheme" where
  "on_wo g = on_link (\<lambda>w. w\<lparr>lcp_wantoptions := g (lcp_wantoptions w)\<rparr>)"

definition on_ao :: "(lcp_options \<Rightarrow> lcp_options) \<Rightarrow> 'x auth_unit_scheme \<Rightarrow> 'x auth_unit_scheme" where
  "on_ao g = on_link (\<lambda>w. w\<lparr>lcp_allowoptions := g (lcp_allowoptions w)\<rparr>)"

definition no_protocol :: "'x auth_unit_scheme \<Rightarrow> bool" where
  "no_protocol u \<longleftrightarrow> auth_required (snd (link u)) \<and> \<not> neg_chap (wo_of u) \<and> \<not> neg_upap (wo_of u)"

definition choose_protocols :: "'x auth_unit_scheme \<Rightarrow> 'x auth_unit_scheme" where
  "choose_protocols u0 =
     (let u1 = default_names u0;
          u2 = (if no_protocol u1 then on_wo (\<lambda>o'. o'\<lparr>neg_chap := True, neg_upap := True\<rparr>) u1 else u1);
          u3 = (if neg_upap (ao_of u2) \<and> passwd u2 = []
                then (case get_upap_passwd u2 of
                        (True, u) \<Rightarrow> u
                      | (False, u) \<Rightarrow> on_ao (\<lambda>o'. o'\<lparr>neg_upap := False\<rparr>) u)
                else u2);
          u4 = (if neg_upap (wo_of u3) \<and> \<not> uselogin u3 \<and> \<not> have_upap_secret u3
                then on_wo (\<lambda>o'. o'\<lparr>neg_upap := False\<rparr>) u3 else u3);
          u5 = (if neg_chap (ao_of u4) \<and> \<not> have_chap_secret (our_name u4) (remote_name u4) u4
                then on_ao (\<lambda>o'. o'\<lparr>neg_chap := False\<rparr>) u4 else u4)
      in if neg_chap (wo_of u5) \<and> \<not> have_chap_secret (remote_name u5) (our_name u5) u5
         then on_wo (\<lambda>o'. o'\<lparr>neg_chap := False\<rparr>) u5 else u5)"

definition check_auth_options :: "'x auth_unit_scheme \<Rightarrow> 'x auth_unit_scheme" where
  "check_auth_options u0 =
     (let u = choose_protocols u0 in if no_protocol u then u\<lparr>link := ipcp_die (link u)\<rparr> else u)"

section \<open>Correctness\<close>

text \<open>A unit for the examples: it is called \<^verbatim>\<open>gate\<close> and its table has one entry for \<^verbatim>\<open>joe\<close> and one for anybody.\<close>

definition demo_auth :: auth_unit where
  "demo_auth = \<lparr>link = demo_ipcp, hostname = ''gate'', our_name = ''gate'', remote_name = [], user = [], passwd = [],
     uselogin = False, pap_file = None, chap_file = None,
     secrets = \<lparr>sl_init = True, pppSecretHead =
       [\<lparr>s_client = ''joe'', s_server = ''*'', s_secret = ''x'', s_addrs = []\<rparr>,
        \<lparr>s_client = ''*'', s_server = ''gate'', s_secret = [], s_addrs = []\<rparr>]\<rparr>,
     file_system = (\<lambda>_. None), pppCryptRtn = None, loginUserVerify = (\<lambda>_ _. False)\<rparr>"

lemma set_addresses_unit [simp]:
  "secrets (set_addresses ws u) = secrets u" "file_system (set_addresses ws u) = file_system u"
  "our_name (set_addresses ws u) = our_name u" "chap_file (set_addresses ws u) = chap_file u"
  "addresses (snd (link (set_addresses ws u))) = ws"
  by (simp_all add: set_addresses_def on_link_def on_ip_def)


text \<open>
  A peer that sends no name is judged by an entry for somebody else. With a single
  entry, for any client on our server, the empty name and the entry's secret are accepted.
\<close>

theorem check_passwd_unnamed:
  assumes "\<not> uselogin u" and "secrets u = \<lparr>sl_init = True, pppSecretHead = [e]\<rparr>" and "s_server e = our_name u"
    and "indirect_secret (file_system u) (s_secret e) = Some (c_string pw)"
  shows "check_passwd [] pw u = (True, ''Login ok'', set_addresses (strtok_words [] (s_addrs e)) u)"
  using assms
  by (simp add: check_passwd_def in_table_def pppSecretFind_def name_matches_def passwd_matches_def c_string_def
      NONWILD_CLIENT_def NONWILD_SERVER_def Let_def)

theorem check_passwd_unnamed_witness:
  "fst (check_passwd [] ''x'' (demo_auth\<lparr>secrets := \<lparr>sl_init = True, pppSecretHead =
     [\<lparr>s_client = ''joe'', s_server = ''gate'', s_secret = ''x'', s_addrs = []\<rparr>]\<rparr>\<rparr>))"
  using check_passwd_unnamed[of "demo_auth\<lparr>secrets := \<lparr>sl_init = True, pppSecretHead =
     [\<lparr>s_client = ''joe'', s_server = ''gate'', s_secret = ''x'', s_addrs = []\<rparr>]\<rparr>\<rparr>"
     "\<lparr>s_client = ''joe'', s_server = ''gate'', s_secret = ''x'', s_addrs = []\<rparr>" "''x''"]
  by (simp add: demo_auth_def indirect_secret_def c_string_def NUL_def)

text \<open>
  The null login accepts an entry for any client, which the code means to exclude, when the entry
  before it in the table names a client: the flag is left over from that entry.
\<close>

theorem null_login_wildcard:
  assumes "our_name u \<noteq> []" and "\<not> ISWILD (our_name u)" and "\<not> ISWILD client"
    and "secrets u = \<lparr>sl_init = True, pppSecretHead =
      [\<lparr>s_client = client, s_server = ''*'', s_secret = own, s_addrs = a1\<rparr>,
       \<lparr>s_client = ''*'', s_server = our_name u, s_secret = [], s_addrs = a2\<rparr>]\<rparr>"
  shows "null_login u = (True, set_addresses (strtok_words [] a2) u)"
proof -
  have w: "ISWILD ''*''" by (simp add: ISWILD_def)
  have bits: "(2 :: int) OR 1 = 3" "(3 :: int) AND 2 = 2" by simp_all
  have "best_entry [] (our_name u) (pppSecretHead (secrets u)) 0 (-1) None =
      (3, Some \<lparr>s_client = ''*'', s_server = our_name u, s_secret = [], s_addrs = a2\<rparr>)"
    using assms(1-3) w bits unfolding assms(4)
    by (simp add: name_matches_def NONWILD_CLIENT_def NONWILD_SERVER_def)
  then show ?thesis using assms(4) bits
    by (simp add: null_login_def in_table_def pppSecretFind_def indirect_secret_def null_accepts_def NONWILD_CLIENT_def)
qed

theorem null_login_wildcard_witness: "fst (null_login demo_auth)"
  using null_login_wildcard[of demo_auth "''joe''" "''x''" "[]" "[]"] by (simp add: demo_auth_def ISWILD_def)

text \<open>Protocols are asked for and offered only with a secret to use.\<close>

lemma find_secret_same:
  assumes "secrets u' = secrets u" and "file_system u' = file_system u"
  shows "find_secret u' = find_secret u"
proof -
  have "in_table u' = in_table u" "in_file u' = in_file u"
    unfolding in_table_def in_file_def assms by (rule refl)+
  then show ?thesis unfolding find_secret_def by (simp only:)
qed

lemma find_secret_updates [simp]:
  "find_secret (u\<lparr>passwd := s\<rparr>) = find_secret u" "find_secret (u\<lparr>link := l\<rparr>) = find_secret u"
  "find_secret (u\<lparr>our_name := s\<rparr>) = find_secret u" "find_secret (u\<lparr>user := s\<rparr>) = find_secret u"
  by (rule find_secret_same; simp)+

lemma get_upap_passwd_unit:
  "link (snd (get_upap_passwd u)) = link u" "our_name (snd (get_upap_passwd u)) = our_name u"
  "remote_name (snd (get_upap_passwd u)) = remote_name u" "uselogin (snd (get_upap_passwd u)) = uselogin u"
  "find_secret (snd (get_upap_passwd u)) = find_secret u" "pap_file (snd (get_upap_passwd u)) = pap_file u"
  "chap_file (snd (get_upap_passwd u)) = chap_file u"
  by (simp_all add: get_upap_passwd_def split: option.split)

lemma on_link_unit [simp]:
  "our_name (on_link g u) = our_name u" "remote_name (on_link g u) = remote_name u" "uselogin (on_link g u) = uselogin u"
  "find_secret (on_link g u) = find_secret u" "pap_file (on_link g u) = pap_file u" "chap_file (on_link g u) = chap_file u"
  "snd (link (on_link g u)) = g (snd (link u))" "hostname (on_link g u) = hostname u" "user (on_link g u) = user u"
  "passwd (on_link g u) = passwd u"
  by (simp_all add: on_link_def on_ip_def)

lemma default_names_unit:
  "link (default_names u) = link u" "our_name (default_names u) = (if our_name u = [] then hostname u else our_name u)"
  "remote_name (default_names u) = remote_name u" "uselogin (default_names u) = uselogin u"
  "find_secret (default_names u) = find_secret u" "pap_file (default_names u) = pap_file u"
  "chap_file (default_names u) = chap_file u"
  by (simp_all add: default_names_def Let_def)

text \<open>What the choice among the protocols we offer leaves of the rest.\<close>

definition same_wishes :: "'x auth_unit_scheme \<Rightarrow> 'x auth_unit_scheme \<Rightarrow> bool" where
  "same_wishes u u' \<longleftrightarrow> wo_of u' = wo_of u \<and> our_name u' = our_name u \<and> remote_name u' = remote_name u
     \<and> uselogin u' = uselogin u \<and> find_secret u' = find_secret u \<and> pap_file u' = pap_file u \<and> chap_file u' = chap_file u
     \<and> auth_required (snd (link u')) = auth_required (snd (link u))"

lemma same_wishes_on_ao: "same_wishes u u' \<Longrightarrow> same_wishes u (on_ao g u')"
  by (simp add: same_wishes_def on_ao_def)

lemma same_wishes_passwd: "same_wishes u (snd (get_upap_passwd u))"
  by (simp add: same_wishes_def get_upap_passwd_unit)

text \<open>
  With authentication required, \<open>check_auth_options\<close> asks the peer for CHAP exactly if CHAP was
  configured, or nothing was, and there is a secret for the peer's name on ours, and for PAP
  likewise with a secret for any client or the login library. If neither is left, the task ends.
\<close>

theorem check_auth_options_asks:
  assumes "auth_required (snd (link u))"
  shows "let us = (if our_name u = [] then hostname u else our_name u);
             none = (\<not> neg_chap (wo_of u) \<and> \<not> neg_upap (wo_of u));
             u' = choose_protocols u;
             chap = ((neg_chap (wo_of u) \<or> none) \<and> find_secret u (chap_file u) (remote_name u) us False \<noteq> None);
             pap = ((neg_upap (wo_of u) \<or> none) \<and> (uselogin u \<or> find_secret u (pap_file u) [] us False \<noteq> None))
         in neg_chap (wo_of u') = chap \<and> neg_upap (wo_of u') = pap
            \<and> check_auth_options u = (if chap \<or> pap then u' else u'\<lparr>link := ipcp_die (link u')\<rparr>)"
proof -
  define us where "us = (if our_name u = [] then hostname u else our_name u)"
  define u1 where "u1 = default_names u"
  define u2 where "u2 = (if no_protocol u1 then on_wo (\<lambda>o'. o'\<lparr>neg_chap := True, neg_upap := True\<rparr>) u1 else u1)"
  define u3 where "u3 = (if neg_upap (ao_of u2) \<and> passwd u2 = []
      then (case get_upap_passwd u2 of (True, u) \<Rightarrow> u | (False, u) \<Rightarrow> on_ao (\<lambda>o'. o'\<lparr>neg_upap := False\<rparr>) u) else u2)"
  define u4 where "u4 = (if neg_upap (wo_of u3) \<and> \<not> uselogin u3 \<and> \<not> have_upap_secret u3
      then on_wo (\<lambda>o'. o'\<lparr>neg_upap := False\<rparr>) u3 else u3)"
  define u5 where "u5 = (if neg_chap (ao_of u4) \<and> \<not> have_chap_secret (our_name u4) (remote_name u4) u4
      then on_ao (\<lambda>o'. o'\<lparr>neg_chap := False\<rparr>) u4 else u4)"
  have refl: "same_wishes v v" for v :: "'a auth_unit_scheme" by (simp add: same_wishes_def)
  have 23: "same_wishes u2 u3" and 45: "same_wishes u4 u5"
    using same_wishes_passwd[of u2] refl[of u2] refl[of u4]
    by (auto simp: u3_def u5_def same_wishes_on_ao split: prod.split bool.split)
  have u1: "wo_of u1 = wo_of u" "our_name u1 = us" "remote_name u1 = remote_name u" "uselogin u1 = uselogin u"
    "find_secret u1 = find_secret u" "pap_file u1 = pap_file u" "chap_file u1 = chap_file u"
    "auth_required (snd (link u1))" using assms by (simp_all add: u1_def us_def default_names_unit)
  have u': "choose_protocols u = (if neg_chap (wo_of u5) \<and> \<not> have_chap_secret (remote_name u5) (our_name u5) u5
      then on_wo (\<lambda>o'. o'\<lparr>neg_chap := False\<rparr>) u5 else u5)"
    unfolding choose_protocols_def Let_def u1_def[symmetric] u2_def[symmetric] u3_def[symmetric] u4_def[symmetric]
      u5_def[symmetric] ..
  have u3: "neg_chap (wo_of u3) = (neg_chap (wo_of u) \<or> no_protocol u1)" "neg_upap (wo_of u3) = (neg_upap (wo_of u) \<or> no_protocol u1)"
    "our_name u3 = us" "remote_name u3 = remote_name u" "uselogin u3 = uselogin u" "find_secret u3 = find_secret u"
    "pap_file u3 = pap_file u" "chap_file u3 = chap_file u" "auth_required (snd (link u3))"
    using 23 u1 by (auto simp: same_wishes_def u2_def on_wo_def)
  have u5: "neg_chap (wo_of u5) = neg_chap (wo_of u3)"
    "neg_upap (wo_of u5) = (neg_upap (wo_of u3) \<and> (uselogin u \<or> find_secret u (pap_file u) [] us False \<noteq> None))"
    "our_name u5 = us" "remote_name u5 = remote_name u" "find_secret u5 = find_secret u" "chap_file u5 = chap_file u"
    "auth_required (snd (link u5))"
    using 45 u3 by (auto simp: same_wishes_def u4_def on_wo_def have_upap_secret_def)
  have none: "no_protocol u1 = (\<not> neg_chap (wo_of u) \<and> \<not> neg_upap (wo_of u))"
    using u1 by (simp add: no_protocol_def)
  show ?thesis unfolding Let_def us_def[symmetric] check_auth_options_def u'
    using u5 u3(1,2) none by (auto simp: no_protocol_def have_chap_secret_def on_wo_def)
qed

theorem check_auth_options_asks_witness:
  "let u' = check_auth_options (on_link (\<lambda>w. w\<lparr>auth_required := True\<rparr>) demo_auth)
   in neg_chap (wo_of u') \<and> neg_upap (wo_of u')"
proof -
  let ?u = "on_link (\<lambda>w. w\<lparr>auth_required := True\<rparr>) demo_auth"
  have "find_secret ?u (pap_file ?u) [] ''gate'' False \<noteq> None" "find_secret ?u (chap_file ?u) [] ''gate'' False \<noteq> None"
    "\<not> neg_chap (wo_of ?u)" "\<not> neg_upap (wo_of ?u)" "our_name ?u = ''gate''" "remote_name ?u = []"
    "auth_required (snd (link ?u))"
    by code_simp+
  then show ?thesis using check_auth_options_asks[of ?u] by (simp add: Let_def)
qed

end
