(* ===== verification/Ppp_Chap.thy ===== *)
theory Ppp_Chap
  imports Ppp_Link Ppp_Auth
begin

text \<open>
  The challenge handshake authentication protocol (\<^verbatim>\<open>chap.c\<close>), its place in the unit beside LCP and
  IPCP, and the states such a unit can get into. MD5 (\<^verbatim>\<open>md5.c\<close>, not in the tree) is the parameter
  \<open>md5\<close>, a function from the bytes hashed to the digest. A name that is kept as a pointer to \<^verbatim>\<open>our_name\<close> is
  a string; \<^verbatim>\<open>random()\<close> is \<open>rand_src\<close> of \<open>Ppp_State\<close>, whose values are not negative.

  \<open>die\<close> takes LCP down, which takes CHAP down. As for IPCP, the cycle is cut where the code does not
  use it: nothing that \<open>die\<close> calls back reports a protocol reject or a packet.
\<close>

section \<open>The state\<close>

datatype chap_client = CHAPCS_INITIAL | CHAPCS_CLOSED | CHAPCS_PENDING | CHAPCS_LISTEN | CHAPCS_RESPONSE | CHAPCS_OPEN

datatype chap_server =
    CHAPSS_INITIAL | CHAPSS_CLOSED | CHAPSS_PENDING | CHAPSS_INITIAL_CHAL | CHAPSS_OPEN | CHAPSS_RECHALLENGE
  | CHAPSS_BADAUTH

record chap_state =
  chap_unit_no :: int
  clientstate :: chap_client
  serverstate :: chap_server
  challenge :: "u8 list"
  chal_len :: u8
  chal_id :: u8
  chal_type :: u8
  chap_id :: u8
  chal_name :: string
  chal_interval :: int
  chap_timeouttime :: int
  max_transmits :: int
  chal_transmits :: int
  resp_transmits :: int
  response :: "u8 list"
  resp_length :: u8
  resp_id :: u8
  resp_type :: u8
  resp_name :: string

record chap_unit = auth_unit +
  chap :: chap_state
  md5 :: "u8 list \<Rightarrow> u8 list"

definition CHAP_HEADERLEN :: nat where "CHAP_HEADERLEN = 4"
definition MD5_SIGNATURE_SIZE :: nat where "MD5_SIGNATURE_SIZE = 16"
definition CHAP_CHALLENGE :: u8 where "CHAP_CHALLENGE = 1"
definition CHAP_RESPONSE :: u8 where "CHAP_RESPONSE = 2"
definition CHAP_SUCCESS :: u8 where "CHAP_SUCCESS = 3"
definition CHAP_FAILURE :: u8 where "CHAP_FAILURE = 4"
definition MIN_CHALLENGE_LENGTH :: nat where "MIN_CHALLENGE_LENGTH = 32"
definition MAX_CHALLENGE_LENGTH :: nat where "MAX_CHALLENGE_LENGTH = 64"
definition MAX_RESPONSE_LENGTH :: nat where "MAX_RESPONSE_LENGTH = 16"
definition CHAP_DEFTIMEOUT :: int where "CHAP_DEFTIMEOUT = 3"
definition CHAP_DEFTRANSMITS :: int where "CHAP_DEFTRANSMITS = 10"

lemmas chap_codes = CHAP_CHALLENGE_def CHAP_RESPONSE_def CHAP_SUCCESS_def CHAP_FAILURE_def
lemmas chap_lengths = CHAP_HEADERLEN_def MD5_SIGNATURE_SIZE_def MIN_CHALLENGE_LENGTH_def MAX_CHALLENGE_LENGTH_def
  MAX_RESPONSE_LENGTH_def

definition on_chap :: "(chap_state \<Rightarrow> chap_state) \<Rightarrow> chap_unit \<Rightarrow> chap_unit" where
  "on_chap g u = u\<lparr>chap := g (chap u)\<rparr>"

definition chap_timeout :: "ppp_key \<Rightarrow> int \<Rightarrow> chap_unit \<Rightarrow> chap_unit" where
  "chap_timeout k secs = on_link (\<lambda>w. w\<lparr>callout_list := timeout_link k secs (callout_list w)\<rparr>)"

definition chap_untimeout :: "ppp_key \<Rightarrow> chap_unit \<Rightarrow> chap_unit" where
  "chap_untimeout k = on_link (\<lambda>w. w\<lparr>callout_list := untimeout_unlink k (callout_list w)\<rparr>)"

text \<open>Characters and bytes.\<close>

definition bytes :: "string \<Rightarrow> u8 list" where
  "bytes s = map (\<lambda>c. of_char c) s"

definition chars :: "u8 list \<Rightarrow> string" where
  "chars bs = map (\<lambda>b. char_of (unat b)) bs"

section \<open>Sending\<close>

text \<open>The headers and the data, stored from the beginning of the output buffer and sent.\<close>

definition chap_output :: "u8 \<Rightarrow> u8 \<Rightarrow> u8 list \<Rightarrow> chap_unit \<Rightarrow> chap_unit" where
  "chap_output code i data =
     on_link (\<lambda>w.
       let outlen = CHAP_HEADERLEN + length data;
           buf = poke (outpacket_buf w) 0
                   ([0xff, 0x03] @ PUTSHORT CHAP @ [code, i] @ PUTSHORT (of_nat outlen) @ data)
       in w\<lparr>outpacket_buf := buf, wire_out := wire_out w @ [take (outlen + DLLHEADERLEN) buf]\<rparr>)"

definition ChapSendChallenge :: "chap_unit \<Rightarrow> chap_unit" where
  "ChapSendChallenge u =
     (let c = chap u;
          data = chal_len c # take (unat (chal_len c)) (challenge c) @ bytes (chal_name c)
      in on_chap (\<lambda>c. c\<lparr>chal_transmits := chal_transmits c + 1\<rparr>)
           (chap_timeout Chap_challenge_timer (chap_timeouttime c)
             (chap_output CHAP_CHALLENGE (chal_id c) data u)))"

text \<open>\<^verbatim>\<open>%d\<close> of \<^verbatim>\<open>sprintf\<close>.\<close>

fun digits :: "nat \<Rightarrow> string" where
  "digits n = (if n < 10 then [] else digits (n div 10)) @ [char_of (48 + n mod 10)]"

declare digits.simps [simp del]

definition decimal :: "int \<Rightarrow> string" where
  "decimal i = (if i < 0 then [CHR ''-''] else []) @ digits (nat \<bar>i\<bar>)"

definition ChapSendStatus :: "u8 \<Rightarrow> chap_unit \<Rightarrow> chap_unit" where
  "ChapSendStatus code u =
     (let c = chap u;
          msg = (if code = CHAP_SUCCESS then ''CHAP authentication success, unit '' else ''CHAP authentication failure, unit '')
                @ decimal (chap_unit_no c)
      in chap_output code (chal_id c) (bytes msg) u)"

definition ChapSendResponse :: "chap_unit \<Rightarrow> chap_unit" where
  "ChapSendResponse u =
     (let c = chap u;
          data = resp_length c # take (unat (resp_length c)) (response c) @ bytes (resp_name c);
          u1 = on_chap (\<lambda>c. c\<lparr>clientstate := CHAPCS_RESPONSE\<rparr>) (chap_output CHAP_RESPONSE (resp_id c) data u)
      in on_chap (\<lambda>c. c\<lparr>resp_transmits := resp_transmits c + 1\<rparr>)
           (chap_timeout Chap_response_timer (chap_timeouttime c) u1))"

text \<open>The loop of \<open>ChapGenChallenge\<close>: the bytes drawn and the unit after it.\<close>

fun random_bytes :: "nat \<Rightarrow> 'x ppp_io_scheme \<Rightarrow> u8 list \<times> 'x ppp_io_scheme" where
  "random_bytes 0 w = ([], w)"
| "random_bytes (Suc n) w =
     (let (r, w1) = random w; (bs, w2) = random_bytes n w1 in (ucast (r mod 0xff) # bs, w2))"

definition ChapGenChallenge :: "chap_unit \<Rightarrow> chap_unit" where
  "ChapGenChallenge u =
     (let (r, w1) = random (snd (link u));
          n = unat r mod (MAX_CHALLENGE_LENGTH - MIN_CHALLENGE_LENGTH) + MIN_CHALLENGE_LENGTH;
          (bs, w2) = random_bytes n w1
      in on_chap (\<lambda>c. c\<lparr>chal_len := of_nat n, chap_id := chap_id c + 1, chal_id := chap_id c + 1,
                       chal_transmits := 0, challenge := poke (challenge c) 0 bs\<rparr>)
           (on_link (\<lambda>_. w2) u))"

section \<open>Coming up and going down\<close>

definition ChapInit :: "int \<Rightarrow> chap_unit \<Rightarrow> chap_unit" where
  "ChapInit unit u =
     u\<lparr>chap := \<lparr>chap_unit_no = unit, clientstate = CHAPCS_INITIAL, serverstate = CHAPSS_INITIAL,
        challenge = replicate MAX_CHALLENGE_LENGTH 0, chal_len = 0, chal_id = 0, chal_type = 0, chap_id = 0,
        chal_name = [], chal_interval = 0, chap_timeouttime = CHAP_DEFTIMEOUT, max_transmits = CHAP_DEFTRANSMITS,
        chal_transmits = 0, resp_transmits = 0, response = replicate MAX_RESPONSE_LENGTH 0, resp_length = 0,
        resp_id = 0, resp_type = 0, resp_name = []\<rparr>\<rparr>"

definition ChapAuthWithPeer :: "u8 \<Rightarrow> chap_unit \<Rightarrow> chap_unit" where
  "ChapAuthWithPeer digest u =
     on_chap (\<lambda>c. c\<lparr>resp_name := our_name u, resp_type := digest,
        clientstate := (if clientstate c \<in> {CHAPCS_INITIAL, CHAPCS_PENDING} then CHAPCS_PENDING else CHAPCS_LISTEN)\<rparr>) u"

definition ChapAuthPeer :: "u8 \<Rightarrow> chap_unit \<Rightarrow> chap_unit" where
  "ChapAuthPeer digest u =
     (let u1 = on_chap (\<lambda>c. c\<lparr>chal_name := our_name u, chal_type := digest\<rparr>) u
      in if serverstate (chap u1) \<in> {CHAPSS_INITIAL, CHAPSS_PENDING}
         then on_chap (\<lambda>c. c\<lparr>serverstate := CHAPSS_PENDING\<rparr>) u1
         else on_chap (\<lambda>c. c\<lparr>serverstate := CHAPSS_INITIAL_CHAL\<rparr>) (ChapSendChallenge (ChapGenChallenge u1)))"

definition ChapLowerUp :: "chap_unit \<Rightarrow> chap_unit" where
  "ChapLowerUp u =
     (let u1 = on_chap (\<lambda>c. c\<lparr>clientstate := (if clientstate c = CHAPCS_INITIAL then CHAPCS_CLOSED
                  else if clientstate c = CHAPCS_PENDING then CHAPCS_LISTEN else clientstate c)\<rparr>) u
      in if serverstate (chap u1) = CHAPSS_INITIAL then on_chap (\<lambda>c. c\<lparr>serverstate := CHAPSS_CLOSED\<rparr>) u1
         else if serverstate (chap u1) = CHAPSS_PENDING
         then on_chap (\<lambda>c. c\<lparr>serverstate := CHAPSS_INITIAL_CHAL\<rparr>) (ChapSendChallenge (ChapGenChallenge u1))
         else u1)"

definition ChapLowerDown :: "chap_unit \<Rightarrow> chap_unit" where
  "ChapLowerDown u =
     (let c = chap u;
          u1 = (if serverstate c \<in> {CHAPSS_INITIAL_CHAL, CHAPSS_RECHALLENGE} then chap_untimeout Chap_challenge_timer u
                else if serverstate c = CHAPSS_OPEN \<and> chal_interval c \<noteq> 0 then chap_untimeout Chap_rechallenge_timer u
                else u);
          u2 = (if clientstate c = CHAPCS_RESPONSE then chap_untimeout Chap_response_timer u1 else u1)
      in on_chap (\<lambda>c. c\<lparr>clientstate := CHAPCS_INITIAL, serverstate := CHAPSS_INITIAL\<rparr>) u2)"

section \<open>What LCP and IPCP are told, and what they tell\<close>

text \<open>
  What LCP records is carried out in order, for CHAP and for IPCP. IPCP's routines may call \<open>die\<close>
  themselves; what that records has been carried out for IPCP and is then carried out for CHAP.
\<close>

definition chap_notified :: "ppp_call \<Rightarrow> chap_unit \<Rightarrow> chap_unit" where
  "chap_notified c u =
     (case c of
        Chap_lowerup \<Rightarrow> ChapLowerUp u
      | Chap_lowerdown \<Rightarrow> ChapLowerDown u
      | Chap_authpeer d \<Rightarrow> ChapAuthPeer d u
      | Chap_authwithpeer d \<Rightarrow> ChapAuthWithPeer d u
      | _ \<Rightarrow> u)"

definition unit_notified :: "ppp_call \<Rightarrow> chap_unit \<Rightarrow> chap_unit" where
  "unit_notified c u = chap_notified c (u\<lparr>link := ipcp_notified c (link u)\<rparr>)"

definition new_calls :: "chap_unit \<Rightarrow> lcp_unit \<Rightarrow> ppp_call list" where
  "new_calls u w = drop (length (calls (snd (link u)))) (calls w)"

definition unit_told :: "chap_unit \<Rightarrow> lcp_st \<Rightarrow> chap_unit" where
  "unit_told u l = fold unit_notified (new_calls u (snd l)) (u\<lparr>link := (fst (link u), with_lcp l (snd (link u)))\<rparr>)"

definition ipcp_ran :: "chap_unit \<Rightarrow> ipcp_st \<Rightarrow> chap_unit" where
  "ipcp_ran u st = fold chap_notified (new_calls u (snd (lcp_part (snd st)))) (u\<lparr>link := st\<rparr>)"

abbreviation lcp_of :: "chap_unit \<Rightarrow> lcp_st" where
  "lcp_of u \<equiv> lcp_part (snd (link u))"

definition peer_success :: "chap_unit \<Rightarrow> chap_unit" where
  "peer_success u = unit_told u (auth_peer_success CHAP (lcp_of u))"

definition withpeer_success :: "chap_unit \<Rightarrow> chap_unit" where
  "withpeer_success u = unit_told u (auth_withpeer_success CHAP (lcp_of u))"

definition peer_fail :: "chap_unit \<Rightarrow> chap_unit" where
  "peer_fail u = unit_told u (auth_peer_fail (lcp_of u))"

section \<open>Timeouts\<close>

definition ChapChallengeTimeout :: "chap_unit \<Rightarrow> chap_unit" where
  "ChapChallengeTimeout u =
     (let c = chap u
      in if serverstate c \<noteq> CHAPSS_INITIAL_CHAL \<and> serverstate c \<noteq> CHAPSS_RECHALLENGE then u
         else if chal_transmits c \<ge> max_transmits c
         then peer_fail (on_chap (\<lambda>c. c\<lparr>serverstate := CHAPSS_BADAUTH\<rparr>) u)
         else ChapSendChallenge u)"

definition ChapResponseTimeout :: "chap_unit \<Rightarrow> chap_unit" where
  "ChapResponseTimeout u = (if clientstate (chap u) \<noteq> CHAPCS_RESPONSE then u else ChapSendResponse u)"

definition ChapRechallenge :: "chap_unit \<Rightarrow> chap_unit" where
  "ChapRechallenge u =
     (if serverstate (chap u) \<noteq> CHAPSS_OPEN then u
      else let u1 = on_chap (\<lambda>c. c\<lparr>serverstate := CHAPSS_RECHALLENGE\<rparr>) (ChapSendChallenge (ChapGenChallenge u))
           in if chal_interval (chap u1) \<noteq> 0 then chap_timeout Chap_rechallenge_timer (chal_interval (chap u1)) u1 else u1)"

section \<open>Packets\<close>

text \<open>The value and the name of a Challenge or Response of \<open>len\<close> bytes, if it is long enough.\<close>

definition value_and_name :: "u8 list \<Rightarrow> nat \<Rightarrow> (u8 list \<times> string) option" where
  "value_and_name inp len =
     (if len < 2 then None
      else let n = unat (inp ! 0)
           in if len < 1 + n then None
              else Some (take n (drop 1 inp), c_string (chars (take (min (len - (1 + n)) 255) (drop (1 + n) inp)))))"

definition ChapReceiveChallenge :: "u8 list \<Rightarrow> u8 \<Rightarrow> nat \<Rightarrow> chap_unit \<Rightarrow> chap_unit" where
  "ChapReceiveChallenge inp i len u =
     (if clientstate (chap u) \<in> {CHAPCS_CLOSED, CHAPCS_PENDING} then u
      else case value_and_name inp len of
             None \<Rightarrow> u
           | Some (rchallenge, rhostname) \<Rightarrow>
               let secret = (case fst (get_secret (resp_name (chap u)) rhostname False u) of None \<Rightarrow> [] | Some s \<Rightarrow> s);
                   u1 = (if clientstate (chap u) = CHAPCS_RESPONSE then chap_untimeout Chap_response_timer u else u);
                   u2 = on_chap (\<lambda>c. c\<lparr>resp_id := i, resp_transmits := 0\<rparr>) u1
               in if resp_type (chap u2) = CHAP_DIGEST_MD5
                  then ChapSendResponse (on_chap (\<lambda>c. c\<lparr>response := md5 u ([i] @ bytes secret @ rchallenge),
                         resp_length := of_nat MD5_SIGNATURE_SIZE\<rparr>) u2)
                  else u2)"

text \<open>The digest the peer should have sent, and whether it did.\<close>

definition expected_digest :: "chap_unit \<Rightarrow> string \<Rightarrow> u8 list" where
  "expected_digest u secret =
     md5 u ([chal_id (chap u)] @ bytes secret @ take (unat (chal_len (chap u))) (challenge (chap u)))"

definition response_ok :: "chap_unit \<Rightarrow> u8 list \<Rightarrow> string option \<Rightarrow> bool" where
  "response_ok u remmd secret \<longleftrightarrow>
     (case secret of
        None \<Rightarrow> False
      | Some s \<Rightarrow> chal_type (chap u) = CHAP_DIGEST_MD5 \<and> length remmd = MD5_SIGNATURE_SIZE \<and> expected_digest u s = remmd)"

definition ChapReceiveResponse :: "u8 list \<Rightarrow> u8 \<Rightarrow> nat \<Rightarrow> chap_unit \<Rightarrow> chap_unit" where
  "ChapReceiveResponse inp i len u =
     (let c = chap u
      in if serverstate c \<in> {CHAPSS_CLOSED, CHAPSS_PENDING} then u
         else if i \<noteq> chal_id c then u
         else if serverstate c = CHAPSS_OPEN then ChapSendStatus CHAP_SUCCESS u
         else if serverstate c = CHAPSS_BADAUTH then ChapSendStatus CHAP_FAILURE u
         else case value_and_name inp len of
                None \<Rightarrow> u
              | Some (remmd, rhostname) \<Rightarrow>
                  let (secret, u1) = get_secret rhostname (chal_name c) True (chap_untimeout Chap_challenge_timer u)
                  in if response_ok u1 remmd secret
                     then let u2 = on_chap (\<lambda>c. c\<lparr>serverstate := CHAPSS_OPEN\<rparr>) (ChapSendStatus CHAP_SUCCESS u1);
                              u3 = (if serverstate c = CHAPSS_INITIAL_CHAL then peer_success u2 else u2)
                          in if chal_interval (chap u3) \<noteq> 0
                             then chap_timeout Chap_rechallenge_timer (chal_interval (chap u3)) u3 else u3
                     else peer_fail (on_chap (\<lambda>c. c\<lparr>serverstate := CHAPSS_BADAUTH\<rparr>) (ChapSendStatus CHAP_FAILURE u1)))"

definition ChapReceiveSuccess :: "chap_unit \<Rightarrow> chap_unit" where
  "ChapReceiveSuccess u =
     (if clientstate (chap u) \<noteq> CHAPCS_RESPONSE then u
      else withpeer_success (on_chap (\<lambda>c. c\<lparr>clientstate := CHAPCS_OPEN\<rparr>) (chap_untimeout Chap_response_timer u)))"

text \<open>\<^verbatim>\<open>auth_withpeer_fail\<close> does nothing.\<close>

definition ChapReceiveFailure :: "chap_unit \<Rightarrow> chap_unit" where
  "ChapReceiveFailure u =
     (if clientstate (chap u) \<noteq> CHAPCS_RESPONSE then u else chap_untimeout Chap_response_timer u)"

definition ChapInput :: "u8 list \<Rightarrow> nat \<Rightarrow> chap_unit \<Rightarrow> chap_unit" where
  "ChapInput p packet_len u =
     (if packet_len < CHAP_HEADERLEN then u
      else
        let code = p ! 0; i = p ! 1; len = unat (get_short (drop 2 p)); inp = drop 4 p
        in if len < CHAP_HEADERLEN then u
           else if len > packet_len then u
           else if code = CHAP_CHALLENGE then ChapReceiveChallenge inp i (len - CHAP_HEADERLEN) u
           else if code = CHAP_RESPONSE then ChapReceiveResponse inp i (len - CHAP_HEADERLEN) u
           else if code = CHAP_FAILURE then ChapReceiveFailure u
           else if code = CHAP_SUCCESS then ChapReceiveSuccess u
           else u)"

definition ChapProtocolReject :: "chap_unit \<Rightarrow> chap_unit" where
  "ChapProtocolReject u =
     (let u1 = (if serverstate (chap u) \<notin> {CHAPSS_INITIAL, CHAPSS_CLOSED} then peer_fail u else u)
      in if exited (snd (link u1)) then u1 else ChapLowerDown u1)"

section \<open>The unit\<close>

text \<open>
  Events of a unit with LCP, IPCP and CHAP: the calls an LCP routine recorded are carried out when it
  returns, now with protocol rejects for CHAP; frames go to the protocol they name, when LCP is open;
  an alarm runs the routines of the entries due. PAP (\<^verbatim>\<open>upap.c\<close>, not in the tree) shows only in the
  results it reports.
\<close>

definition link_notified :: "ppp_call \<Rightarrow> chap_unit \<Rightarrow> chap_unit" where
  "link_notified c u =
     (if c = Protrej CHAP then ChapProtocolReject u else unit_notified c u)"

definition told_all :: "chap_unit \<Rightarrow> lcp_st \<Rightarrow> chap_unit" where
  "told_all u l = fold link_notified (new_calls u (snd l)) (u\<lparr>link := (fst (link u), with_lcp l (snd (link u)))\<rparr>)"

definition unit_run_timer :: "ppp_key \<Rightarrow> chap_unit \<Rightarrow> chap_unit" where
  "unit_run_timer k u =
     (if exited (snd (link u)) then u
      else if k = Chap_challenge_timer then ChapChallengeTimeout u
      else if k = Chap_response_timer then ChapResponseTimeout u
      else if k = Chap_rechallenge_timer then ChapRechallenge u
      else if k = timer_key (fst (link u)) then ipcp_ran u (fsm_timeout ipcp_callbacks (link u))
      else told_all u (run_timer k (lcp_of u)))"

definition unit_alrm :: "chap_unit \<Rightarrow> chap_unit" where
  "unit_alrm u =
     (case callout_list (snd (link u)) of
        [] \<Rightarrow> u
      | c # cs \<Rightarrow>
          fold unit_run_timer (map c_key (c # takeWhile (\<lambda>d. c_time d = 0) cs))
            (on_link (\<lambda>w. w\<lparr>callout_list := dropWhile (\<lambda>d. c_time d = 0) cs\<rparr>) u))"

definition for_chap :: "lcp_event \<Rightarrow> chap_unit \<Rightarrow> bool" where
  "for_chap ev u \<longleftrightarrow>
     (case ev of
        Frame p len \<Rightarrow> len \<ge> DLLHEADERLEN \<and> get_short (drop 2 p) = CHAP \<and> f_state (lcp_fsm (snd (link u))) = OPENED
      | _ \<Rightarrow> False)"

definition unit_handle :: "lcp_event \<Rightarrow> chap_unit \<Rightarrow> chap_unit option" where
  "unit_handle ev u =
     (case ev of
        Alarm \<Rightarrow> Some (unit_alrm u)
      | Frame p len \<Rightarrow>
          if for_ipcp ev (link u) then map_option (ipcp_ran u) (ipcp_input (drop 4 p) (len - DLLHEADERLEN) (link u))
          else if for_chap ev u then Some (ChapInput (drop 4 p) (len - DLLHEADERLEN) u)
          else map_option (told_all u) (lcp_handle ev (lcp_of u))
      | _ \<Rightarrow> map_option (told_all u) (lcp_handle ev (lcp_of u)))"

text \<open>Results of an authentication come from CHAP itself, and for PAP from outside.\<close>

definition outside :: "lcp_event \<Rightarrow> bool" where
  "outside ev \<longleftrightarrow> (case ev of Auth_peer_success prot \<Rightarrow> prot = UPAP | Auth_withpeer_success prot \<Rightarrow> prot = UPAP | _ \<Rightarrow> True)"

definition unit_init :: "int \<Rightarrow> chap_unit \<Rightarrow> chap_unit" where
  "unit_init unit u = ChapInit unit (u\<lparr>link := link_init unit (link u)\<rparr>)"

text \<open>The options \<^verbatim>\<open>chap_interval\<close>, \<^verbatim>\<open>chap_restart\<close> and \<^verbatim>\<open>chap_max_challenge\<close>.\<close>

definition chap_configure :: "int \<Rightarrow> int \<Rightarrow> int \<Rightarrow> chap_unit \<Rightarrow> chap_unit" where
  "chap_configure interval restart transmits =
     on_chap (\<lambda>c. c\<lparr>chal_interval := interval, chap_timeouttime := restart, max_transmits := transmits\<rparr>)"

inductive unit_reach :: "chap_unit \<Rightarrow> bool" where
  init: "calls (snd (link u)) = [] \<Longrightarrow> ip_calls (snd (link u)) = [] \<Longrightarrow> \<not> exited (snd (link u)) \<Longrightarrow>
    unit_reach (unit_init unit u)"
| configure: "unit_reach u \<Longrightarrow> f_state (lcp_fsm (snd (link u))) = INITIAL \<Longrightarrow>
    unit_reach (chap_configure interval restart transmits
      (on_link (\<lambda>w. ipcp_configure iwo iao nmask (lcp_configure wo ao required echo fails w)) u))"
| step: "unit_reach u \<Longrightarrow> \<not> exited (snd (link u)) \<Longrightarrow> outside ev \<Longrightarrow> unit_handle ev u = Some u' \<Longrightarrow> unit_reach u'"

end
