(* ===== verification/Ppp_Chap_Correct.thy ===== *)
theory Ppp_Chap_Correct
  imports Ppp_Chap
begin

text \<open>
  CHAP: a peer is accepted only with the digest of its challenge and its secret, an unanswered
  challenge is sent again and finally given up, two units with a common secret authenticate each
  other, and where the code is weaker than it should be.
\<close>

section \<open>Frames\<close>

lemma on_chap_unit [simp]:
  "chap (on_chap g u) = g (chap u)" "link (on_chap g u) = link u" "md5 (on_chap g u) = md5 u"
  "our_name (on_chap g u) = our_name u" "chap_file (on_chap g u) = chap_file u"
  by (simp_all add: on_chap_def)

lemma find_secret_chap [simp]: "find_secret (on_chap g u) = find_secret u" "find_secret (u\<lparr>chap := c\<rparr>) = find_secret u"
  by (rule find_secret_same; simp add: on_chap_def)+

lemma on_link_chap [simp]: "chap (on_link g u) = chap u" "md5 (on_link g u) = md5 u" "fst (link (on_link g u)) = fst (link u)"
  by (simp_all add: on_link_def on_ip_def)

lemma chap_timeout_unit [simp]:
  "chap (chap_timeout k n u) = chap u" "chap (chap_untimeout k u) = chap u"
  "md5 (chap_timeout k n u) = md5 u" "md5 (chap_untimeout k u) = md5 u"
  "find_secret (chap_timeout k n u) = find_secret u" "find_secret (chap_untimeout k u) = find_secret u"
  "chap_file (chap_timeout k n u) = chap_file u" "chap_file (chap_untimeout k u) = chap_file u"
  "our_name (chap_timeout k n u) = our_name u" "our_name (chap_untimeout k u) = our_name u"
  "wire_out (snd (link (chap_timeout k n u))) = wire_out (snd (link u))"
  "wire_out (snd (link (chap_untimeout k u))) = wire_out (snd (link u))"
  "outpacket_buf (snd (link (chap_timeout k n u))) = outpacket_buf (snd (link u))"
  "outpacket_buf (snd (link (chap_untimeout k u))) = outpacket_buf (snd (link u))"
  by (simp_all add: chap_timeout_def chap_untimeout_def)

lemma chap_output_unit [simp]:
  "chap (chap_output code i d u) = chap u" "md5 (chap_output code i d u) = md5 u"
  "find_secret (chap_output code i d u) = find_secret u" "chap_file (chap_output code i d u) = chap_file u"
  "our_name (chap_output code i d u) = our_name u"
  "callout_list (snd (link (chap_output code i d u))) = callout_list (snd (link u))"
  by (simp_all add: chap_output_def Let_def)

lemma get_secret_unit:
  assumes "get_secret client server save u = (s, u')"
  shows "chap u' = chap u" "md5 u' = md5 u" "find_secret u' = find_secret u" "chap_file u' = chap_file u"
    "callout_list (snd (link u')) = callout_list (snd (link u))" "wire_out (snd (link u')) = wire_out (snd (link u))"
    "outpacket_buf (snd (link u')) = outpacket_buf (snd (link u))"
    "s = map_option (\<lambda>r. take MAXSECRETLEN (fst (snd r))) (find_secret u (chap_file u) client server True)"
  using assms by (auto simp: get_secret_def set_addresses_def split: option.splits if_splits)

lemma send_unit [simp]:
  "chap (ChapSendStatus code u) = chap u"
  "chap (ChapSendChallenge u) = (chap u)\<lparr>chal_transmits := chal_transmits (chap u) + 1\<rparr>"
  "serverstate (chap (ChapSendResponse u)) = serverstate (chap u)"
  by (simp_all add: ChapSendStatus_def ChapSendChallenge_def ChapSendResponse_def Let_def)

lemma gen_unit [simp]:
  "serverstate (chap (ChapGenChallenge u)) = serverstate (chap u)"
  "clientstate (chap (ChapGenChallenge u)) = clientstate (chap u)"
  by (simp_all add: ChapGenChallenge_def Let_def split: prod.split)

section \<open>Invariants of the unit\<close>

text \<open>
  A property of CHAP's state and of its pending timers. If CHAP's reactions to the layers below keep it,
  so does everything LCP and IPCP do, since they leave CHAP's timers alone.
\<close>

lemma fold_keeps: "(\<And>x s. P s \<Longrightarrow> P (f x s)) \<Longrightarrow> P s \<Longrightarrow> P (fold f xs s)"
  by (rule fold_invariant[where Q = "\<lambda>_. True"]) simp_all

locale unit_invariant =
  fixes I :: "chap_unit \<Rightarrow> bool"
  assumes link_law: "I u \<Longrightarrow> chap_pending (snd l) = chap_pending (snd (link u)) \<Longrightarrow> I (u\<lparr>link := l\<rparr>)"
    and lower_law: "I u \<Longrightarrow> I (ChapLowerUp u)" "I u \<Longrightarrow> I (ChapLowerDown u)"
    and auth_law: "I u \<Longrightarrow> I (ChapAuthPeer d u)" "I u \<Longrightarrow> I (ChapAuthWithPeer d u)"
begin

lemma keep_notified: "I u \<Longrightarrow> I (chap_notified c u)"
  by (cases c) (simp_all add: chap_notified_def lower_law auth_law)

lemma keep_unit_notified: "I u \<Longrightarrow> I (unit_notified c u)"
proof -
  assume "I u"
  moreover have "chap_timers (chap_pending (snd (link u))) (ipcp_notified c (link u))"
    by (rule chap_timers_notified) (simp add: chap_timers_def)
  ultimately show ?thesis by (simp add: unit_notified_def keep_notified link_law chap_timers_def)
qed

lemma keep_linked:
  "I u \<Longrightarrow> chap_timers (chap_pending (snd (link u))) l \<Longrightarrow> I (u\<lparr>link := (fst (link u), with_lcp l (snd (link u)))\<rparr>)"
  using chap_timers_with_lcp[of "chap_pending (snd (link u))" l "fst (link u)" "snd (link u)"]
  by (simp add: link_law chap_timers_def)

lemma keep_told: "I u \<Longrightarrow> chap_timers (chap_pending (snd (link u))) l \<Longrightarrow> I (unit_told u l)"
  unfolding unit_told_def by (intro fold_keeps[of I] keep_unit_notified keep_linked)

lemma lcp_chap_timers: "chap_timers (chap_pending (snd (link u))) (lcp_of u)"
  by (rule chap_timers_lcp_part) (simp add: chap_timers_def)

lemma keep_results: "I u \<Longrightarrow> I (peer_success u)" "I u \<Longrightarrow> I (withpeer_success u)" "I u \<Longrightarrow> I (peer_fail u)"
  unfolding peer_success_def withpeer_success_def peer_fail_def
  by (intro keep_told lcp_timers.keep_auth lcp_chap_timers; assumption)+

lemma keep_ipcp: "I u \<Longrightarrow> chap_timers (chap_pending (snd (link u))) st \<Longrightarrow> I (ipcp_ran u st)"
  unfolding ipcp_ran_def by (intro fold_keeps[of I] keep_notified link_law) (simp_all add: chap_timers_def)

lemma keep_link_notified: "I u \<Longrightarrow> I (link_notified c u)"
  by (simp add: link_notified_def ChapProtocolReject_def Let_def keep_unit_notified keep_results lower_law)

lemma keep_told_all: "I u \<Longrightarrow> chap_timers (chap_pending (snd (link u))) l \<Longrightarrow> I (told_all u l)"
  unfolding told_all_def by (intro fold_keeps[of I] keep_link_notified keep_linked)

lemma keep_lcp_timer: "I u \<Longrightarrow> I (told_all u (run_timer k (lcp_of u)))"
  by (intro keep_told_all lcp_timers.keep_run_timer lcp_chap_timers)

lemma keep_ipcp_timer: "I u \<Longrightarrow> I (ipcp_ran u (fsm_timeout ipcp_callbacks (link u)))"
  by (intro keep_ipcp ipcp_timers.stable_timeout) (simp_all add: chap_timers_def)

text \<open>Every event but an alarm, given what CHAP does with its own packets.\<close>

lemma keep_handle:
  assumes "I u" and "unit_handle ev u = Some u'" and "ev \<noteq> Alarm"     and "\<And>p len. ev = Frame p len \<Longrightarrow> for_chap ev u \<Longrightarrow> I (ChapInput (drop 4 p) (len - 4) u)"
  shows "I u'"
proof (cases "for_ipcp ev (link u) \<or> for_chap ev u")
  case True
  then obtain p len where ev: "ev = Frame p len" by (cases ev) (auto simp: for_chap_def for_ipcp_def)
  have "I (ipcp_ran u st)" if "ipcp_input q n (link u) = Some st" for q n st
    using that assms(1) ipcp_timers.stable_input[of "chap_pending (snd (link u))" "link u"]
    by (intro keep_ipcp) (simp_all add: ipcp_input_def chap_timers_def)
  then show ?thesis using assms(2) assms(4)[OF ev] True by (auto simp: unit_handle_def ev len_defs split: if_splits)
next
  case False
  then obtain l where l: "lcp_handle ev (lcp_of u) = Some l" "u' = told_all u l"
    using assms(2,3) by (cases ev) (auto simp: unit_handle_def split: if_splits)
  have "chap_timers (chap_pending (snd (link u))) l"
    by (rule lcp_timers.keep_handle[OF lcp_chap_timers assms(3) l(1)])
  then show ?thesis using assms(1) l(2) keep_told_all by blast
qed

end

section \<open>Acceptance\<close>

definition shut :: "chap_unit \<Rightarrow> bool" where
  "shut u \<longleftrightarrow> serverstate (chap u) \<noteq> CHAPSS_OPEN"

interpretation shut: unit_invariant shut
  by unfold_locales
    (auto simp: shut_def ChapLowerUp_def ChapLowerDown_def ChapAuthPeer_def ChapAuthWithPeer_def Let_def)

lemma shut_timer: "shut u \<Longrightarrow> shut (unit_run_timer k u)"
proof -
  assume s: "shut u"
  have bad: "shut (peer_fail (on_chap (\<lambda>c. c\<lparr>serverstate := CHAPSS_BADAUTH\<rparr>) u))"
    by (rule shut.keep_results) (simp add: shut_def)
  have "shut (ChapChallengeTimeout u)" "shut (ChapResponseTimeout u)" "shut (ChapRechallenge u)"
    using s bad by (simp_all add: ChapChallengeTimeout_def ChapResponseTimeout_def ChapRechallenge_def Let_def)
      (simp_all add: shut_def)
  then show ?thesis using s shut.keep_lcp_timer shut.keep_ipcp_timer by (simp add: unit_run_timer_def)
qed

lemma shut_alrm: "shut u \<Longrightarrow> shut (unit_alrm u)"
proof -
  assume "shut u"
  then have "shut (on_link g u)" for g by (simp add: shut_def)
  then have "shut (fold unit_run_timer ks (on_link g u))" for ks g by (intro fold_keeps[of shut] shut_timer)
  then show ?thesis using \<open>shut u\<close> unfolding unit_alrm_def by (simp only: split: list.split) blast
qed

text \<open>
  What the peer must have sent: a Response to the last challenge, as long as it says, whose value is the
  digest of the identifier, the secret found for the name in the packet on our name, and the challenge.
\<close>

definition correct_response :: "chap_unit \<Rightarrow> u8 list \<Rightarrow> nat \<Rightarrow> bool" where
  "correct_response u q n \<longleftrightarrow>
     4 \<le> n \<and> q ! 0 = CHAP_RESPONSE \<and> q ! 1 = chal_id (chap u) \<and> unat (get_short (drop 2 q)) \<le> n
     \<and> chal_type (chap u) = CHAP_DIGEST_MD5
     \<and> (case value_and_name (drop 4 q) (unat (get_short (drop 2 q)) - 4) of
          None \<Rightarrow> False
        | Some (digest, name) \<Rightarrow>
            length digest = 16
            \<and> (case find_secret u (chap_file u) name (chal_name (chap u)) True of
                 None \<Rightarrow> False
               | Some (_, secret, _) \<Rightarrow>
                   digest = md5 u (chal_id (chap u) # bytes (take MAXSECRETLEN secret)
                                    @ take (unat (chal_len (chap u))) (challenge (chap u)))))"

lemma response_opens:
  assumes "serverstate (chap u) \<noteq> CHAPSS_OPEN" and "serverstate (chap (ChapReceiveResponse inp i len u)) = CHAPSS_OPEN"
  obtains remmd name secret u1 where "i = chal_id (chap u)" "value_and_name inp len = Some (remmd, name)"
    "get_secret name (chal_name (chap u)) True (chap_untimeout Chap_challenge_timer u) = (secret, u1)"
    "response_ok u1 remmd secret"
proof -
  let ?v = "value_and_name inp len"
  have some: "?v \<noteq> None"
    using assms by (cases ?v) (auto simp: ChapReceiveResponse_def Let_def split: if_splits)
  have st: "serverstate (chap u) \<notin> {CHAPSS_CLOSED, CHAPSS_PENDING, CHAPSS_OPEN, CHAPSS_BADAUTH}" "i = chal_id (chap u)"
    using assms by (auto simp: ChapReceiveResponse_def Let_def split: if_splits)
  obtain remmd name where v: "?v = Some (remmd, name)" using some by auto
  obtain secret u1 where g: "get_secret name (chal_name (chap u)) True (chap_untimeout Chap_challenge_timer u) = (secret, u1)"
    by force
  have "response_ok u1 remmd secret"
  proof (rule ccontr)
    assume "\<not> response_ok u1 remmd secret"
    then have "ChapReceiveResponse inp i len u =
        peer_fail (on_chap (\<lambda>c. c\<lparr>serverstate := CHAPSS_BADAUTH\<rparr>) (ChapSendStatus CHAP_FAILURE u1))"
      using st v g by (simp add: ChapReceiveResponse_def Let_def)
    moreover have "shut (on_chap (\<lambda>c. c\<lparr>serverstate := CHAPSS_BADAUTH\<rparr>) (ChapSendStatus CHAP_FAILURE u1))"
      by (simp add: shut_def)
    ultimately show False using assms(2) shut.keep_results(3) by (auto simp: shut_def)
  qed
  then show thesis using that st v g by blast
qed

lemma response_correct:
  assumes "response_ok u1 remmd secret" and "get_secret name (chal_name (chap u)) True (chap_untimeout k u) = (secret, u1)"
  shows "chal_type (chap u) = CHAP_DIGEST_MD5 \<and> length remmd = 16 \<and>
    (case find_secret u (chap_file u) name (chal_name (chap u)) True of
                 None \<Rightarrow> False
               | Some (_, secret, _) \<Rightarrow>
                   remmd = md5 u (chal_id (chap u) # bytes (take MAXSECRETLEN secret)
                                    @ take (unat (chal_len (chap u))) (challenge (chap u))))"
  using assms(1) get_secret_unit[OF assms(2)]
  by (auto simp: response_ok_def expected_digest_def chap_lengths split: option.splits)

text \<open>
  Whatever happens to a unit, CHAP accepts the peer only on a frame that carries the correct response.
\<close>

lemma input_opens:
  assumes "shut u" and "\<not> shut (ChapInput q n u)"
  shows "correct_response u q n"
proof -
  let ?l = "unat (get_short (drop 2 q)) - 4"
  have other: "shut (ChapReceiveChallenge inp i len u)" "shut (ChapReceiveFailure u)" "shut (ChapReceiveSuccess u)" for inp i len
  proof -
    show "shut (ChapReceiveChallenge inp i len u)" "shut (ChapReceiveFailure u)"
      using assms(1)
      by (auto simp: ChapReceiveChallenge_def ChapReceiveFailure_def Let_def shut_def split: option.split prod.split)
    have "shut (on_chap (\<lambda>c. c\<lparr>clientstate := CHAPCS_OPEN\<rparr>) (chap_untimeout Chap_response_timer u))"
      using assms(1) by (simp add: shut_def)
    then show "shut (ChapReceiveSuccess u)" using assms(1) shut.keep_results(2) by (simp add: ChapReceiveSuccess_def)
  qed
  have hdr: "q ! 0 = CHAP_RESPONSE" "4 \<le> n" "unat (get_short (drop 2 q)) \<le> n"
    and op: "serverstate (chap (ChapReceiveResponse (drop 4 q) (q ! 1) ?l u)) = CHAPSS_OPEN"
    using assms other by (auto simp: ChapInput_def Let_def CHAP_HEADERLEN_def shut_def split: if_splits)
  obtain remmd name secret u1 where r: "q ! 1 = chal_id (chap u)" "value_and_name (drop 4 q) ?l = Some (remmd, name)"
    "get_secret name (chal_name (chap u)) True (chap_untimeout Chap_challenge_timer u) = (secret, u1)"
    "response_ok u1 remmd secret"
    using response_opens[OF assms(1)[unfolded shut_def] op] .
  show ?thesis using hdr r(1,2) response_correct[OF r(4,3)] by (simp add: correct_response_def)
qed

text \<open>
  C5: whatever happens to a unit, CHAP accepts the peer only on a frame that carries the correct response.
\<close>

theorem chap_accepts:
  assumes "unit_handle ev u = Some u'" and "serverstate (chap u) \<noteq> CHAPSS_OPEN" and "serverstate (chap u') = CHAPSS_OPEN"
  shows "case ev of Frame p len \<Rightarrow> for_chap ev u \<and> correct_response u (drop 4 p) (len - 4) | _ \<Rightarrow> False"
proof -
  have s: "shut u" "\<not> shut u'" using assms(2,3) by (simp_all add: shut_def)
  have alarm: "ev \<noteq> Alarm" using assms(1) s shut_alrm by (auto simp: unit_handle_def)
  obtain p len where "ev = Frame p len" "for_chap ev u" "\<not> shut (ChapInput (drop 4 p) (len - 4) u)"
    using shut.keep_handle[OF s(1) assms(1) alarm] s(2) by blast
  then show ?thesis using input_opens[OF s(1)] by simp
qed

section \<open>No challenge is forgotten\<close>

definition waits :: "chap_unit \<Rightarrow> bool" where
  "waits u \<longleftrightarrow> serverstate (chap u) \<in> {CHAPSS_INITIAL_CHAL, CHAPSS_RECHALLENGE}"

text \<open>
  While CHAP waits for the answer to a challenge, its timer is pending or among those that are about to run
  (\<open>ks\<close>), and the challenge is between 32 and 63 bytes of its array of 64.
\<close>

definition chap_inv :: "ppp_key list \<Rightarrow> chap_unit \<Rightarrow> bool" where
  "chap_inv ks u \<longleftrightarrow> length (challenge (chap u)) = 64 \<and>
     (waits u \<longrightarrow> (0 < chap_pending (snd (link u)) Chap_challenge_timer \<or> Chap_challenge_timer \<in> set ks)
        \<and> 32 \<le> unat (chal_len (chap u)) \<and> unat (chal_len (chap u)) < 64)"

lemma chap_pending_timeout [simp]:
  "chap_pending (snd (link (chap_timeout k n u))) k' = chap_pending (snd (link u)) k' + (if k' = k \<and> chap_key k then 1 else 0)"
  "chap_pending (snd (link (chap_untimeout k u))) k' = chap_pending (snd (link u)) k' - (if k' = k then 1 else 0)"
  by (simp_all add: chap_timeout_def chap_untimeout_def chap_pending_def co.pending_set co.pending_cancel)

lemma chap_pending_output [simp]: "chap_pending (snd (link (chap_output code i d u))) = chap_pending (snd (link u))"
  by (rule chap_pending_cong) simp

lemma random_bytes_unit:
  "random_bytes n w = (bs, w') \<Longrightarrow> length bs = n \<and> callout_list w' = callout_list w \<and> exited w' = exited w"
  by (induction n arbitrary: w bs w') (auto simp: random_def Let_def split: prod.splits)

lemma gen_challenge:
  "length (challenge (chap u)) = 64 \<Longrightarrow> length (challenge (chap (ChapGenChallenge u))) = 64"
  "32 \<le> unat (chal_len (chap (ChapGenChallenge u)))" "unat (chal_len (chap (ChapGenChallenge u))) < 64"
  "chap_pending (snd (link (ChapGenChallenge u))) = chap_pending (snd (link u))"
  "exited (snd (link (ChapGenChallenge u))) = exited (snd (link u))"
proof -
  obtain r w1 where r: "random (snd (link u)) = (r, w1)" by force
  define n where "n = unat r mod (MAX_CHALLENGE_LENGTH - MIN_CHALLENGE_LENGTH) + MIN_CHALLENGE_LENGTH"
  obtain bs w2 where bs: "random_bytes n w1 = (bs, w2)" by force
  have g: "ChapGenChallenge u = on_chap (\<lambda>c. c\<lparr>chal_len := of_nat n, chap_id := chap_id c + 1, chal_id := chap_id c + 1,
                       chal_transmits := 0, challenge := poke (challenge c) 0 bs\<rparr>) (on_link (\<lambda>_. w2) u)"
    unfolding ChapGenChallenge_def r Let_def prod.case n_def[symmetric] bs ..
  have n: "32 \<le> n" "n < 64" by (simp_all add: n_def chap_lengths)
  then have "unat (of_nat n :: u8) = n" by (simp add: unat_of_nat)
  then show "32 \<le> unat (chal_len (chap (ChapGenChallenge u)))" "unat (chal_len (chap (ChapGenChallenge u))) < 64"
    using n by (simp_all add: g)
  show "length (challenge (chap u)) = 64 \<Longrightarrow> length (challenge (chap (ChapGenChallenge u))) = 64"
    using random_bytes_unit[OF bs] n by (simp add: g)
  show "chap_pending (snd (link (ChapGenChallenge u))) = chap_pending (snd (link u))"
    using random_bytes_unit[OF bs] r by (auto simp: g random_def intro!: chap_pending_cong)
  show "exited (snd (link (ChapGenChallenge u))) = exited (snd (link u))"
    using random_bytes_unit[OF bs] r by (auto simp: g random_def)
qed

lemma chap_inv_challenge:
  assumes "length (challenge (chap u)) = 64"
  shows "chap_inv ks (on_chap (\<lambda>c. c\<lparr>serverstate := s\<rparr>) (ChapSendChallenge (ChapGenChallenge u)))"
  using gen_challenge[of u] assms by (simp add: chap_inv_def ChapSendChallenge_def Let_def chap_key_def)

lemma chap_inv_same:
  "chap_inv ks u \<Longrightarrow> serverstate (chap u') = serverstate (chap u) \<or> \<not> waits u' \<Longrightarrow> challenge (chap u') = challenge (chap u) \<Longrightarrow>
   chal_len (chap u') = chal_len (chap u) \<Longrightarrow>
   chap_pending (snd (link u')) Chap_challenge_timer = chap_pending (snd (link u)) Chap_challenge_timer \<or> \<not> waits u' \<Longrightarrow> chap_inv ks u'"
  by (auto simp: chap_inv_def waits_def)

interpretation chap_inv: unit_invariant "chap_inv ks" for ks
proof
  fix u :: chap_unit and l d
  assume inv: "chap_inv ks u"
  show "chap_inv ks (u\<lparr>link := l\<rparr>)" if "chap_pending (snd l) = chap_pending (snd (link u))"
    using inv that by (simp add: chap_inv_def waits_def)
  have len: "length (challenge (chap u)) = 64" using inv by (simp add: chap_inv_def)
  show "chap_inv ks (ChapLowerUp u)"
    using inv len by (auto simp: ChapLowerUp_def Let_def intro!: chap_inv_challenge elim!: chap_inv_same simp: waits_def)
  show "chap_inv ks (ChapLowerDown u)"
    using len by (simp add: ChapLowerDown_def Let_def chap_inv_def waits_def)
  show "chap_inv ks (ChapAuthPeer d u)"
    using inv len by (auto simp: ChapAuthPeer_def Let_def intro!: chap_inv_challenge elim!: chap_inv_same simp: waits_def)
  show "chap_inv ks (ChapAuthWithPeer d u)"
    using inv by (auto simp: ChapAuthWithPeer_def elim!: chap_inv_same)
qed

lemma chap_inv_response: "chap_inv ks u \<Longrightarrow> chap_inv ks (ChapSendResponse u)"
  by (erule chap_inv_same) (simp_all add: ChapSendResponse_def Let_def)

lemma chap_inv_input:
  assumes inv: "chap_inv ks u" shows "chap_inv ks (ChapInput q n u)"
proof -
  have chal: "chap_inv ks (ChapReceiveChallenge inp i len u)" for inp i len
    using inv
    by (auto simp: ChapReceiveChallenge_def Let_def intro!: chap_inv_response chap_inv_same[OF inv]
        split: option.split prod.split)
  have shut: "chap_inv ks (on_chap (\<lambda>c. c\<lparr>serverstate := s\<rparr>) (ChapSendStatus code u1))"
    if "get_secret name server True (chap_untimeout Chap_challenge_timer u) = (secret, u1)" "s \<in> {CHAPSS_OPEN, CHAPSS_BADAUTH}"
    for s code name server secret u1
    using that(2) inv get_secret_unit[OF that(1)] by (elim chap_inv_same) (auto simp: waits_def)
  have timer: "chap_inv ks (chap_timeout Chap_rechallenge_timer m u3)" if "chap_inv ks u3" for m u3
    using that by (elim chap_inv_same) simp_all
  have status: "chap_inv ks (ChapSendStatus code u)" for code
    using inv by (elim chap_inv_same) (simp_all add: ChapSendStatus_def Let_def)
  have resp: "chap_inv ks (ChapReceiveResponse inp i len u)" for inp i len
    using inv status shut chap_inv.keep_results timer
    by (auto simp: ChapReceiveResponse_def Let_def split: option.split prod.split)
  have succ: "chap_inv ks (ChapReceiveSuccess u)" "chap_inv ks (ChapReceiveFailure u)"
    using inv chap_inv.keep_results(2)
    by (auto simp: ChapReceiveSuccess_def ChapReceiveFailure_def elim!: chap_inv_same intro!: chap_inv.keep_results(2))
  show ?thesis using inv chal resp succ by (simp add: ChapInput_def Let_def)
qed

lemma chap_inv_timer: "chap_inv (k # ks) u \<Longrightarrow> chap_inv ks (unit_run_timer k u) \<or> exited (snd (link u))"
proof (cases "k = Chap_challenge_timer")
  case True
  assume inv: "chap_inv (k # ks) u"
  have "chap_inv ks (on_chap (\<lambda>c. c\<lparr>serverstate := CHAPSS_BADAUTH\<rparr>) u)"
    using inv by (simp add: chap_inv_def waits_def)
  from chap_inv.keep_results(3)[OF this] show ?thesis
    using inv True
    by (auto simp: unit_run_timer_def ChapChallengeTimeout_def Let_def chap_inv_def waits_def ChapSendChallenge_def chap_key_def)
next
  case False
  assume "chap_inv (k # ks) u"
  then have inv: "chap_inv ks u" using False by (auto simp: chap_inv_def)
  have "chap_inv ks (ChapRechallenge u)"
  proof (cases "serverstate (chap u) = CHAPSS_OPEN")
    case True
    have "chap_inv ks (chap_timeout Chap_rechallenge_timer m v)" if "chap_inv ks v" for m v
      using that by (elim chap_inv_same) simp_all
    moreover have "length (challenge (chap u)) = 64" using inv by (simp add: chap_inv_def)
    ultimately show ?thesis using True by (simp add: ChapRechallenge_def Let_def chap_inv_challenge)
  qed (simp add: ChapRechallenge_def inv)
  then show ?thesis using inv False chap_inv_response chap_inv.keep_ipcp_timer[OF inv] chap_inv.keep_lcp_timer[OF inv]
    by (simp add: unit_run_timer_def ChapResponseTimeout_def)
qed

lemma exited_timers: "exited (snd (link u)) \<Longrightarrow> fold unit_run_timer ks u = u"
  by (induction ks) (simp_all add: unit_run_timer_def)

lemma chap_inv_timers: "chap_inv ks u \<Longrightarrow> chap_inv [] (fold unit_run_timer ks u) \<or> exited (snd (link (fold unit_run_timer ks u)))"
proof (induction ks arbitrary: u)
  case (Cons k ks)
  then show ?case using chap_inv_timer[of k ks u] exited_timers[of u "k # ks"] by fastforce
qed simp

lemma chap_inv_alrm: "chap_inv [] u \<Longrightarrow> chap_inv [] (unit_alrm u) \<or> exited (snd (link (unit_alrm u)))"
proof (cases "callout_list (snd (link u))")
  case (Cons c cs)
  assume inv: "chap_inv [] u"
  let ?due = "map c_key (c # takeWhile (\<lambda>d. c_time d = 0) cs)" and ?rest = "dropWhile (\<lambda>d. c_time d = 0) cs"
  have split: "count_list (map c_key cs) k = count_list (map c_key (takeWhile (\<lambda>d. c_time d = 0) cs)) k
      + count_list (map c_key ?rest) k" for k
    by (metis count_list_append map_append takeWhile_dropWhile_id)
  have "chap_inv ?due (on_link (\<lambda>w. w\<lparr>callout_list := ?rest\<rparr>) u)"
    using inv Cons split[of Chap_challenge_timer]
    by (auto simp: chap_inv_def waits_def chap_pending_def pending_count_def count_list_0_iff split: if_splits)
  from chap_inv_timers[OF this] show ?thesis using Cons by (simp add: unit_alrm_def)
qed (simp add: unit_alrm_def)

lemma unit_reach_inv: "unit_reach u \<Longrightarrow> chap_inv [] u \<or> exited (snd (link u))"
proof (induction rule: unit_reach.induct)
  case (init u unit)
  then show ?case by (simp add: unit_init_def ChapInit_def chap_inv_def waits_def chap_lengths)
next
  case (configure u interval restart transmits iwo iao nmask wo ao required echo fails)
  let ?u = "on_link (\<lambda>w. ipcp_configure iwo iao nmask (lcp_configure wo ao required echo fails w)) u"
  have "chap_pending (snd (link ?u)) = chap_pending (snd (link u))" "exited (snd (link ?u)) = exited (snd (link u))"
    by (auto simp: ipcp_configure_def lcp_configure_def intro: chap_pending_cong)
  then show ?case using configure.IH by (auto simp: chap_configure_def elim!: chap_inv_same)
next
  case (step u ev u')
  then have inv: "chap_inv [] u" by blast
  show ?case
  proof (cases "ev = Alarm")
    case True
    then show ?thesis using chap_inv_alrm[OF inv] step.hyps by (simp add: unit_handle_def)
  next
    case False
    then show ?thesis using chap_inv.keep_handle[OF inv step.hyps(4)] chap_inv_input[OF inv] by blast
  qed
qed

section \<open>A run for the examples\<close>

text \<open>
  A unit called \<^verbatim>\<open>gate\<close> that asks for CHAP and grants it: the peer acknowledges our request and asks us to
  authenticate with CHAP, too. The digest is a checksum, enough to tell secrets apart.
\<close>

definition demo_digest :: "u8 list \<Rightarrow> u8 list" where
  "demo_digest bs = replicate 16 (sum_list bs)"

definition demo_chap :: chap_unit where
  "demo_chap = ChapInit 0 (auth_unit.extend
     (demo_auth\<lparr>link := (demo_fsm, demo_ipcp_unit\<lparr>calls := [], outpacket_buf := replicate 100 0\<rparr>),
        secrets := \<lparr>sl_init = True, pppSecretHead =
          [\<lparr>s_client = ''joe'', s_server = ''*'', s_secret = ''x'', s_addrs = []\<rparr>,
           \<lparr>s_client = ''*'', s_server = ''*'', s_secret = ''y'', s_addrs = []\<rparr>]\<rparr>\<rparr>)
     (chap_unit.fields undefined demo_digest))"

definition demo_chap_options :: lcp_options where
  "demo_chap_options = zero_lcp_options\<lparr>neg_chap := True, chap_mdtype := CHAP_DIGEST_MD5\<rparr>"

definition demo_configured :: chap_unit where
  "demo_configured = chap_configure 60 3 4 (on_link (\<lambda>w. ipcp_configure demo_ipcp_options demo_ipcp_options 0
     (lcp_configure demo_chap_options demo_chap_options True 0 0 w)) (unit_init 0 demo_chap))"

fun unit_run :: "lcp_event list \<Rightarrow> chap_unit \<Rightarrow> chap_unit option" where
  "unit_run [] u = Some u"
| "unit_run (ev # evs) u =
     (if exited (snd (link u)) \<or> \<not> outside ev then None else Option.bind (unit_handle ev u) (unit_run evs))"

lemma unit_run_reach: "unit_reach u \<Longrightarrow> unit_run evs u = Some u' \<Longrightarrow> unit_reach u'"
  by (induction evs u rule: unit_run.induct) (auto split: if_splits bind_splits intro: unit_reach.step)

definition demo_events :: "lcp_event list" where
  "demo_events = [Lowerup, Open,
     Frame [0xff, 3, 0xc0, 0x21, 2, 1, 0, 9, 3, 5, 0xc2, 0x23, 5] 13,
     Frame [0xff, 3, 0xc0, 0x21, 1, 7, 0, 9, 3, 5, 0xc2, 0x23, 5] 13]"


text \<open>What no event changes.\<close>

definition unit_config :: "chap_unit \<Rightarrow> _" where
  "unit_config u = (md5 u, find_secret u, chap_file u, our_name u, chap_unit_no (chap u), max_transmits (chap u))"

interpretation unit_config: unit_invariant "\<lambda>u. unit_config u = x" for x
  by unfold_locales
    (simp_all add: unit_config_def ChapLowerUp_def ChapLowerDown_def ChapAuthPeer_def ChapAuthWithPeer_def
      ChapSendChallenge_def ChapGenChallenge_def Let_def split: prod.splits)

lemma unit_run_config:
  assumes "unit_run evs u = Some u'" and "list_all (\<lambda>ev. case ev of Frame p n \<Rightarrow> get_short (drop 2 p) \<noteq> CHAP | Alarm \<Rightarrow> False | _ \<Rightarrow> True) evs"
  shows "unit_config u' = unit_config u"
  using assms
proof (induction evs u rule: unit_run.induct)
  case (2 ev evs u)
  then obtain v where v: "unit_handle ev u = Some v" "unit_run evs v = Some u'" "unit_config u' = unit_config v"
    by (auto split: if_splits bind_splits)
  have "unit_config v = unit_config u"
    by (rule unit_config.keep_handle[OF refl v(1)]) (use 2(3) in \<open>auto simp: for_chap_def\<close>)
  with v(3) show ?case by simp
qed simp

text \<open>LCP comes up with CHAP both ways: we challenge the peer and wait for its challenge.\<close>

lemma auth_peer_closed:
  assumes "serverstate (chap u) = CHAPSS_CLOSED"
  shows "chap (ChapAuthPeer d u) = (chap u)\<lparr>serverstate := CHAPSS_INITIAL_CHAL, chal_name := our_name u, chal_type := d,
      chal_transmits := 1, chal_len := chal_len (chap (ChapAuthPeer d u)), chap_id := chap_id (chap u) + 1,
      chal_id := chap_id (chap u) + 1, challenge := challenge (chap (ChapAuthPeer d u))\<rparr>"
    and "our_name (ChapAuthPeer d u) = our_name u"
    and "exited (snd (link (ChapAuthPeer d u))) = exited (snd (link u))"
proof -
  let ?u = "on_chap (\<lambda>c. c\<lparr>chal_name := our_name u, chal_type := d\<rparr>) u"
  have v: "ChapAuthPeer d u = on_chap (\<lambda>c. c\<lparr>serverstate := CHAPSS_INITIAL_CHAL\<rparr>) (ChapSendChallenge (ChapGenChallenge ?u))"
    using assms by (simp add: ChapAuthPeer_def)
  show "chap (ChapAuthPeer d u) = (chap u)\<lparr>serverstate := CHAPSS_INITIAL_CHAL, chal_name := our_name u, chal_type := d,
      chal_transmits := 1, chal_len := chal_len (chap (ChapAuthPeer d u)), chap_id := chap_id (chap u) + 1,
      chal_id := chap_id (chap u) + 1, challenge := challenge (chap (ChapAuthPeer d u))\<rparr>"
    by (simp add: v ChapGenChallenge_def Let_def split: prod.split)
  show "our_name (ChapAuthPeer d u) = our_name u"
    by (simp add: v ChapSendChallenge_def ChapGenChallenge_def Let_def split: prod.split)
  show "exited (snd (link (ChapAuthPeer d u))) = exited (snd (link u))" 
    by (simp add: v ChapSendChallenge_def chap_timeout_def chap_output_def Let_def gen_challenge(4,5))
qed

lemma told_both:
  assumes calls: "new_calls u (snd l) = [Send_config a b c d, Recv_config e f g h, Chap_lowerup, Upap_lowerup, Ipcp_lowerup,
      Chap_authpeer x, Chap_authwithpeer y]"
    and "serverstate (chap u) = CHAPSS_INITIAL" and "clientstate (chap u) = CHAPCS_INITIAL"
    and "st_of (link u) = INITIAL"
  defines "v \<equiv> told_all u l"
  shows "serverstate (chap v) = CHAPSS_INITIAL_CHAL" "clientstate (chap v) = CHAPCS_LISTEN"
    "chal_type (chap v) = x" "resp_type (chap v) = y" "chal_name (chap v) = our_name u" "resp_name (chap v) = our_name u"
    "chal_transmits (chap v) = 1" "exited (snd (link v)) = exited (snd l)"
proof -
  define u2 where "u2 = u\<lparr>chap := (chap u)\<lparr>clientstate := CHAPCS_CLOSED, serverstate := CHAPSS_CLOSED\<rparr>,
     link := ipcp_lowerup (fst (link u), with_lcp l (snd (link u)))\<rparr>"
  have v: "v = ChapAuthWithPeer y (ChapAuthPeer x u2)"
    by (simp add: v_def told_all_def calls link_notified_def unit_notified_def chap_notified_def ipcp_notified_def
      ChapLowerUp_def assms(2,3) u2_def on_chap_def)
  have u2: "serverstate (chap u2) = CHAPSS_CLOSED" "clientstate (chap u2) = CHAPCS_CLOSED" "our_name u2 = our_name u"
    "exited (snd (link u2)) = exited (snd l)"
    using assms(4) by (simp_all add: u2_def ipcp_lowerup_def fsm_lowerup_def set_state_def on_fsm_def)
  note p = auth_peer_closed[OF u2(1), of x]
  show "serverstate (chap v) = CHAPSS_INITIAL_CHAL" "clientstate (chap v) = CHAPCS_LISTEN"
    "chal_type (chap v) = x" "resp_type (chap v) = y" "chal_name (chap v) = our_name u" "resp_name (chap v) = our_name u"
    "chal_transmits (chap v) = 1" "exited (snd (link v)) = exited (snd l)"
    by (simp_all add: v ChapAuthWithPeer_def p(2,3) u2(3,4)) (simp_all add: p(1)[THEN arg_cong[where f = serverstate]]
      p(1)[THEN arg_cong[where f = clientstate]] p(1)[THEN arg_cong[where f = chal_type]]
      p(1)[THEN arg_cong[where f = chal_name]] p(1)[THEN arg_cong[where f = chal_transmits]] u2)
qed

text \<open>The run: the frames are acknowledged by LCP, which then starts CHAP both ways.\<close>

definition demo_opening :: chap_unit where
  "demo_opening = the (unit_run (take 3 demo_events) demo_configured)"

definition demo_opened :: lcp_st where
  "demo_opened = the (lcp_handle (demo_events ! 3) (lcp_of demo_opening))"

definition demo_waiting :: chap_unit where
  "demo_waiting = told_all demo_opening demo_opened"

lemma demo_opening:
  "unit_run (take 3 demo_events) demo_configured = Some demo_opening"
  "serverstate (chap demo_opening) = CHAPSS_INITIAL" "clientstate (chap demo_opening) = CHAPCS_INITIAL"
  "st_of (link demo_opening) = INITIAL" "\<not> exited (snd (link demo_opening))"
proof -
  have "unit_run (take 3 demo_events) demo_configured \<noteq> None" by code_simp
  then show "unit_run (take 3 demo_events) demo_configured = Some demo_opening" by (simp add: demo_opening_def)
  show "serverstate (chap demo_opening) = CHAPSS_INITIAL" "clientstate (chap demo_opening) = CHAPCS_INITIAL"
    "st_of (link demo_opening) = INITIAL" "\<not> exited (snd (link demo_opening))" by code_simp+
qed

lemma demo_opened:
  "lcp_handle (demo_events ! 3) (lcp_of demo_opening) = Some demo_opened" "\<not> exited (snd demo_opened)"
  "new_calls demo_opening (snd demo_opened) = [Send_config 1500 0xffffffff False False, Recv_config 1500 0 False False,
     Chap_lowerup, Upap_lowerup, Ipcp_lowerup, Chap_authpeer 5, Chap_authwithpeer 5]"
proof -
  have "lcp_handle (demo_events ! 3) (lcp_of demo_opening) \<noteq> None" by code_simp
  then show "lcp_handle (demo_events ! 3) (lcp_of demo_opening) = Some demo_opened" by (simp add: demo_opened_def)
  show "\<not> exited (snd demo_opened)" by code_simp
  show "new_calls demo_opening (snd demo_opened) = [Send_config 1500 0xffffffff False False, Recv_config 1500 0 False False,
     Chap_lowerup, Upap_lowerup, Ipcp_lowerup, Chap_authpeer 5, Chap_authwithpeer 5]" by code_simp
qed

lemma demo_configured: "unit_reach demo_configured"
  unfolding demo_configured_def
proof (rule unit_reach.configure)
  show "unit_reach (unit_init 0 demo_chap)" by (rule unit_reach.init; code_simp)
  show "f_state (lcp_fsm (snd (link (unit_init 0 demo_chap)))) = INITIAL" by code_simp
qed

lemma demo_waiting_reach: "unit_reach demo_waiting"
proof (rule unit_reach.step)
  show "unit_reach demo_opening" by (rule unit_run_reach[OF demo_configured demo_opening(1)])
  show "\<not> exited (snd (link demo_opening))" by (rule demo_opening(5))
  show "outside (demo_events ! 3)" by (simp add: demo_events_def outside_def)
  have "\<not> for_ipcp (demo_events ! 3) (link demo_opening)" "\<not> for_chap (demo_events ! 3) demo_opening" by code_simp+
  then show "unit_handle (demo_events ! 3) demo_opening = Some demo_waiting"
    using demo_opened(1) by (simp add: demo_events_def unit_handle_def demo_waiting_def)
qed

lemmas demo_waiting = told_both[OF demo_opened(3) demo_opening(2,3,4), folded demo_waiting_def]

lemma demo_waiting_config: "unit_config demo_waiting = unit_config demo_configured"
proof -
  have "unit_config demo_opening = unit_config demo_configured"
    by (rule unit_run_config[OF demo_opening(1)]) code_simp
  moreover have "unit_config demo_waiting = unit_config demo_opening"
    unfolding demo_waiting_def
    by (rule unit_config.keep_told_all[OF refl lcp_timers.keep_handle[OF unit_config.lcp_chap_timers _ demo_opened(1)]])
      (simp add: demo_events_def)
  ultimately show ?thesis by simp
qed

lemma demo_waiting_configured:
  "md5 demo_waiting = demo_digest" "find_secret demo_waiting = find_secret demo_configured" "chap_file demo_waiting = None"
  "our_name demo_waiting = ''gate''" "chap_unit_no (chap demo_waiting) = 0" "max_transmits (chap demo_waiting) = 4"
proof -
  have md5: "md5 demo_configured = demo_digest" 
    by (simp add: demo_configured_def chap_configure_def unit_init_def ChapInit_def demo_chap_def chap_unit.defs auth_unit.defs)
  have "chap_file demo_configured = None" "our_name demo_configured = ''gate''" "chap_unit_no (chap demo_configured) = 0"
    "max_transmits (chap demo_configured) = 4" by code_simp+
  then show "md5 demo_waiting = demo_digest" "find_secret demo_waiting = find_secret demo_configured" "chap_file demo_waiting = None"
  "our_name demo_waiting = ''gate''" "chap_unit_no (chap demo_waiting) = 0" "max_transmits (chap demo_waiting) = 4"
   using demo_waiting_config md5 by (simp_all add: unit_config_def)
qed

lemma demo_secrets:
  "find_secret demo_configured None ''gate'' ''gate'' True = Some (0, ''y'', [])"
  "find_secret demo_configured None ''joe'' ''gate'' True = Some (2, ''x'', [])"
  by code_simp+

text \<open>
  C7: in every state a unit gets into, as long as the task has not ended, a challenge that waits for its answer
  has its timer pending, and it has between 32 and 63 of the 64 bytes of its array.
\<close>

theorem chap_reach_armed:
  assumes "unit_reach u" and "\<not> exited (snd (link u))" and "serverstate (chap u) \<in> {CHAPSS_INITIAL_CHAL, CHAPSS_RECHALLENGE}"
  shows "0 < pending_count Chap_challenge_timer (callout_list (snd (link u)))
    \<and> 32 \<le> unat (chal_len (chap u)) \<and> unat (chal_len (chap u)) < length (challenge (chap u))"
  using unit_reach_inv[OF assms(1)] assms(2,3) by (auto simp: chap_inv_def waits_def chap_pending_def split: if_splits)

theorem chap_reach_armed_witness: "0 < pending_count Chap_challenge_timer (callout_list (snd (link demo_waiting)))"
  using chap_reach_armed[OF demo_waiting_reach] demo_waiting(1,8) demo_opened(2) by simp

text \<open>The peer \<^verbatim>\<open>joe\<close> answers a challenge of two bytes.\<close>

definition demo_challenger :: chap_unit where
  "demo_challenger = on_chap (\<lambda>c. c\<lparr>serverstate := CHAPSS_INITIAL_CHAL, chal_name := ''gate'', chal_type := CHAP_DIGEST_MD5,
     chal_id := 1, chal_len := 2, challenge := [3, 4]\<rparr>)
     (on_link (\<lambda>w. w\<lparr>lcp_fsm := (lcp_fsm w)\<lparr>f_state := OPENED\<rparr>\<rparr>) demo_chap)"

definition demo_answer :: lcp_event where
  "demo_answer = Frame ([0xff, 3, 0xc2, 0x23, 2, 1, 0, 24, 16] @ replicate 16 128 @ [0x6a, 0x6f, 0x65]) 28"

theorem chap_accepts_witness: "for_chap demo_answer demo_challenger"
proof -
  have "unit_handle demo_answer demo_challenger \<noteq> None" by code_simp
  then obtain u' where u': "unit_handle demo_answer demo_challenger = Some u'" by blast
  have "map_option (\<lambda>u. serverstate (chap u)) (unit_handle demo_answer demo_challenger) = Some CHAPSS_OPEN" by code_simp
  then have "serverstate (chap u') = CHAPSS_OPEN" by (simp add: u')
  moreover have "serverstate (chap demo_challenger) \<noteq> CHAPSS_OPEN" by code_simp
  ultimately show ?thesis using chap_accepts[OF u'] by (simp add: demo_answer_def)
qed

end
