(* ===== verification/Ppp_Chap_Handshake.thy ===== *)
theory Ppp_Chap_Handshake
  imports Ppp_Chap_Correct
begin

text \<open>
  Runs of CHAP: what goes over the wire, two units that authenticate each other, the retransmission of
  challenges, a peer that reflects our own challenge, and the timers of repeated challenges.
\<close>

section \<open>Packets on the wire\<close>

definition chap_frame :: "u8 \<Rightarrow> u8 \<Rightarrow> u8 list \<Rightarrow> u8 list" where
  "chap_frame code i data = [0xff, 0x03] @ PUTSHORT CHAP @ [code, i] @ PUTSHORT (of_nat (4 + length data)) @ data"

lemma length_chap_frame: "length (chap_frame code i data) - 4 = length data + 4"
  by (simp add: chap_frame_def)

lemma chap_output_wire [simp]:
  "wire_out (snd (link (chap_output code i data u))) = wire_out (snd (link u)) @ [chap_frame code i data]"
proof -
  let ?bs = "[0xff, 0x03] @ PUTSHORT CHAP @ [code, i] @ PUTSHORT (of_nat (4 + length data)) @ data"
  have "take (length ?bs) (drop 0 (poke buf 0 ?bs)) = ?bs" for buf :: "u8 list" by (rule take_drop_poke) simp
  moreover have "length ?bs = 4 + length data + 4" by simp
  ultimately have "take (4 + length data + 4) (poke buf 0 ?bs) = ?bs" for buf by (metis drop0)
  then show ?thesis by (simp add: chap_output_def chap_frame_def Let_def chap_lengths len_defs)
qed

lemma chap_output_bytes: "8 + length data \<le> length (outpacket_buf (snd (link u))) \<Longrightarrow>
    length (outpacket_buf (snd (link (chap_output code i data u)))) = length (outpacket_buf (snd (link u)))"
  by (simp add: chap_output_def Let_def)

text \<open>Reading such a packet back.\<close>

lemma get_short_PUTSHORT: "get_short (PUTSHORT s @ xs) = s"
proof -
  obtain a b where "PUTSHORT s = [a, b]" by (simp add: PUTSHORT_def)
  then show ?thesis using PUTSHORT_eq_iff[of s a b] by (simp add: get_short_def)
qed

lemma chars_bytes: "chars (bytes s) = s"
proof -
  have "char_of (unat (of_char c :: u8)) = c" for c
  proof -
    have "unat (of_nat (of_char c) :: u8) = of_char c" by (simp only: unat_of_nat) simp
    then show ?thesis by (simp add: of_nat_of_char)
  qed
  then show ?thesis by (simp add: chars_def bytes_def comp_def)
qed

lemma ChapInput_frame:
  assumes "length data < 65532"
  shows "ChapInput (drop 4 (chap_frame code i data)) (length data + 4) u =
    (if code = CHAP_CHALLENGE then ChapReceiveChallenge data i (length data) u
     else if code = CHAP_RESPONSE then ChapReceiveResponse data i (length data) u
     else if code = CHAP_FAILURE then ChapReceiveFailure u
     else if code = CHAP_SUCCESS then ChapReceiveSuccess u
     else u)"
proof -
  have d: "drop 4 (chap_frame code i data) = [code, i] @ PUTSHORT (of_nat (4 + length data)) @ data"
    by (simp add: chap_frame_def PUTSHORT_def)
  have "unat (of_nat (4 + length data) :: u16) = 4 + length data" using assms by (simp only: unat_of_nat) simp
  moreover have "drop 2 (PUTSHORT x @ data) = data" for x by (simp add: PUTSHORT_def)
  ultimately show ?thesis unfolding d by (simp add: ChapInput_def Let_def chap_lengths get_short_PUTSHORT del: of_nat_add)
qed

lemma value_and_name_parse:
  assumes "length val < 256" and "val \<noteq> []" and "length name < 256" and "list_all (\<lambda>c. c \<noteq> NUL) name"
  shows "value_and_name (of_nat (length val) # val @ bytes name) (1 + length val + length name) = Some (val, name)"
proof -
  have "unat (of_nat (length val) :: u8) = length val" using assms(1) by (simp add: unat_of_nat)
  moreover have "c_string name = name" using assms(4) by (simp add: c_string_def list_all_iff takeWhile_eq_all_conv)
  moreover have "length (bytes name) = length name" by (simp add: bytes_def)
  moreover have "0 < length val" using assms(2) by simp
  ultimately show ?thesis using assms(3) by (simp add: value_and_name_def Let_def chars_bytes min_def)
qed

section \<open>The two sides\<close>

definition good_name :: "string \<Rightarrow> bool" where
  "good_name s \<longleftrightarrow> length s < 256 \<and> list_all (\<lambda>c. c \<noteq> NUL) s"

text \<open>The packet a challenge or response is sent in: the length of the value, the value, the name.\<close>

definition chap_value :: "u8 list \<Rightarrow> string \<Rightarrow> u8 list" where
  "chap_value val name = of_nat (length val) # val @ bytes name"

lemma length_chap_value [simp]: "length (chap_value val name) = 1 + length val + length name"
  by (simp add: chap_value_def bytes_def)

lemma chap_value_parse:
  "length val < 256 \<Longrightarrow> val \<noteq> [] \<Longrightarrow> good_name name \<Longrightarrow>
    value_and_name (chap_value val name) (Suc (length val + length name)) = Some (val, name)"
  using value_and_name_parse[of val name] by (simp add: chap_value_def good_name_def)

definition same_server :: "chap_unit \<Rightarrow> chap_unit \<Rightarrow> bool" where
  "same_server u u' \<longleftrightarrow> serverstate (chap u') = serverstate (chap u) \<and> chal_id (chap u') = chal_id (chap u)
     \<and> chal_type (chap u') = chal_type (chap u) \<and> chal_name (chap u') = chal_name (chap u)
     \<and> chal_len (chap u') = chal_len (chap u) \<and> challenge (chap u') = challenge (chap u) \<and> md5 u' = md5 u
     \<and> chap_file u' = chap_file u \<and> find_secret u' = find_secret u"

text \<open>Our answer to a challenge.\<close>

lemma client_answers:
  fixes i :: u8
  assumes "clientstate (chap c) \<notin> {CHAPCS_CLOSED, CHAPCS_PENDING}" and "resp_type (chap c) = CHAP_DIGEST_MD5"
    and "length val < 256" and "val \<noteq> []" and "good_name name"
    and "find_secret c (chap_file c) (resp_name (chap c)) name True = Some (n, secret, addrs)"
    and "\<And>x. length (md5 c x) = 16"
  defines "c1 \<equiv> ChapReceiveChallenge (chap_value val name) i (Suc (length val + length name)) c"
  shows "wire_out (snd (link c1)) = wire_out (snd (link c)) @
      [chap_frame CHAP_RESPONSE i (chap_value (md5 c (i # bytes (take MAXSECRETLEN secret) @ val)) (resp_name (chap c)))]"
    and "clientstate (chap c1) = CHAPCS_RESPONSE" and "same_server c c1"
proof -
  have secret: "fst (get_secret (resp_name (chap c)) name False c) = Some (take MAXSECRETLEN secret)"
    using assms(6) by (simp add: get_secret_def)
  define u1 where "u1 = (if clientstate (chap c) = CHAPCS_RESPONSE then chap_untimeout Chap_response_timer c else c)"
  define u2 where "u2 = on_chap (\<lambda>c'. c'\<lparr>response := md5 c (i # bytes (take MAXSECRETLEN secret) @ val),
      resp_length := 16\<rparr>) (on_chap (\<lambda>c. c\<lparr>resp_id := i, resp_transmits := 0\<rparr>) u1)"
  have u1: "chap u1 = chap c" "md5 u1 = md5 c" "find_secret u1 = find_secret c" "chap_file u1 = chap_file c"
    "wire_out (snd (link u1)) = wire_out (snd (link c))" by (simp_all add: u1_def)
  have c1: "c1 = ChapSendResponse u2"
    using assms(1,2) u1(1) chap_value_parse[OF assms(3,4,5)] secret
    by (simp add: c1_def ChapReceiveChallenge_def Let_def u1_def[symmetric] u2_def chap_lengths)
  have len: "take 16 (md5 c x) = md5 c x" for x using assms(7)[of x] by simp
  show "wire_out (snd (link c1)) = wire_out (snd (link c)) @
      [chap_frame CHAP_RESPONSE i (chap_value (md5 c (i # bytes (take MAXSECRETLEN secret) @ val)) (resp_name (chap c)))]"
    using u1 assms(7) by (simp add: c1 ChapSendResponse_def Let_def u2_def len chap_value_def)
  show "clientstate (chap c1) = CHAPCS_RESPONSE" by (simp add: c1 ChapSendResponse_def Let_def)
  show "same_server c c1" using u1 by (simp add: same_server_def c1 ChapSendResponse_def Let_def u2_def)
qed

text \<open>Our judgement of a response.\<close>

definition accepted :: "chap_unit \<Rightarrow> string list \<Rightarrow> chap_unit" where
  "accepted s addrs =
     (let u2 = on_chap (\<lambda>c. c\<lparr>serverstate := CHAPSS_OPEN\<rparr>)
                 (ChapSendStatus CHAP_SUCCESS (set_addresses addrs (chap_untimeout Chap_challenge_timer s)));
          u3 = (if serverstate (chap s) = CHAPSS_INITIAL_CHAL then peer_success u2 else u2)
      in if chal_interval (chap u3) \<noteq> 0 then chap_timeout Chap_rechallenge_timer (chal_interval (chap u3)) u3 else u3)"

lemma server_accepts:
  assumes "waits s" and "chal_type (chap s) = CHAP_DIGEST_MD5" and "good_name name"
    and "find_secret s (chap_file s) name (chal_name (chap s)) True = Some (n, secret, addrs)"
    and "digest = md5 s (chal_id (chap s) # bytes (take MAXSECRETLEN secret) @ take (unat (chal_len (chap s))) (challenge (chap s)))"
    and "length digest = 16"
  shows "ChapReceiveResponse (chap_value digest name) (chal_id (chap s)) (17 + length name) s = accepted s addrs"
proof -
  have v: "value_and_name (chap_value digest name) (17 + length name) = Some (digest, name)"
    using chap_value_parse[of digest name] assms(3,6) by fastforce
  have g: "get_secret name (chal_name (chap s)) True (chap_untimeout Chap_challenge_timer s) =
      (Some (take MAXSECRETLEN secret), set_addresses addrs (chap_untimeout Chap_challenge_timer s))"
    using assms(4) by (simp add: get_secret_def)
  have sa: "chap (set_addresses addrs u) = chap u" "md5 (set_addresses addrs u) = md5 u" for u
    by (simp_all add: set_addresses_def)
  have "response_ok (set_addresses addrs (chap_untimeout Chap_challenge_timer s)) digest (Some (take MAXSECRETLEN secret))"
    using assms(2,5,6) by (simp add: response_ok_def expected_digest_def sa chap_lengths)
  then show ?thesis using assms(1) v g
    by (auto simp: ChapReceiveResponse_def accepted_def Let_def waits_def)
qed

text \<open>A success moves the unit on, but changes neither CHAP nor what was sent before.\<close>

lemma auth_done_calls: "new_calls u (snd (auth_done b (lcp_of u))) \<in> {[], [Ipcp_open]}"
  by (simp add: new_calls_def auth_done_def enter_network_def log_calls_def on_unit_def Let_def)

definition auth_view :: "u32 \<times> ppp_phase \<Rightarrow> ipcp_st \<Rightarrow> bool" where
  "auth_view v st \<longleftrightarrow> (auth_pending (snd st), ppp_phase (snd st)) = v"

interpretation auth_view: fsm_stable_unit ipcp_base_callbacks "auth_view v" for v
  by unfold_locales
    (auto simp: auth_view_def ipcp_cb_defs ipcp_down_def TIMEOUT_def UNTIMEOUT_def Let_def split: prod.splits)

lemma wire_sconfreq: "prefix (wire_out (snd st)) (wire_out (snd (fsm_sconfreq ipcp_base_callbacks r st)))"
proof -
  define st1 where "st1 = (if st_of st \<notin> {REQSENT, ACKRCVD, ACKSENT}
      then on_fsm (\<lambda>f. f\<lparr>f_nakloops := 0\<rparr>) (ipcp_resetci st) else st)"
  define st3 where "st3 = send_client (if \<not> r then on_fsm (\<lambda>f. f\<lparr>f_retransmits := f_maxconfreqtransmits f,
      f_reqid := f_id f + 1, f_id := f_id f + 1\<rparr>) st1 else st1)"
  obtain bs n st' where add: "ipcp_addci_cb st3 (clamp_len (peer_mru (snd st3)) (ipcp_cilen_cb st3)) = (bs, n, st')"
    by (metis prod_cases3)
  have "wire_out (snd st1) = wire_out (snd st)" by (simp add: st1_def ipcp_resetci_def Let_def)
  then have "prefix (wire_out (snd st)) (wire_out (snd st3))"
    using \<open>wire_out (snd st1) = wire_out (snd st)\<close> by (simp add: st3_def send_client_def Let_def)
  moreover have "wire_out (snd st') = wire_out (snd st3)"
    using add by (auto simp: ipcp_addci_cb_def Let_def split: prod.splits)
  moreover have "\<exists>f. wire_out (snd (fsm_sconfreq ipcp_base_callbacks r st)) = wire_out (snd st') @ [f]"
    unfolding fsm_sconfreq_def Let_def ipcp_tables call_def option.case prod.case st1_def[symmetric] st3_def[symmetric] add
    by (simp add: TIMEOUT_def fsm_sdata_def Let_def)
  ultimately show ?thesis by (auto simp: prefix_def)
qed

lemma wire_open: "prefix (wire_out (snd st)) (wire_out (snd (ipcp_open st)))"
proof -
  have set: "wire_out (snd (set_state s st)) = wire_out (snd st)" for s and st :: ipcp_st by (simp add: set_state_def)
  have down: "wire_out (snd (fsm_lowerdown ipcp_base_callbacks st)) = wire_out (snd st)" for st
    by (cases "st_of st") (simp_all add: fsm_lowerdown_def set UNTIMEOUT_def ipcp_down_def Let_def)
  have up: "prefix (wire_out (snd st)) (wire_out (snd (fsm_lowerup ipcp_base_callbacks st)))" for st
    by (cases "st_of st") (simp_all add: fsm_lowerup_def set wire_sconfreq)
  have restart: "prefix (wire_out (snd st)) (wire_out (snd (fsm_lowerup ipcp_base_callbacks (fsm_lowerdown ipcp_base_callbacks st))))"
    for st using up[of "fsm_lowerdown ipcp_base_callbacks st"] by (simp add: down)
  show ?thesis unfolding ipcp_open_def ipcp_open_table
    using restart[of st] restart[of "set_state STOPPING st"]
    by (cases "st_of st") (simp_all add: fsm_open_def Let_def set wire_sconfreq)
qed

lemma lcp_wire [simp]:
  "wire_out (with_lcp l w) = wire_out (snd l)" "wire_out (snd (lcp_part w)) = wire_out w"
  "auth_pending (with_lcp l w) = auth_pending (snd l)" "auth_pending (snd (lcp_part w)) = auth_pending w"
  "ppp_phase (with_lcp l w) = ppp_phase (snd l)" "ppp_phase (snd (lcp_part w)) = ppp_phase w"
  by (cases w; simp add: with_lcp_def lcp_part_def lcp_unit.defs)+

lemma told_auth_done:
  fixes u :: chap_unit and b :: u32
  defines "u' \<equiv> unit_told u (auth_done b (lcp_of u))"
  shows "chap u' = chap u" "prefix (wire_out (snd (link u))) (wire_out (snd (link u')))"
    "auth_pending (snd (link u')) = auth_pending (snd (link u)) AND NOT b"
    "ppp_phase (snd (link u')) =
      (if auth_pending (snd (link u)) AND NOT b = 0 then PHASE_NETWORK else ppp_phase (snd (link u)))"
proof -
  let ?l = "auth_done b (lcp_of u)"
  let ?st = "(fst (link u), with_lcp ?l (snd (link u)))"
  let ?v = "(auth_pending (snd (link u)) AND NOT b,
      if auth_pending (snd (link u)) AND NOT b = 0 then PHASE_NETWORK else ppp_phase (snd (link u)))"
  have wire: "wire_out (snd ?st) = wire_out (snd (link u))" and view: "auth_view ?v ?st"
    by (simp_all add: auth_done_def enter_network_def log_calls_def on_unit_def Let_def auth_view_def)
  have "auth_view ?v (ipcp_open ?st)"
    unfolding ipcp_open_def ipcp_open_table by (rule auth_view.stable_open[OF view])
  moreover have u': "u' = u\<lparr>link := ?st\<rparr> \<or> u' = u\<lparr>link := ipcp_open ?st\<rparr>"
    using auth_done_calls[of u b]
    by (auto simp: u'_def unit_told_def unit_notified_def chap_notified_def ipcp_notified_def)
  ultimately show "chap u' = chap u" "prefix (wire_out (snd (link u))) (wire_out (snd (link u')))"
    "auth_pending (snd (link u')) = auth_pending (snd (link u)) AND NOT b"
    "ppp_phase (snd (link u')) =
      (if auth_pending (snd (link u)) AND NOT b = 0 then PHASE_NETWORK else ppp_phase (snd (link u)))"
    using wire wire_open[of ?st] view by (auto simp: auth_view_def)
qed

lemma success_auth_done:
  "peer_success u = unit_told u (auth_done CHAP_PEER (lcp_of u))"
  "withpeer_success u = unit_told u (auth_done CHAP_WITHPEER (lcp_of u))"
  by (simp_all add: peer_success_def withpeer_success_def auth_peer_success_def auth_withpeer_success_def)

lemmas peer_success_unit = told_auth_done[where b = CHAP_PEER, folded success_auth_done]
lemmas withpeer_success_unit = told_auth_done[where b = CHAP_WITHPEER, folded success_auth_done]

lemma accepted_unit:
  assumes "waits s"
  shows "serverstate (chap (accepted s addrs)) = CHAPSS_OPEN"
    and "chap_frame CHAP_SUCCESS (chal_id (chap s)) (bytes (''CHAP authentication success, unit '' @ decimal (chap_unit_no (chap s))))
      \<in> set (drop (length (wire_out (snd (link s)))) (wire_out (snd (link (accepted s addrs)))))"
    and "serverstate (chap s) = CHAPSS_INITIAL_CHAL \<Longrightarrow>
      auth_pending (snd (link (accepted s addrs))) = auth_pending (snd (link s)) AND NOT CHAP_PEER"
proof -
  define u1 where "u1 = set_addresses addrs (chap_untimeout Chap_challenge_timer s)"
  define u2 where "u2 = on_chap (\<lambda>c. c\<lparr>serverstate := CHAPSS_OPEN\<rparr>) (ChapSendStatus CHAP_SUCCESS u1)"
  let ?f = "chap_frame CHAP_SUCCESS (chal_id (chap s)) (bytes (''CHAP authentication success, unit '' @ decimal (chap_unit_no (chap s))))"
  have u1: "chap u1 = chap s" "wire_out (snd (link u1)) = wire_out (snd (link s))"
    by (simp_all add: u1_def set_addresses_def)
  have u2: "chap u2 = (chap s)\<lparr>serverstate := CHAPSS_OPEN\<rparr>" "wire_out (snd (link u2)) = wire_out (snd (link s)) @ [?f]"
    by (simp_all add: u2_def u1 ChapSendStatus_def Let_def)
  have acc: "chap (accepted s addrs) = chap u2" "prefix (wire_out (snd (link u2))) (wire_out (snd (link (accepted s addrs))))"
    using peer_success_unit[of u2] by (simp_all add: accepted_def Let_def u1_def[symmetric] u2_def[symmetric])
  show "serverstate (chap (accepted s addrs)) = CHAPSS_OPEN" by (simp add: acc u2)
  show "?f \<in> set (drop (length (wire_out (snd (link s)))) (wire_out (snd (link (accepted s addrs)))))"
    using acc(2) by (auto simp: u2 prefix_def)
  have pend: "auth_pending (snd (link u2)) = auth_pending (snd (link s))"
    by (simp add: u2_def u1_def ChapSendStatus_def chap_output_def set_addresses_def chap_untimeout_def Let_def)
  show "auth_pending (snd (link (accepted s addrs))) = auth_pending (snd (link s)) AND NOT CHAP_PEER"
    if "serverstate (chap s) = CHAPSS_INITIAL_CHAL"
    using that peer_success_unit(3)[of u2] pend
    by (simp add: accepted_def Let_def u1_def[symmetric] u2_def[symmetric] chap_timeout_def)
qed

text \<open>The challenge of a unit that waits for the answer, as it is sent and sent again.\<close>

definition challenge_of :: "chap_unit \<Rightarrow> u8 list" where
  "challenge_of s = take (unat (chal_len (chap s))) (challenge (chap s))"

definition challenge_frame :: "chap_unit \<Rightarrow> u8 list" where
  "challenge_frame s = chap_frame CHAP_CHALLENGE (chal_id (chap s)) (chap_value (challenge_of s) (chal_name (chap s)))"

lemma challenge_sent:
  assumes "chap_inv ks s" and "waits s"
  shows "wire_out (snd (link (ChapSendChallenge s))) = wire_out (snd (link s)) @ [challenge_frame s]"
    and "length (challenge_of s) < 256" and "challenge_of s \<noteq> []"
proof -
  have len: "length (challenge_of s) = unat (chal_len (chap s))" "32 \<le> unat (chal_len (chap s))" "unat (chal_len (chap s)) < 64"
    using assms by (simp_all add: challenge_of_def chap_inv_def)
  then show "length (challenge_of s) < 256" "challenge_of s \<noteq> []" by auto
  show "wire_out (snd (link (ChapSendChallenge s))) = wire_out (snd (link s)) @ [challenge_frame s]"
    using len(1) by (simp add: ChapSendChallenge_def Let_def challenge_frame_def chap_value_def) (simp add: challenge_of_def)
qed

lemma input_challenge:
  assumes "chap_inv ks s" and "waits s" and "good_name (chal_name (chap s))"
  shows "ChapInput (drop 4 (challenge_frame s)) (length (challenge_frame s) - 4) c =
    ChapReceiveChallenge (chap_value (challenge_of s) (chal_name (chap s))) (chal_id (chap s))
      (Suc (length (challenge_of s) + length (chal_name (chap s)))) c"
proof -
  let ?d = "chap_value (challenge_of s) (chal_name (chap s))"
  have "length ?d < 65532" using challenge_sent(2)[OF assms(1,2)] assms(3) by (simp add: good_name_def)
  from ChapInput_frame[OF this, of CHAP_CHALLENGE "chal_id (chap s)" c] show ?thesis
    unfolding challenge_frame_def length_chap_frame by simp
qed

lemma input_response:
  assumes "length digest = 16" and "good_name name"
  shows "ChapInput (drop 4 (chap_frame CHAP_RESPONSE i (chap_value digest name)))
      (length (chap_frame CHAP_RESPONSE i (chap_value digest name)) - 4) s =
    ChapReceiveResponse (chap_value digest name) i (17 + length name) s"
proof -
  have "length (chap_value digest name) < 65532" using assms by (simp add: good_name_def)
  from ChapInput_frame[OF this, of CHAP_RESPONSE i s] show ?thesis
    unfolding length_chap_frame using assms(1) by (simp add: chap_codes)
qed

text \<open>A client that knows the secret is accepted.\<close>

lemma handshake:
  assumes inv: "chap_inv ks s" and w: "waits s" and "chal_type (chap s) = CHAP_DIGEST_MD5" and "good_name (chal_name (chap s))"
    and c: "clientstate (chap c) \<notin> {CHAPCS_CLOSED, CHAPCS_PENDING}" "resp_type (chap c) = CHAP_DIGEST_MD5"
      "good_name (resp_name (chap c))"
    and secret: "find_secret c (chap_file c) (resp_name (chap c)) (chal_name (chap s)) True = Some (m, secret, caddrs)"
      "find_secret s (chap_file s) (resp_name (chap c)) (chal_name (chap s)) True = Some (n, secret, addrs)"
    and md5: "md5 c = md5 s" "\<And>x. length (md5 s x) = 16"
    and s': "same_server s s'"
  defines "c1 \<equiv> ChapInput (drop 4 (challenge_frame s)) (length (challenge_frame s) - 4) c"
  shows "ChapInput (drop 4 (last (wire_out (snd (link c1))))) (length (last (wire_out (snd (link c1)))) - 4) s' = accepted s' addrs"
    and "clientstate (chap c1) = CHAPCS_RESPONSE" and "same_server c c1"
proof -
  let ?i = "chal_id (chap s)"
  let ?digest = "md5 c (?i # bytes (take MAXSECRETLEN secret) @ challenge_of s)"
  have c1: "c1 = ChapReceiveChallenge (chap_value (challenge_of s) (chal_name (chap s))) ?i
      (Suc (length (challenge_of s) + length (chal_name (chap s)))) c"
    unfolding c1_def by (rule input_challenge[OF inv w assms(4)])
  note ans = client_answers[OF c(1,2) challenge_sent(2,3)[OF inv w] assms(4) secret(1), of ?i, folded c1]
  show "clientstate (chap c1) = CHAPCS_RESPONSE" "same_server c c1" using ans(2,3) md5 by simp_all
  have digest: "length ?digest = 16" using md5 by simp
  have s1: "waits s'" "chal_type (chap s') = CHAP_DIGEST_MD5" "chal_id (chap s') = ?i"
      "find_secret s' (chap_file s') (resp_name (chap c)) (chal_name (chap s')) True = Some (n, secret, addrs)"
      "?digest = md5 s' (chal_id (chap s') # bytes (take MAXSECRETLEN secret) @ take (unat (chal_len (chap s'))) (challenge (chap s')))"
    using s' w assms(3) secret(2) md5(1) by (simp_all add: same_server_def waits_def challenge_of_def)
  have wire: "last (wire_out (snd (link c1))) = chap_frame CHAP_RESPONSE ?i (chap_value ?digest (resp_name (chap c)))"
    using ans(1) md5 by simp
  show "ChapInput (drop 4 (last (wire_out (snd (link c1))))) (length (last (wire_out (snd (link c1)))) - 4) s' = accepted s' addrs"
    unfolding wire input_response[OF digest c(3)] using server_accepts[OF s1(1,2) c(3) s1(4,5) digest] s1(3) by simp
qed

lemma length_digits: "length (digits n) \<le> Suc n"
proof (induction n rule: digits.induct)
  case (1 n)
  then show ?case by (subst digits.simps) (cases "n < 10"; simp; linarith)
qed

definition success_frame :: "chap_unit \<Rightarrow> u8 list" where
  "success_frame s = chap_frame CHAP_SUCCESS (chal_id (chap s))
     (bytes (''CHAP authentication success, unit '' @ decimal (chap_unit_no (chap s))))"

lemma input_success:
  assumes "chap_unit_no (chap s) \<in> {0..<1000}" and "clientstate (chap c) = CHAPCS_RESPONSE"
  shows "clientstate (chap (ChapInput (drop 4 (success_frame s)) (length (success_frame s) - 4) c)) = CHAPCS_OPEN"
proof -
  let ?d = "bytes (''CHAP authentication success, unit '' @ decimal (chap_unit_no (chap s)))"
  have "length (digits (nat (chap_unit_no (chap s)))) \<le> 1000"
    using length_digits[of "nat (chap_unit_no (chap s))"] assms(1) by auto
  then have "length ?d < 65532" using assms(1) by (simp add: bytes_def decimal_def)
  from ChapInput_frame[OF this, of CHAP_SUCCESS "chal_id (chap s)" c]
  have "ChapInput (drop 4 (success_frame s)) (length (success_frame s) - 4) c = ChapReceiveSuccess c"
    unfolding success_frame_def length_chap_frame by (simp add: chap_codes)
  then show ?thesis using assms(2) withpeer_success_unit(1) by (simp add: ChapReceiveSuccess_def)
qed

section \<open>Theorems\<close>

text \<open>The unit of the example and a client called \<^verbatim>\<open>joe\<close>.\<close>

definition demo_joe :: chap_unit where
  "demo_joe = on_chap (\<lambda>c. c\<lparr>resp_name := ''joe''\<rparr>) demo_waiting"

lemma demo_our_name: "our_name demo_opening = ''gate''"
  by code_simp

text \<open>
  C6: two units that find the same secret for the client's name on the server's authenticate. The client's
  answer to the server's challenge makes the server accept it, clear its pending bit and
  send a Success, on which the client is satisfied. MD5 need only give 16 bytes.
\<close>

theorem chap_handshake:
  assumes "unit_reach s" and "\<not> exited (snd (link s))" and "serverstate (chap s) = CHAPSS_INITIAL_CHAL"
    and "chal_type (chap s) = CHAP_DIGEST_MD5" and "good_name (chal_name (chap s))" and "chap_unit_no (chap s) \<in> {0..<1000}"
    and "clientstate (chap c) = CHAPCS_LISTEN" and "resp_type (chap c) = CHAP_DIGEST_MD5" and "good_name (resp_name (chap c))"
    and "find_secret c (chap_file c) (resp_name (chap c)) (chal_name (chap s)) True = Some (m, secret, caddrs)"
    and "find_secret s (chap_file s) (resp_name (chap c)) (chal_name (chap s)) True = Some (n, secret, addrs)"
    and "md5 c = md5 s" and "\<And>x. length (md5 s x) = 16"
  shows "let c1 = ChapInput (drop 4 (challenge_frame s)) (length (challenge_frame s) - 4) c;
             r = last (wire_out (snd (link c1)));
             s1 = ChapInput (drop 4 r) (length r - 4) s;
             c2 = ChapInput (drop 4 (success_frame s)) (length (success_frame s) - 4) c1
         in serverstate (chap s1) = CHAPSS_OPEN
            \<and> auth_pending (snd (link s1)) = auth_pending (snd (link s)) AND NOT CHAP_PEER
            \<and> success_frame s \<in> set (drop (length (wire_out (snd (link s)))) (wire_out (snd (link s1))))
            \<and> clientstate (chap c2) = CHAPCS_OPEN"
proof -
  have inv: "chap_inv [] s" using unit_reach_inv[OF assms(1)] assms(2) by blast
  have w: "waits s" using assms(3) by (simp add: waits_def)
  have self: "same_server s s" by (simp add: same_server_def)
  have c: "clientstate (chap c) \<notin> {CHAPCS_CLOSED, CHAPCS_PENDING}" using assms(7) by simp
  note h = handshake[OF inv w assms(4,5) c assms(8,9,10,11,12,13) self]
  show ?thesis unfolding Let_def h(1) success_frame_def[symmetric]
    using accepted_unit[OF w, of addrs] assms(3) input_success[OF assms(6) h(2)]
    by (simp add: success_frame_def)
qed

theorem chap_handshake_witness:
  "clientstate (chap (ChapInput (drop 4 (success_frame demo_waiting)) (length (success_frame demo_waiting) - 4)
     (ChapInput (drop 4 (challenge_frame demo_waiting)) (length (challenge_frame demo_waiting) - 4) demo_joe))) = CHAPCS_OPEN"
proof -
  have "find_secret demo_joe (chap_file demo_joe) (resp_name (chap demo_joe)) (chal_name (chap demo_waiting)) True = Some (2, ''x'', [])"
    "find_secret demo_waiting (chap_file demo_waiting) (resp_name (chap demo_joe)) (chal_name (chap demo_waiting)) True = Some (2, ''x'', [])"
    using demo_secrets(2) demo_waiting demo_waiting_configured demo_our_name by (simp_all add: demo_joe_def)
  from chap_handshake[OF demo_waiting_reach _ _ _ _ _ _ _ _ this] show ?thesis
    using demo_waiting demo_waiting_configured demo_opened(2) demo_our_name
    by (simp add: demo_joe_def Let_def good_name_def demo_digest_def CHAP_DIGEST_MD5_def NUL_def)
qed

text \<open>
  C9: a unit that authenticates itself and the peer, and has one secret for its own name on its own name
  (an entry for any client on any server will do), accepts a peer that knows no secret:
  the peer sends our challenge back to us and our answer after that.
\<close>

theorem chap_reflected:
  assumes "unit_reach u" and "\<not> exited (snd (link u))" and "serverstate (chap u) = CHAPSS_INITIAL_CHAL"
    and "chal_type (chap u) = CHAP_DIGEST_MD5" and "resp_type (chap u) = CHAP_DIGEST_MD5"
    and "clientstate (chap u) = CHAPCS_LISTEN" and "chal_name (chap u) = resp_name (chap u)" and "good_name (resp_name (chap u))"
    and "find_secret u (chap_file u) (resp_name (chap u)) (resp_name (chap u)) True = Some (n, secret, addrs)"
    and "\<And>x. length (md5 u x) = 16"
  shows "let u1 = ChapInput (drop 4 (challenge_frame u)) (length (challenge_frame u) - 4) u;
             r = last (wire_out (snd (link u1)));
             u2 = ChapInput (drop 4 r) (length r - 4) u1
         in serverstate (chap u2) = CHAPSS_OPEN"
proof -
  have inv: "chap_inv [] u" using unit_reach_inv[OF assms(1)] assms(2) by blast
  have w: "waits u" using assms(3) by (simp add: waits_def)
  let ?u1 = "ChapInput (drop 4 (challenge_frame u)) (length (challenge_frame u) - 4) u"
  have c: "clientstate (chap u) \<notin> {CHAPCS_CLOSED, CHAPCS_PENDING}" using assms(6) by simp
  have n: "good_name (chal_name (chap u))" using assms(7,8) by simp
  have f: "find_secret u (chap_file u) (resp_name (chap u)) (chal_name (chap u)) True = Some (n, secret, addrs)"
    using assms(7,9) by simp
  have self: "same_server u u" by (simp add: same_server_def)
  note ih = handshake[OF inv w assms(4) n c assms(5,8) f f refl assms(10)]
  have s1: "same_server u ?u1" by (rule ih(3)[OF self])
  then have "waits ?u1" using w by (simp add: same_server_def waits_def)
  then show ?thesis unfolding Let_def ih(1)[OF s1] by (rule accepted_unit(1))
qed

theorem chap_reflected_witness:
  "let u1 = ChapInput (drop 4 (challenge_frame demo_waiting)) (length (challenge_frame demo_waiting) - 4) demo_waiting;
       r = last (wire_out (snd (link u1)))
   in serverstate (chap (ChapInput (drop 4 r) (length r - 4) u1)) = CHAPSS_OPEN"
proof -
  have "find_secret demo_waiting (chap_file demo_waiting) (resp_name (chap demo_waiting)) (resp_name (chap demo_waiting)) True = Some (0, ''y'', [])"
    using demo_secrets(1) demo_waiting demo_waiting_configured demo_our_name by simp
  from chap_reflected[OF demo_waiting_reach _ _ _ _ _ _ _ this] show ?thesis
    using demo_waiting demo_waiting_configured demo_opened(2) demo_our_name
    by (simp add: Let_def good_name_def demo_digest_def CHAP_DIGEST_MD5_def NUL_def)
qed

text \<open>Sending again.\<close>

lemma gen_interval: "chal_interval (chap (ChapGenChallenge u)) = chal_interval (chap u)"
  by (simp add: ChapGenChallenge_def Let_def split: prod.split)

lemma challenge_again:
  assumes "chap_inv ks u" and "waits u" and "chal_transmits (chap u) < max_transmits (chap u)"
  defines "v \<equiv> ChapChallengeTimeout u"
  shows "waits v" "chap_inv [] v" "chal_transmits (chap v) = chal_transmits (chap u) + 1" "max_transmits (chap v) = max_transmits (chap u)"
    "challenge_frame v = challenge_frame u" "wire_out (snd (link v)) = wire_out (snd (link u)) @ [challenge_frame u]"
proof -
  have v: "v = ChapSendChallenge u" using assms(2,3) by (auto simp: v_def ChapChallengeTimeout_def waits_def Let_def)
  show "waits v" "chal_transmits (chap v) = chal_transmits (chap u) + 1" "max_transmits (chap v) = max_transmits (chap u)"
    "challenge_frame v = challenge_frame u"
    using assms(2) by (simp_all add: v waits_def challenge_frame_def challenge_of_def)
  show "chap_inv [] v"
    using assms(1,2) by (auto simp: v chap_inv_def waits_def ChapSendChallenge_def Let_def chap_key_def)
  show "wire_out (snd (link v)) = wire_out (snd (link u)) @ [challenge_frame u]"
    unfolding v by (rule challenge_sent(1)[OF assms(1,2)])
qed

lemma challenge_repeated:
  assumes "chap_inv [] u" and "waits u" and "int n \<le> max_transmits (chap u) - chal_transmits (chap u)"
  defines "v \<equiv> (ChapChallengeTimeout ^^ n) u"
  shows "chap_inv [] v \<and> waits v \<and> chal_transmits (chap v) = chal_transmits (chap u) + int n
    \<and> max_transmits (chap v) = max_transmits (chap u) \<and> challenge_frame v = challenge_frame u
    \<and> wire_out (snd (link v)) = wire_out (snd (link u)) @ replicate n (challenge_frame u)"
  using assms(3) unfolding v_def
proof (induction n)
  case (Suc n)
  let ?w = "(ChapChallengeTimeout ^^ n) u"
  have ih: "chap_inv [] ?w" "waits ?w" "chal_transmits (chap ?w) = chal_transmits (chap u) + int n"
    "max_transmits (chap ?w) = max_transmits (chap u)" "challenge_frame ?w = challenge_frame u"
    "wire_out (snd (link ?w)) = wire_out (snd (link u)) @ replicate n (challenge_frame u)"
    using Suc by simp_all
  have "chal_transmits (chap ?w) < max_transmits (chap ?w)" using Suc.prems ih(3,4) by simp
  from challenge_again[OF ih(1,2) this] ih show ?case by (simp add: replicate_append_same[symmetric])
qed (use assms(1,2) in simp)

text \<open>
  C8: without an answer a challenge is sent again until it has been sent \<open>max_transmits\<close> times; the timeout after
  that reports the failure, which takes the link down. Every repetition is the same packet.
\<close>

theorem chap_gives_up:
  assumes "unit_reach u" and "\<not> exited (snd (link u))" and "serverstate (chap u) \<in> {CHAPSS_INITIAL_CHAL, CHAPSS_RECHALLENGE}"
    and "max_transmits (chap u) = chal_transmits (chap u) + int n"
  shows "let v = (ChapChallengeTimeout ^^ n) u
         in wire_out (snd (link v)) = wire_out (snd (link u)) @ replicate n (challenge_frame u)
            \<and> serverstate (chap v) \<in> {CHAPSS_INITIAL_CHAL, CHAPSS_RECHALLENGE}
            \<and> ChapChallengeTimeout v = peer_fail (on_chap (\<lambda>c. c\<lparr>serverstate := CHAPSS_BADAUTH\<rparr>) v)
            \<and> serverstate (chap (ChapChallengeTimeout v)) \<noteq> CHAPSS_OPEN"
proof -
  let ?v = "(ChapChallengeTimeout ^^ n) u"
  have inv: "chap_inv [] u" using unit_reach_inv[OF assms(1)] assms(2) by blast
  have w: "waits u" using assms(3) by (simp add: waits_def)
  have v: "waits ?v" "chal_transmits (chap ?v) = max_transmits (chap ?v)"
    "wire_out (snd (link ?v)) = wire_out (snd (link u)) @ replicate n (challenge_frame u)"
    using challenge_repeated[OF inv w, of n] assms(4) by simp_all
  have fail: "ChapChallengeTimeout ?v = peer_fail (on_chap (\<lambda>c. c\<lparr>serverstate := CHAPSS_BADAUTH\<rparr>) ?v)"
    using v(1,2) by (auto simp: ChapChallengeTimeout_def waits_def Let_def)
  have "shut (peer_fail (on_chap (\<lambda>c. c\<lparr>serverstate := CHAPSS_BADAUTH\<rparr>) ?v))"
    by (rule shut.keep_results) (simp add: shut_def)
  then show ?thesis using v fail by (simp add: Let_def shut_def waits_def)
qed

theorem chap_gives_up_witness:
  "wire_out (snd (link ((ChapChallengeTimeout ^^ 3) demo_waiting))) =
     wire_out (snd (link demo_waiting)) @ replicate 3 (challenge_frame demo_waiting)"
  using chap_gives_up[OF demo_waiting_reach, of 3] demo_waiting demo_waiting_configured demo_opened(2)
  by (simp add: Let_def)

text \<open>
  While periodic challenges are configured, each one that is answered adds two expiries of the timer that
  starts them: one is set with the challenge, one with its answer. Since an expiry is used up to
  send a challenge, the number of timers pending grows with every exchange.
\<close>

theorem chap_rechallenge_doubles:
  assumes "serverstate (chap u) = CHAPSS_OPEN" and "chal_interval (chap u) \<noteq> 0"
    and "serverstate (chap (ChapReceiveResponse inp i len (ChapRechallenge u))) = CHAPSS_OPEN"
  shows "pending_count Chap_rechallenge_timer (callout_list (snd (link (ChapReceiveResponse inp i len (ChapRechallenge u))))) =
    pending_count Chap_rechallenge_timer (callout_list (snd (link u))) + 2"
proof -
  let ?s = "ChapRechallenge u"
  have pend: "chap_pending (snd (link ?s)) Chap_rechallenge_timer = chap_pending (snd (link u)) Chap_rechallenge_timer + 1"
    and s: "serverstate (chap ?s) = CHAPSS_RECHALLENGE" "chal_interval (chap ?s) = chal_interval (chap u)"
    using assms(1,2) gen_challenge(4)[of u]
    by (simp_all add: ChapRechallenge_def ChapSendChallenge_def Let_def chap_key_def gen_interval)
  obtain remmd name secret u1 where r: "i = chal_id (chap ?s)" "value_and_name inp len = Some (remmd, name)"
    "get_secret name (chal_name (chap ?s)) True (chap_untimeout Chap_challenge_timer ?s) = (secret, u1)"
    "response_ok u1 remmd secret"
    by (rule response_opens[OF _ assms(3)]) (simp_all add: s)
  have u1: "chap u1 = chap ?s" "chap_pending (snd (link u1)) Chap_rechallenge_timer = chap_pending (snd (link ?s)) Chap_rechallenge_timer"
    using get_secret_unit(1,5)[OF r(3)] chap_pending_cong[of "snd (link u1)" "snd (link (chap_untimeout Chap_challenge_timer ?s))"]
    by simp_all
  have "ChapReceiveResponse inp i len ?s = chap_timeout Chap_rechallenge_timer (chal_interval (chap u))
      (on_chap (\<lambda>c. c\<lparr>serverstate := CHAPSS_OPEN\<rparr>) (ChapSendStatus CHAP_SUCCESS u1))"
    using assms(2) by (simp add: ChapReceiveResponse_def s r u1 Let_def)
  then have "chap_pending (snd (link (ChapReceiveResponse inp i len ?s))) Chap_rechallenge_timer =
      chap_pending (snd (link u)) Chap_rechallenge_timer + 2"
    by (simp add: ChapSendStatus_def Let_def u1 pend chap_key_def)
  then show ?thesis by (simp add: chap_pending_def chap_key_def)
qed

text \<open>The right answer of \<^verbatim>\<open>joe\<close> to a challenge.\<close>

definition joes_answer :: "chap_unit \<Rightarrow> u8 list" where
  "joes_answer s = chap_value (demo_digest (chal_id (chap s) # bytes ''x'' @ challenge_of s)) ''joe''"

definition demo_open :: chap_unit where
  "demo_open = on_chap (\<lambda>c. c\<lparr>serverstate := CHAPSS_OPEN, chal_interval := 60\<rparr>) demo_challenger"

theorem chap_rechallenge_doubles_witness:
  "let s = ChapRechallenge demo_open
   in pending_count Chap_rechallenge_timer (callout_list (snd (link (ChapReceiveResponse (joes_answer s) (chal_id (chap s)) 20 s)))) = 2"
proof -
  let ?s = "ChapRechallenge demo_open"
  have o: "serverstate (chap demo_open) = CHAPSS_OPEN" "chal_interval (chap demo_open) \<noteq> 0" "chal_type (chap demo_open) = CHAP_DIGEST_MD5"
    "pending_count Chap_rechallenge_timer (callout_list (snd (link demo_open))) = 0"
    "find_secret demo_open (chap_file demo_open) ''joe'' (chal_name (chap demo_open)) True = Some (2, ''x'', [])" by code_simp+
  have md5: "md5 demo_open = demo_digest"
    by (simp add: demo_open_def demo_challenger_def demo_chap_def ChapInit_def chap_unit.defs auth_unit.defs)
  have s: "waits ?s" "chal_type (chap ?s) = CHAP_DIGEST_MD5" "md5 ?s = demo_digest" "chap_file ?s = chap_file demo_open"
    "chal_name (chap ?s) = chal_name (chap demo_open)" "find_secret ?s = find_secret demo_open"
    using o md5 by (simp_all add: ChapRechallenge_def ChapSendChallenge_def ChapGenChallenge_def waits_def Let_def split: prod.split)
  have "ChapReceiveResponse (joes_answer ?s) (chal_id (chap ?s)) (17 + length ''joe'') ?s = accepted ?s []"
    unfolding joes_answer_def
  proof (rule server_accepts[OF s(1,2)])
    show "find_secret ?s (chap_file ?s) ''joe'' (chal_name (chap ?s)) True = Some (2, ''x'', [])" using o s by simp
    have "take MAXSECRETLEN ''x'' = ''x''" by code_simp
    then show "demo_digest (chal_id (chap ?s) # bytes ''x'' @ challenge_of ?s) = md5 ?s (chal_id (chap ?s) # bytes (take MAXSECRETLEN ''x'')
        @ take (unat (chal_len (chap ?s))) (challenge (chap ?s)))" using s by (simp add: challenge_of_def)
  qed (simp_all add: good_name_def NUL_def demo_digest_def)
  then have "serverstate (chap (ChapReceiveResponse (joes_answer ?s) (chal_id (chap ?s)) 20 ?s)) = CHAPSS_OPEN"
    using accepted_unit(1)[OF s(1)] by simp
  then show ?thesis using chap_rechallenge_doubles[OF o(1,2)] o(4) by (simp add: Let_def)
qed

end
