(* ===== verification/Usb_Queue.thy ===== *)
theory Usb_Queue
  imports Prelude
begin

text \<open>
  The message queue of the USB stack (\<^verbatim>\<open>usbQueueLib.c\<close>): a ring of messages guarded by two
  counting semaphores and a mutex. The calls are modelled twice: as whole functions, for a
  single caller, and as the sequence of steps between which the kernel may switch tasks, for
  the interleavings of any number of callers. \<open>call_steps\<close> lemmas tie the two together.

  The semaphores and the mutex are the kernel's (\<^verbatim>\<open>ossLib.c\<close> passes the calls to \<^verbatim>\<open>semLib\<close>,
  which is not part of the sources): they are the record \<open>kernel\<close>, a parameter of every
  operation, and \<open>kernel_ok\<close> is what the documentation of \<^verbatim>\<open>ossSemTake\<close>, \<^verbatim>\<open>ossSemGive\<close>,
  \<^verbatim>\<open>ossMutexTake\<close> and \<^verbatim>\<open>ossMutexRelease\<close> says of them.
\<close>

section \<open>State\<close>

datatype q_status =
    Q_OK
  | S_usbQueueLib_BAD_PARAMETER
  | S_usbQueueLib_OUT_OF_MEMORY
  | S_usbQueueLib_OUT_OF_RESOURCES
  | S_usbQueueLib_BAD_HANDLE
  | S_usbQueueLib_Q_NOT_AVAILABLE

record usb_message =
  msg :: u16
  wParam :: u16
  lParam :: u32

text \<open>\<^verbatim>\<open>USB_QUEUE\<close>; a \<^verbatim>\<open>NULL\<close> semaphore or mutex handle is \<open>None\<close>.\<close>

record ('s, 'm) usb_queue =
  q_max :: u16
  q_in :: u16
  q_out :: u16
  inUse :: "'s option"
  empty :: "'s option"
  q_mutex :: "'m option"
  messages :: "usb_message list"

text \<open>What a take does: it succeeds, it reports an error, or the caller has to wait.\<close>

datatype 'a taken = Taken 'a | Refused | Blocked

record ('s, 'm) kernel =
  calloc :: "nat \<Rightarrow> bool"
  semCCreate :: "u16 \<Rightarrow> 's option"
  semMCreate :: "'m option"
  semTake :: "u32 \<Rightarrow> 's \<Rightarrow> 's taken"
  semGive :: "'s \<Rightarrow> 's"
  mutexTake :: "nat \<Rightarrow> 'm \<Rightarrow> 'm taken"
  mutexRelease :: "nat \<Rightarrow> 'm \<Rightarrow> 'm"

definition zero_msg :: usb_message where
  "zero_msg = \<lparr>msg = 0, wParam = 0, lParam = 0\<rparr>"

section \<open>Creation and destruction\<close>

datatype oss_call = SemDestroy_inUse | SemDestroy_empty | SemDestroy_mutex | Free

definition usbQueueDestroy :: "('s, 'm) usb_queue option \<Rightarrow> q_status \<times> oss_call list" where
  "usbQueueDestroy pQueue =
     (case pQueue of None \<Rightarrow> (S_usbQueueLib_BAD_HANDLE, [])
      | Some q \<Rightarrow> (Q_OK,
          (if inUse q \<noteq> None then [SemDestroy_inUse] else [])
          @ (if empty q \<noteq> None then [SemDestroy_empty] else [])
          @ (if q_mutex q \<noteq> None then [SemDestroy_mutex] else [])
          @ [Free]))"

text \<open>
  \<^verbatim>\<open>len\<close> is a \<^verbatim>\<open>UINT16\<close>; \<^verbatim>\<open>sizeof (*pQueue)\<close> is 28 and \<^verbatim>\<open>sizeof (USB_MESSAGE)\<close> 8 on the 32-bit
  targets, with the messages from offset 20 on. \<open>queue_slots\<close> is the number of messages that
  lie inside the block.
\<close>

definition queue_len :: "u16 \<Rightarrow> u16" where
  "queue_len depth = 28 + 8 * (depth - 1)"

definition queue_slots :: "u16 \<Rightarrow> nat" where
  "queue_slots depth = (unat (queue_len depth) - 20) div 8"

definition usbQueueCreate :: "('s, 'm) kernel \<Rightarrow> bool \<Rightarrow> u16 \<Rightarrow> q_status \<times> ('s, 'm) usb_queue option \<times> oss_call list" where
  "usbQueueCreate k pQueueHandle_null depth =
     (if depth < 1 \<or> pQueueHandle_null then (S_usbQueueLib_BAD_PARAMETER, None, [])
      else if \<not> calloc k (unat (queue_len depth)) then (S_usbQueueLib_OUT_OF_MEMORY, None, [])
      else
        let q0 = \<lparr>q_max = depth, q_in = 0, q_out = 0, inUse = None, empty = None, q_mutex = None,
                  messages = replicate (queue_slots depth) zero_msg\<rparr>;
            q1 = q0\<lparr>inUse := semCCreate k 0\<rparr>;
            q2 = (if inUse q1 = None then q1 else q1\<lparr>empty := semCCreate k depth\<rparr>);
            q3 = (if empty q2 = None then q2 else q2\<lparr>q_mutex := semMCreate k\<rparr>)
        in if inUse q3 = None \<or> empty q3 = None \<or> q_mutex q3 = None
           then (S_usbQueueLib_OUT_OF_RESOURCES, None, snd (usbQueueDestroy (Some q3)))
           else (Q_OK, Some q3, []))"

section \<open>The calls, whole\<close>

text \<open>The accesses to the ring, with the mutex held.\<close>

definition advance_index :: "u16 \<Rightarrow> u16 \<Rightarrow> u16" where
  "advance_index mx i = (if i + 1 = mx then 0 else i + 1)"

definition store_message :: "usb_message \<Rightarrow> ('s, 'm) usb_queue \<Rightarrow> ('s, 'm) usb_queue" where
  "store_message x q = q\<lparr>messages := (messages q)[unat (q_in q) := x]\<rparr>"

definition advance_in :: "('s, 'm) usb_queue \<Rightarrow> ('s, 'm) usb_queue" where
  "advance_in q = q\<lparr>q_in := advance_index (q_max q) (q_in q)\<rparr>"

definition advance_out :: "('s, 'm) usb_queue \<Rightarrow> ('s, 'm) usb_queue" where
  "advance_out q = q\<lparr>q_out := advance_index (q_max q) (q_out q)\<rparr>"

definition give_inUse :: "('s, 'm) kernel \<Rightarrow> ('s, 'm) usb_queue \<Rightarrow> ('s, 'm) usb_queue" where
  "give_inUse k q = q\<lparr>inUse := map_option (semGive k) (inUse q)\<rparr>"

definition give_empty :: "('s, 'm) kernel \<Rightarrow> ('s, 'm) usb_queue \<Rightarrow> ('s, 'm) usb_queue" where
  "give_empty k q = q\<lparr>empty := map_option (semGive k) (empty q)\<rparr>"

definition release_mutex :: "('s, 'm) kernel \<Rightarrow> nat \<Rightarrow> ('s, 'm) usb_queue \<Rightarrow> ('s, 'm) usb_queue" where
  "release_mutex k t q = q\<lparr>q_mutex := map_option (mutexRelease k t) (q_mutex q)\<rparr>"

text \<open>
  \<open>usbQueuePut\<close> and \<open>usbQueueGet\<close> called by task \<open>t\<close> with nobody else using the queue:
  \<open>None\<close> when the call waits.
\<close>

definition usbQueuePut :: "('s, 'm) kernel \<Rightarrow> nat \<Rightarrow> ('s, 'm) usb_queue option \<Rightarrow> usb_message \<Rightarrow> u32
    \<Rightarrow> (q_status \<times> ('s, 'm) usb_queue option) option" where
  "usbQueuePut k t pQueue x blockFlag =
     (case pQueue of None \<Rightarrow> Some (S_usbQueueLib_BAD_HANDLE, None)
      | Some q \<Rightarrow>
        (case semTake k blockFlag (the (empty q)) of
           Blocked \<Rightarrow> None
         | Refused \<Rightarrow> Some (S_usbQueueLib_Q_NOT_AVAILABLE, Some q)
         | Taken e \<Rightarrow>
             let q1 = q\<lparr>empty := Some e\<rparr>
             in (case mutexTake k t (the (q_mutex q1)) of
                   Blocked \<Rightarrow> None
                 | Refused \<Rightarrow> Some (S_usbQueueLib_Q_NOT_AVAILABLE, Some q1)
                 | Taken m \<Rightarrow>
                     Some (Q_OK, Some (release_mutex k t (give_inUse k (advance_in (store_message x
                       (q1\<lparr>q_mutex := Some m\<rparr>)))))))))"

definition usbQueueGet :: "('s, 'm) kernel \<Rightarrow> nat \<Rightarrow> ('s, 'm) usb_queue option \<Rightarrow> bool \<Rightarrow> u32
    \<Rightarrow> (q_status \<times> usb_message option \<times> ('s, 'm) usb_queue option) option" where
  "usbQueueGet k t pQueue pMsg_null blockFlag =
     (case pQueue of None \<Rightarrow> Some (S_usbQueueLib_BAD_HANDLE, None, None)
      | Some q \<Rightarrow>
        if pMsg_null then Some (S_usbQueueLib_BAD_PARAMETER, None, Some q)
        else
        (case semTake k blockFlag (the (inUse q)) of
           Blocked \<Rightarrow> None
         | Refused \<Rightarrow> Some (S_usbQueueLib_Q_NOT_AVAILABLE, None, Some q)
         | Taken u \<Rightarrow>
             let q1 = q\<lparr>inUse := Some u\<rparr>
             in (case mutexTake k t (the (q_mutex q1)) of
                   Blocked \<Rightarrow> None
                 | Refused \<Rightarrow> Some (S_usbQueueLib_Q_NOT_AVAILABLE, None, Some q1)
                 | Taken m \<Rightarrow>
                     Some (Q_OK, Some (messages q1 ! unat (q_out q1)),
                       Some (release_mutex k t (give_empty k (advance_out (q1\<lparr>q_mutex := Some m\<rparr>))))))))"

section \<open>The calls, step by step\<close>

text \<open>Where a task is inside \<open>usbQueuePut\<close> or \<open>usbQueueGet\<close> on a queue that exists.\<close>

datatype task =
    PutTake usb_message u32
  | PutLock usb_message
  | PutStore usb_message
  | PutAdvance usb_message
  | PutGive
  | PutRelease
  | GetTake u32
  | GetLock
  | GetCopy
  | GetAdvance usb_message
  | GetGive usb_message
  | GetRelease usb_message
  | Returned q_status "usb_message option"

fun task_step :: "('s, 'm) kernel \<Rightarrow> nat \<Rightarrow> task \<Rightarrow> ('s, 'm) usb_queue \<Rightarrow> (task \<times> ('s, 'm) usb_queue) option" where
  "task_step k t (PutTake x f) q =
     (case semTake k f (the (empty q)) of Taken e \<Rightarrow> Some (PutLock x, q\<lparr>empty := Some e\<rparr>)
      | Refused \<Rightarrow> Some (Returned S_usbQueueLib_Q_NOT_AVAILABLE None, q) | Blocked \<Rightarrow> None)"
| "task_step k t (PutLock x) q =
     (case mutexTake k t (the (q_mutex q)) of Taken m \<Rightarrow> Some (PutStore x, q\<lparr>q_mutex := Some m\<rparr>)
      | Refused \<Rightarrow> Some (Returned S_usbQueueLib_Q_NOT_AVAILABLE None, q) | Blocked \<Rightarrow> None)"
| "task_step k t (PutStore x) q = Some (PutAdvance x, store_message x q)"
| "task_step k t (PutAdvance x) q = Some (PutGive, advance_in q)"
| "task_step k t PutGive q = Some (PutRelease, give_inUse k q)"
| "task_step k t PutRelease q = Some (Returned Q_OK None, release_mutex k t q)"
| "task_step k t (GetTake f) q =
     (case semTake k f (the (inUse q)) of Taken u \<Rightarrow> Some (GetLock, q\<lparr>inUse := Some u\<rparr>)
      | Refused \<Rightarrow> Some (Returned S_usbQueueLib_Q_NOT_AVAILABLE None, q) | Blocked \<Rightarrow> None)"
| "task_step k t GetLock q =
     (case mutexTake k t (the (q_mutex q)) of Taken m \<Rightarrow> Some (GetCopy, q\<lparr>q_mutex := Some m\<rparr>)
      | Refused \<Rightarrow> Some (Returned S_usbQueueLib_Q_NOT_AVAILABLE None, q) | Blocked \<Rightarrow> None)"
| "task_step k t GetCopy q = Some (GetAdvance (messages q ! unat (q_out q)), q)"
| "task_step k t (GetAdvance x) q = Some (GetGive x, advance_out q)"
| "task_step k t (GetGive x) q = Some (GetRelease x, give_empty k q)"
| "task_step k t (GetRelease x) q = Some (Returned Q_OK (Some x), release_mutex k t q)"
| "task_step k t (Returned st r) q = None"

text \<open>
  A system of tasks on one queue, with the history of the messages put and taken in the order
  of the critical sections.
\<close>

record ('s, 'm) q_system =
  queue :: "('s, 'm) usb_queue"
  tasks :: "task list"
  puts :: "usb_message list"
  gets :: "usb_message list"

definition put_of :: "task \<Rightarrow> usb_message list" where
  "put_of c = (case c of PutAdvance x \<Rightarrow> [x] | _ \<Rightarrow> [])"

definition get_of :: "task \<Rightarrow> usb_message list" where
  "get_of c = (case c of GetAdvance x \<Rightarrow> [x] | _ \<Rightarrow> [])"

inductive q_reach :: "('s, 'm) kernel \<Rightarrow> ('s, 'm) q_system \<Rightarrow> ('s, 'm) q_system \<Rightarrow> bool" for k s0 where
  q_start: "q_reach k s0 s0"
| q_step: "q_reach k s0 s \<Longrightarrow> t < length (tasks s) \<Longrightarrow> task_step k t (tasks s ! t) (queue s) = Some (c, q) \<Longrightarrow>
    q_reach k s0 (s\<lparr>queue := q, tasks := (tasks s)[t := c], puts := puts s @ put_of (tasks s ! t),
      gets := gets s @ get_of (tasks s ! t)\<rparr>)"

section \<open>The invariant\<close>

text \<open>
  What the kernel promises, with \<open>count\<close> the value of a semaphore and \<open>owner\<close> the task that
  holds a mutex: a take that succeeds found the semaphore above zero and lowered it, a give
  raises it by at most one (not at all at the maximum), and a mutex is taken only when no
  other task holds it.
\<close>

definition kernel_ok :: "('s, 'm) kernel \<Rightarrow> ('s \<Rightarrow> nat) \<Rightarrow> ('m \<Rightarrow> nat option) \<Rightarrow> bool" where
  "kernel_ok k count owner \<longleftrightarrow>
     (\<forall>f s s'. semTake k f s = Taken s' \<longrightarrow> count s = Suc (count s'))
     \<and> (\<forall>s. count (semGive k s) \<le> Suc (count s))
     \<and> (\<forall>n s. semCCreate k n = Some s \<longrightarrow> count s = unat n)
     \<and> (\<forall>t m m'. mutexTake k t m = Taken m' \<longrightarrow> (owner m = None \<or> owner m = Some t) \<and> owner m' = Some t)"

text \<open>The messages in the ring, oldest first.\<close>

definition contents :: "('s, 'm) usb_queue \<Rightarrow> nat \<Rightarrow> usb_message list" where
  "contents q n = map (\<lambda>j. messages q ! ((unat (q_out q) + j) mod unat (q_max q))) [0..<n]"

definition ring_inv :: "('s, 'm) usb_queue \<Rightarrow> nat \<Rightarrow> bool" where
  "ring_inv q n \<longleftrightarrow> length (messages q) = unat (q_max q) \<and> unat (q_out q) < unat (q_max q)
     \<and> unat (q_in q) = (unat (q_out q) + n) mod unat (q_max q)"

text \<open>The messages and the slots that a task has reserved with a semaphore and not yet accounted for.\<close>

fun owes_inUse :: "task \<Rightarrow> nat" where
  "owes_inUse PutGive = 1" | "owes_inUse GetLock = 1" | "owes_inUse GetCopy = 1"
| "owes_inUse (GetAdvance x) = 1" | "owes_inUse c = 0"

fun owes_empty :: "task \<Rightarrow> nat" where
  "owes_empty (PutLock x) = 1" | "owes_empty (PutStore x) = 1" | "owes_empty (PutAdvance x) = 1"
| "owes_empty (GetGive x) = 1" | "owes_empty c = 0"

fun critical :: "task \<Rightarrow> bool" where
  "critical (PutStore x) = True" | "critical (PutAdvance x) = True" | "critical PutGive = True"
| "critical PutRelease = True" | "critical GetCopy = True" | "critical (GetAdvance x) = True"
| "critical (GetGive x) = True" | "critical (GetRelease x) = True" | "critical c = False"

fun slot_ok :: "('s, 'm) usb_queue \<Rightarrow> task \<Rightarrow> bool" where
  "slot_ok q (PutAdvance x) \<longleftrightarrow> messages q ! unat (q_in q) = x"
| "slot_ok q (GetAdvance x) \<longleftrightarrow> messages q ! unat (q_out q) = x"
| "slot_ok q c \<longleftrightarrow> True"

definition sem_inv :: "('s \<Rightarrow> nat) \<Rightarrow> ('s, 'm) usb_queue \<Rightarrow> task list \<Rightarrow> nat \<Rightarrow> bool" where
  "sem_inv count q ts n \<longleftrightarrow> inUse q \<noteq> None \<and> empty q \<noteq> None
     \<and> count (the (inUse q)) + sum_list (map owes_inUse ts) \<le> n
     \<and> n + count (the (empty q)) + sum_list (map owes_empty ts) \<le> unat (q_max q)"

definition lock_inv :: "('m \<Rightarrow> nat option) \<Rightarrow> ('s, 'm) usb_queue \<Rightarrow> task list \<Rightarrow> bool" where
  "lock_inv owner q ts \<longleftrightarrow> q_mutex q \<noteq> None
     \<and> (\<forall>i < length ts. critical (ts ! i) \<longrightarrow> owner (the (q_mutex q)) = Some i)"

definition q_inv :: "('s \<Rightarrow> nat) \<Rightarrow> ('m \<Rightarrow> nat option) \<Rightarrow> ('s, 'm) q_system \<Rightarrow> nat \<Rightarrow> bool" where
  "q_inv count owner s n \<longleftrightarrow> puts s = gets s @ contents (queue s) n \<and> ring_inv (queue s) n
     \<and> sem_inv count (queue s) (tasks s) n \<and> lock_inv owner (queue s) (tasks s)
     \<and> (\<forall>i < length (tasks s). slot_ok (queue s) (tasks s ! i))"

lemma sum_list_map_update:
  fixes f :: "'a \<Rightarrow> nat"
  shows "i < length ts \<Longrightarrow> sum_list (map f (ts[i := c])) + f (ts ! i) = sum_list (map f ts) + f c"
  by (induction ts arbitrary: i) (auto simp: nth_Cons split: nat.splits)

lemma owes_le_sum:
  fixes f :: "'a \<Rightarrow> nat"
  shows "i < length ts \<Longrightarrow> f (ts ! i) \<le> sum_list (map f ts)"
  by (rule member_le_sum_list) simp_all

lemma advance_index_mod:
  assumes "unat i < unat mx"
  shows "unat (advance_index mx i) = Suc (unat i) mod unat mx"
proof -
  have "unat mx < 2 ^ LENGTH(16)" by (rule unsigned_less)
  then have u: "unat (i + 1) = Suc (unat i)"
    using assms by (simp add: unat_word_ariths take_bit_nat_eq_self)
  show ?thesis
  proof (cases "i + 1 = mx")
    case True
    then show ?thesis using u by (auto simp: advance_index_def)
  next
    case False
    then have "Suc (unat i) \<noteq> unat mx" using u by (metis unsigned_word_eqI)
    then show ?thesis using False assms u by (simp add: advance_index_def)
  qed
qed

text \<open>The three accesses to the ring.\<close>

lemma contents_snoc:
  "contents q (Suc n) = contents q n @ [messages q ! ((unat (q_out q) + n) mod unat (q_max q))]"
  by (simp add: contents_def)

lemma ring_store:
  assumes "ring_inv q n" and "n < unat (q_max q)"
  shows "ring_inv (store_message x q) n" and "contents (store_message x q) n = contents q n"
    and "messages (store_message x q) ! unat (q_in q) = x"
proof -
  let ?m = "unat (q_max q)" and ?o = "unat (q_out q)"
  have ne: "(?o + n) mod ?m \<noteq> (?o + j) mod ?m" if "j < n" for j
  proof
    assume "(?o + n) mod ?m = (?o + j) mod ?m"
    then have "?m dvd n - j" using mod_eq_dvd_iff_nat[of "?o + j" "?o + n" ?m] that by simp
    then show False using that assms(2) nat_dvd_not_less[of "n - j" ?m] by simp
  qed
  show "contents (store_message x q) n = contents q n"
    using assms by (simp add: contents_def store_message_def ring_inv_def ne)
qed (use assms in \<open>auto simp: ring_inv_def store_message_def\<close>)

lemma ring_advance_in:
  assumes "ring_inv q n"
  shows "ring_inv (advance_in q) (Suc n)"
    and "contents (advance_in q) (Suc n) = contents q n @ [messages q ! unat (q_in q)]"
proof -
  have "unat (q_in q) < unat (q_max q)" using assms by (simp add: ring_inv_def)
  from advance_index_mod[OF this] show "ring_inv (advance_in q) (Suc n)"
    using assms by (simp add: ring_inv_def advance_in_def mod_Suc_eq)
  show "contents (advance_in q) (Suc n) = contents q n @ [messages q ! unat (q_in q)]"
    using assms by (simp add: contents_def advance_in_def ring_inv_def)
qed

lemma ring_advance_out:
  assumes "ring_inv q (Suc n)"
  shows "ring_inv (advance_out q) n"
    and "contents q (Suc n) = messages q ! unat (q_out q) # contents (advance_out q) n"
proof -
  have o: "unat (q_out q) < unat (q_max q)" using assms by (simp add: ring_inv_def)
  note a = advance_index_mod[OF o]
  show "ring_inv (advance_out q) n"
    using assms o a by (simp add: ring_inv_def advance_out_def mod_add_left_eq)
  show "contents q (Suc n) = messages q ! unat (q_out q) # contents (advance_out q) n"
    using o a by (simp add: contents_def advance_out_def upt_conv_Cons map_Suc_upt[symmetric] mod_add_left_eq del: upt_Suc)
qed

lemmas ring_defs = store_message_def advance_in_def advance_out_def give_inUse_def give_empty_def release_mutex_def

lemma slot_ok_idle: "\<not> critical c \<Longrightarrow> slot_ok q c"
  by (cases c) simp_all

text \<open>Only one task is inside the critical section, and only that task touches the ring.\<close>

lemma lock_step:
  assumes ok: "kernel_ok k count owner" and inv: "lock_inv owner q ts" and t: "t < length ts"
    and st: "task_step k t (ts ! t) q = Some (c, q')"
  shows "lock_inv owner q' (ts[t := c])"
proof -
  obtain m where m: "q_mutex q = Some m" "\<And>i. i < length ts \<Longrightarrow> critical (ts ! i) \<Longrightarrow> owner m = Some i"
    using inv by (auto simp: lock_inv_def)
  have lone: "\<not> critical (ts ! i)" if "critical (ts ! t)" "i < length ts" "i \<noteq> t" for i
    using m(2)[of i] m(2)[of t] that t by auto
  have keep: "lock_inv owner q' (ts[t := c])" if "q_mutex q' = Some m" "critical c \<longrightarrow> critical (ts ! t)"
    using that m t by (auto simp: lock_inv_def nth_list_update)
  have enter: "lock_inv owner q' (ts[t := c])" if "mutexTake k t m = Taken m'" "q_mutex q' = Some m'" for m'
  proof -
    have o: "owner m = None \<or> owner m = Some t" "owner m' = Some t" using ok that(1) by (auto simp: kernel_ok_def)
    then have "i = t" if "i < length ts" "critical (ts ! i)" for i using m(2)[OF that] by auto
    then show ?thesis using that o(2) t by (auto simp: lock_inv_def nth_list_update split: if_splits)
  qed
  have leave: "lock_inv owner q' (ts[t := c])" if "critical (ts ! t)" "\<not> critical c" "q_mutex q' \<noteq> None"
    using that lone t by (auto simp: lock_inv_def nth_list_update)
  show ?thesis
  proof (cases "ts ! t")
    case (PutLock x)
    then show ?thesis using st m(1) enter keep by (auto split: taken.splits)
  next
    case GetLock
    then show ?thesis using st m(1) enter keep by (auto split: taken.splits)
  next
    case PutRelease
    then show ?thesis using st m(1) leave by (auto simp: release_mutex_def)
  next
    case (GetRelease x)
    then show ?thesis using st m(1) leave by (auto simp: release_mutex_def)
  qed (use st m(1) keep in \<open>auto simp: ring_defs split: taken.splits\<close>)
qed

definition held :: "nat \<Rightarrow> task \<Rightarrow> nat" where
  "held n c = n + length (put_of c) - length (get_of c)"

lemma sem_step:
  assumes ok: "kernel_ok k count owner" and inv: "sem_inv count q ts n" and t: "t < length ts"
    and st: "task_step k t (ts ! t) q = Some (c, q')"
  shows "sem_inv count q' (ts[t := c]) (held n (ts ! t))"
proof -
  obtain u e where ue: "inUse q = Some u" "empty q = Some e"
    and b: "count u + sum_list (map owes_inUse ts) \<le> n"
      "n + count e + sum_list (map owes_empty ts) \<le> unat (q_max q)"
    using inv by (auto simp: sem_inv_def)
  note su = sum_list_map_update[OF t, of owes_inUse c] and se = sum_list_map_update[OF t, of owes_empty c]
  note lu = owes_le_sum[OF t, of owes_inUse] and le = owes_le_sum[OF t, of owes_empty]
  have take: "count x = Suc (count x')" if "semTake k f x = Taken x'" for f x x'
    using ok that by (auto simp: kernel_ok_def)
  have give: "count (semGive k x) \<le> Suc (count x)" for x using ok by (simp add: kernel_ok_def)
  show ?thesis
  proof (cases "ts ! t")
    case (PutTake x f)
    then show ?thesis using st ue b su se take[of f e]
      by (auto simp: sem_inv_def held_def put_of_def get_of_def split: taken.splits)
  next
    case (GetTake f)
    then show ?thesis using st ue b su se take[of f u]
      by (auto simp: sem_inv_def held_def put_of_def get_of_def split: taken.splits)
  next
    case PutGive
    then show ?thesis using st ue b su se give[of u]
      by (auto simp: sem_inv_def held_def put_of_def get_of_def ring_defs)
  next
    case (GetGive x)
    then show ?thesis using st ue b su se give[of e]
      by (auto simp: sem_inv_def held_def put_of_def get_of_def ring_defs)
  qed (use st ue b su se lu le in \<open>auto simp: sem_inv_def held_def put_of_def get_of_def ring_defs split: taken.splits\<close>)
qed

text \<open>The ring, the history and the pending accesses.\<close>

lemma ring_step:
  assumes ring: "ring_inv q n" and sem: "sem_inv count q ts n" and t: "t < length ts"
    and slot: "slot_ok q (ts ! t)" and st: "task_step k t (ts ! t) q = Some (c, q')"
  shows "ring_inv q' (held n (ts ! t))"
    and "contents q n @ put_of (ts ! t) = get_of (ts ! t) @ contents q' (held n (ts ! t))"
    and "slot_ok q' c"
proof -
  note lu = owes_le_sum[OF t, of owes_inUse] and le = owes_le_sum[OF t, of owes_empty]
  have "ring_inv q' (held n (ts ! t)) \<and> contents q n @ put_of (ts ! t) = get_of (ts ! t) @ contents q' (held n (ts ! t))
      \<and> slot_ok q' c"
  proof (cases "ts ! t")
    case (PutStore x)
    then have "n < unat (q_max q)" using sem le by (auto simp: sem_inv_def)
    from ring_store[OF ring this] show ?thesis
      using PutStore st by (auto simp: held_def put_of_def get_of_def store_message_def)
  next
    case (PutAdvance x)
    then show ?thesis using ring_advance_in[OF ring] slot st by (auto simp: held_def put_of_def get_of_def)
  next
    case (GetAdvance x)
    then have "1 \<le> sum_list (map owes_inUse ts)" using lu by simp
    then have "0 < n" using sem unfolding sem_inv_def by linarith
    then obtain n' where n': "n = Suc n'" using gr0_implies_Suc by blast
    from ring_advance_out[OF ring[unfolded n']] show ?thesis
      using GetAdvance slot st by (auto simp: n' held_def put_of_def get_of_def)
  qed (use st ring in \<open>auto simp: held_def put_of_def get_of_def ring_defs contents_def ring_inv_def split: taken.splits\<close>)
  then show "ring_inv q' (held n (ts ! t))"
    and "contents q n @ put_of (ts ! t) = get_of (ts ! t) @ contents q' (held n (ts ! t))" and "slot_ok q' c"
    by simp_all
qed

lemma idle_ring: "task_step k t c q = Some (c', q') \<Longrightarrow> \<not> critical c \<Longrightarrow>
    messages q' = messages q \<and> q_in q' = q_in q \<and> q_out q' = q_out q"
  by (cases c) (auto split: taken.splits)

lemma slot_step:
  assumes lock: "lock_inv owner q ts" and t: "t < length ts" and i: "i < length ts" "i \<noteq> t"
    and slot: "slot_ok q (ts ! i)" and st: "task_step k t (ts ! t) q = Some (c, q')"
  shows "slot_ok q' (ts ! i)"
proof (cases "critical (ts ! t)")
  case True
  then have "\<not> critical (ts ! i)" using lock t i unfolding lock_inv_def by (metis option.inject)
  then show ?thesis by (rule slot_ok_idle)
next
  case False
  from idle_ring[OF st False] slot show ?thesis by (cases "ts ! i") simp_all
qed

lemma q_inv_step:
  assumes ok: "kernel_ok k count owner" and inv: "q_inv count owner s n" and t: "t < length (tasks s)"
    and st: "task_step k t (tasks s ! t) (queue s) = Some (c, q)"
  shows "q_inv count owner (s\<lparr>queue := q, tasks := (tasks s)[t := c], puts := puts s @ put_of (tasks s ! t),
      gets := gets s @ get_of (tasks s ! t)\<rparr>) (held n (tasks s ! t))"
proof -
  have i: "puts s = gets s @ contents (queue s) n" "ring_inv (queue s) n" "sem_inv count (queue s) (tasks s) n"
    "lock_inv owner (queue s) (tasks s)" "\<And>i. i < length (tasks s) \<Longrightarrow> slot_ok (queue s) (tasks s ! i)"
    using inv by (simp_all add: q_inv_def)
  note r = ring_step[OF i(2,3) t i(5)[OF t] st]
  have "slot_ok q ((tasks s)[t := c] ! j)" if "j < length (tasks s)" for j
    using slot_step[OF i(4) t that _ i(5)[OF that] st] r(3) t by (cases "j = t") simp_all
  then show ?thesis
    using r(1,2) i(1) sem_step[OF ok i(3) t st] lock_step[OF ok i(4) t st] by (simp add: q_inv_def)
qed

lemma q_inv_reach:
  assumes "q_reach k s0 s" and "kernel_ok k count owner" and "q_inv count owner s0 n0"
  shows "\<exists>n. q_inv count owner s n"
  using assms(1)
proof induction
  case q_start
  then show ?case using assms(3) by blast
next
  case (q_step s t c q)
  then show ?case using q_inv_step[OF assms(2)] by blast
qed

lemma q_max_step: "task_step k t c q = Some (c', q') \<Longrightarrow> q_max q' = q_max q"
  by (cases c) (auto simp: ring_defs split: taken.splits)

lemma q_max_reach: "q_reach k s0 s \<Longrightarrow> q_max (queue s) = q_max (queue s0)"
  by (induction rule: q_reach.induct) (auto dest: q_max_step)

text \<open>A queue that has just been created, with all its messages inside the block.\<close>

lemma queue_slots_fit:
  assumes "depth \<noteq> 0" and "unat depth \<le> 8189"
  shows "queue_slots depth = unat depth"
proof -
  have "unat (depth - 1) = unat depth - 1" using assms(1) by (rule unat_minus_one)
  moreover have "0 < unat depth" using assms(1) by (simp add: unat_gt_0)
  ultimately have "unat (queue_len depth) = 20 + 8 * unat depth"
    using assms(2) by (simp add: queue_len_def unat_word_ariths take_bit_nat_eq_self)
  then show ?thesis by (simp add: queue_slots_def)
qed

fun at_entry :: "task \<Rightarrow> bool" where
  "at_entry (PutTake x f) = True" | "at_entry (GetTake f) = True" | "at_entry c = False"

lemma created_inv:
  assumes ok: "kernel_ok k count owner" and cr: "usbQueueCreate k pn depth = (Q_OK, Some q, cs)"
    and fit: "unat depth \<le> 8189" and ts: "\<forall>c \<in> set ts. at_entry c"
  shows "q_inv count owner \<lparr>queue = q, tasks = ts, puts = [], gets = []\<rparr> 0" and "q_max q = depth"
proof -
  have d: "depth \<noteq> 0" using cr by (auto simp: usbQueueCreate_def split: if_splits)
  then have pos: "0 < unat depth" by (simp add: unat_gt_0)
  obtain u e m where q: "semCCreate k 0 = Some u" "semCCreate k depth = Some e"
    "q = \<lparr>q_max = depth, q_in = 0, q_out = 0, inUse = Some u, empty = Some e, q_mutex = Some m,
        messages = replicate (queue_slots depth) zero_msg\<rparr>"
    using cr by (auto simp: usbQueueCreate_def Let_def split: if_splits)
  have c: "count u = 0" "count e = unat depth" using ok q(1,2) by (auto simp: kernel_ok_def)
  have z: "owes_inUse c = 0 \<and> owes_empty c = 0 \<and> \<not> critical c" if "at_entry c" for c
    using that by (cases c) simp_all
  have "sum_list (map owes_inUse ts) = 0" "sum_list (map owes_empty ts) = 0"
    using ts z by simp_all
  moreover have "\<not> critical (ts ! i)" if "i < length ts" for i using that ts z by simp
  ultimately show "q_inv count owner \<lparr>queue = q, tasks = ts, puts = [], gets = []\<rparr> 0"
    using q c pos queue_slots_fit[OF d fit]
    by (simp add: q_inv_def contents_def ring_inv_def sem_inv_def lock_inv_def slot_ok_idle)
  show "q_max q = depth" by (simp add: q(3))
qed

section \<open>The calls and their steps\<close>

text \<open>A call that no other task disturbs is its steps one after the other.\<close>

fun run_task :: "('s, 'm) kernel \<Rightarrow> nat \<Rightarrow> nat \<Rightarrow> task \<Rightarrow> ('s, 'm) usb_queue
    \<Rightarrow> (q_status \<times> usb_message option \<times> ('s, 'm) usb_queue) option" where
  "run_task k t n (Returned st r) q = Some (st, r, q)"
| "run_task k t 0 c q = None"
| "run_task k t (Suc n) c q =
     (case task_step k t c q of None \<Rightarrow> None | Some (c', q') \<Rightarrow> run_task k t n c' q')"

lemma put_call_steps:
  "usbQueuePut k t (Some q) x f = map_option (\<lambda>(st, r, q'). (st, Some q')) (run_task k t 6 (PutTake x f) q)"
  by (auto simp: usbQueuePut_def eval_nat_numeral ring_defs Let_def split: taken.splits)

lemma get_call_steps:
  "usbQueueGet k t (Some q) False f = map_option (\<lambda>(st, r, q'). (st, r, Some q')) (run_task k t 6 (GetTake f) q)"
  by (auto simp: usbQueueGet_def eval_nat_numeral ring_defs Let_def split: taken.splits)

lemma give_release [simp]:
  "ring_inv (release_mutex k t (give_inUse k y)) j = ring_inv y j"
  "contents (release_mutex k t (give_inUse k y)) j = contents y j"
  "ring_inv (release_mutex k t (give_empty k y)) j = ring_inv y j"
  "contents (release_mutex k t (give_empty k y)) j = contents y j"
  by (simp_all add: ring_inv_def contents_def release_mutex_def give_inUse_def give_empty_def)

section \<open>Properties\<close>

text \<open>
  C35: However the kernel interleaves any number of tasks that put and get on a queue created
  with a depth of at most 8189, and whatever takes it refuses or delays, the messages taken,
  in order, are a prefix of the messages put, in order, and at most \<open>depth\<close> messages are in
  between: no message is lost, duplicated, reordered, overwritten or read before it is written.
\<close>

theorem usb_queue_fifo:
  assumes "kernel_ok k count owner"
    and "usbQueueCreate k pn depth = (Q_OK, Some q, cs)" and "unat depth \<le> 8189"
    and "\<forall>c \<in> set ts. at_entry c"
    and "q_reach k \<lparr>queue = q, tasks = ts, puts = [], gets = []\<rparr> s"
  shows "\<exists>rest. puts s = gets s @ rest \<and> length rest \<le> unat depth"
proof -
  obtain n where n: "q_inv count owner s n"
    using q_inv_reach[OF assms(5,1) created_inv(1)[OF assms(1-4)]] by blast
  have "q_max (queue s) = depth"
    using q_max_reach[OF assms(5)] created_inv(2)[OF assms(1-4)] by simp
  with n have "n \<le> unat depth" by (auto simp: q_inv_def sem_inv_def)
  with n show ?thesis by (intro exI[of _ "contents (queue s) n"]) (simp add: q_inv_def contents_def)
qed

text \<open>A kernel whose semaphores are their counts and whose mutexes are their owners.\<close>

definition demo_kernel :: "(nat, nat option) kernel" where
  "demo_kernel = \<lparr>calloc = (\<lambda>n. True), semCCreate = (\<lambda>n. Some (unat n)), semMCreate = Some None,
     semTake = (\<lambda>f s. if 0 < s then Taken (s - 1) else if f = 0 then Refused else Blocked),
     semGive = Suc,
     mutexTake = (\<lambda>t m. if m = None then Taken (Some t) else Blocked),
     mutexRelease = (\<lambda>t m. None)\<rparr>"

lemma demo_kernel_ok: "kernel_ok demo_kernel (\<lambda>s. s) (\<lambda>m. m)"
  by (auto simp: kernel_ok_def demo_kernel_def split: if_splits)

text \<open>The run in which the tasks take their steps as a schedule says.\<close>

fun run_schedule :: "('s, 'm) kernel \<Rightarrow> nat list \<Rightarrow> ('s, 'm) q_system \<Rightarrow> ('s, 'm) q_system option" where
  "run_schedule k [] s = Some s"
| "run_schedule k (t # us) s =
     (if t < length (tasks s) then
        (case task_step k t (tasks s ! t) (queue s) of None \<Rightarrow> None
         | Some (c, q) \<Rightarrow> run_schedule k us (s\<lparr>queue := q, tasks := (tasks s)[t := c],
              puts := puts s @ put_of (tasks s ! t), gets := gets s @ get_of (tasks s ! t)\<rparr>))
      else None)"

lemma run_schedule_reach: "run_schedule k us s = Some s' \<Longrightarrow> q_reach k s0 s \<Longrightarrow> q_reach k s0 s'"
proof (induction k us s rule: run_schedule.induct)
  case (2 k t us s)
  from 2(2) obtain c q where c: "t < length (tasks s)" "task_step k t (tasks s ! t) (queue s) = Some (c, q)"
    "run_schedule k us (s\<lparr>queue := q, tasks := (tasks s)[t := c],
       puts := puts s @ put_of (tasks s ! t), gets := gets s @ get_of (tasks s ! t)\<rparr>) = Some s'"
    by (auto split: if_splits option.splits)
  show ?case using 2(1)[OF c(1,2) refl c(3) q_step[OF 2(3) c(1,2)]] .
qed simp

definition demo_queue :: "(nat, nat option) usb_queue" where
  "demo_queue = \<lparr>q_max = 1, q_in = 0, q_out = 0, inUse = Some 0, empty = Some 1, q_mutex = Some None,
     messages = [zero_msg]\<rparr>"

lemma demo_queue_created: "usbQueueCreate demo_kernel False 1 = (Q_OK, Some demo_queue, [])"
  by (simp add: usbQueueCreate_def demo_kernel_def demo_queue_def Let_def queue_slots_def queue_len_def)

definition demo_tasks :: "task list" where
  "demo_tasks = [PutTake (zero_msg\<lparr>msg := 7\<rparr>) 0, PutTake zero_msg 1, GetTake 1]"

definition demo_end :: "(nat, nat option) q_system" where
  "demo_end = \<lparr>queue = demo_queue\<lparr>messages := [zero_msg\<lparr>msg := 7\<rparr>]\<rparr>,
     tasks = [Returned Q_OK None, PutTake zero_msg 1, Returned Q_OK (Some (zero_msg\<lparr>msg := 7\<rparr>))],
     puts = [zero_msg\<lparr>msg := 7\<rparr>], gets = [zero_msg\<lparr>msg := 7\<rparr>]\<rparr>"

lemma demo_schedule:
  "run_schedule demo_kernel [0, 0, 0, 0, 0, 2, 0, 2, 2, 2, 2, 2]
     \<lparr>queue = demo_queue, tasks = demo_tasks, puts = [], gets = []\<rparr> = Some demo_end"
  by (simp add: demo_tasks_def demo_end_def demo_queue_def demo_kernel_def ring_defs advance_index_def
      put_of_def get_of_def)

theorem usb_queue_fifo_witness:
  "\<exists>rest. puts demo_end = gets demo_end @ rest \<and> length rest \<le> 1"
proof -
  have "\<forall>c \<in> set demo_tasks. at_entry c" by (simp add: demo_tasks_def)
  from usb_queue_fifo[OF demo_kernel_ok demo_queue_created _ this
      run_schedule_reach[OF demo_schedule q_reach.q_start]] show ?thesis by simp
qed

lemma usb_queue_call_cases:
  assumes ring: "ring_inv q n" and mtx: "mutexTake k t (the (q_mutex q)) = Taken m"
  shows "semTake k f (the (empty q)) = Taken e \<and> n < unat (q_max q) \<longrightarrow>
      (\<exists>q'. usbQueuePut k t (Some q) x f = Some (Q_OK, Some q') \<and> ring_inv q' (Suc n)
         \<and> contents q' (Suc n) = contents q n @ [x])" (is "?P")
    and "semTake k f (the (inUse q)) = Taken u \<and> 0 < n \<longrightarrow>
      (\<exists>q'. usbQueueGet k t (Some q) False f = Some (Q_OK, Some (hd (contents q n)), Some q')
         \<and> ring_inv q' (n - 1) \<and> contents q' (n - 1) = tl (contents q n))" (is "?G")
    and "semTake k f (the (empty q)) = Refused \<longrightarrow>
      usbQueuePut k t (Some q) x f = Some (S_usbQueueLib_Q_NOT_AVAILABLE, Some q)"
    and "semTake k f (the (inUse q)) = Refused \<longrightarrow>
      usbQueueGet k t (Some q) False f = Some (S_usbQueueLib_Q_NOT_AVAILABLE, None, Some q)"
proof -
  let ?q1 = "q\<lparr>empty := Some e, q_mutex := Some m\<rparr>" and ?q2 = "q\<lparr>inUse := Some u, q_mutex := Some m\<rparr>"
  show ?P
  proof
    assume a: "semTake k f (the (empty q)) = Taken e \<and> n < unat (q_max q)"
    have r: "ring_inv ?q1 n" "n < unat (q_max ?q1)" using ring a by (simp_all add: ring_inv_def)
    have c: "contents ?q1 n = contents q n" by (simp add: contents_def)
    note s = ring_store[OF r, of x]
    note p = ring_advance_in[OF s(1)]
    have "usbQueuePut k t (Some q) x f =
        Some (Q_OK, Some (release_mutex k t (give_inUse k (advance_in (store_message x ?q1)))))"
      using a mtx by (simp add: usbQueuePut_def)
    then show "\<exists>q'. usbQueuePut k t (Some q) x f = Some (Q_OK, Some q') \<and> ring_inv q' (Suc n)
         \<and> contents q' (Suc n) = contents q n @ [x]"
      using p s c by (simp add: give_release) (simp add: store_message_def)
  qed
  show ?G
  proof
    assume a: "semTake k f (the (inUse q)) = Taken u \<and> 0 < n"
    then obtain n' where n': "n = Suc n'" using gr0_implies_Suc by blast
    have r: "ring_inv ?q2 (Suc n')" using ring by (simp add: ring_inv_def n')
    have c: "contents ?q2 (Suc n') = contents q n" by (simp add: contents_def n')
    note g = ring_advance_out[OF r]
    have "usbQueueGet k t (Some q) False f = Some (Q_OK, Some (messages q ! unat (q_out q)),
        Some (release_mutex k t (give_empty k (advance_out ?q2))))"
      using a mtx by (simp add: usbQueueGet_def)
    then show "\<exists>q'. usbQueueGet k t (Some q) False f = Some (Q_OK, Some (hd (contents q n)), Some q')
         \<and> ring_inv q' (n - 1) \<and> contents q' (n - 1) = tl (contents q n)"
      using g c by (simp add: give_release n')
  qed
qed (simp_all add: usbQueuePut_def usbQueueGet_def)

text \<open>
  A single caller that finds the mutex free sees a bounded queue. A put that gets a
  slot returns \<^verbatim>\<open>OK\<close> and appends the message; a get that gets a message returns \<^verbatim>\<open>OK\<close> with
  the oldest one and removes it; a refused take makes either call return
  \<^verbatim>\<open>Q_NOT_AVAILABLE\<close> and leave the queue as it was.
\<close>

theorem usb_queue_calls:
  assumes "ring_inv q n" and "mutexTake k t (the (q_mutex q)) = Taken m"
  shows "(semTake k f (the (empty q)) = Taken e \<and> n < unat (q_max q) \<longrightarrow>
      (\<exists>q'. usbQueuePut k t (Some q) x f = Some (Q_OK, Some q') \<and> ring_inv q' (Suc n)
         \<and> contents q' (Suc n) = contents q n @ [x]))
    \<and> (semTake k f (the (inUse q)) = Taken u \<and> 0 < n \<longrightarrow>
      (\<exists>q'. usbQueueGet k t (Some q) False f = Some (Q_OK, Some (hd (contents q n)), Some q')
         \<and> ring_inv q' (n - 1) \<and> contents q' (n - 1) = tl (contents q n)))
    \<and> (semTake k f (the (empty q)) = Refused \<longrightarrow>
      usbQueuePut k t (Some q) x f = Some (S_usbQueueLib_Q_NOT_AVAILABLE, Some q))
    \<and> (semTake k f (the (inUse q)) = Refused \<longrightarrow>
      usbQueueGet k t (Some q) False f = Some (S_usbQueueLib_Q_NOT_AVAILABLE, None, Some q))"
  by (intro conjI usb_queue_call_cases[OF assms])

theorem usb_queue_calls_witness:
  "\<exists>q'. usbQueuePut demo_kernel 0 (Some demo_queue) (zero_msg\<lparr>msg := 7\<rparr>) 0 = Some (Q_OK, Some q')
    \<and> contents q' 1 = [zero_msg\<lparr>msg := 7\<rparr>]"
proof -
  have "ring_inv demo_queue 0" by (simp add: ring_inv_def demo_queue_def)
  moreover have "mutexTake demo_kernel 0 (the (q_mutex demo_queue)) = Taken (Some 0)"
    "semTake demo_kernel 0 (the (empty demo_queue)) = Taken 0" "0 < unat (q_max demo_queue)"
    by (simp_all add: demo_kernel_def demo_queue_def)
  ultimately show ?thesis using usb_queue_calls[of demo_queue 0 demo_kernel 0 "Some 0" 0 0 "zero_msg\<lparr>msg := 7\<rparr>"]
    by (auto simp: contents_def)
qed

text \<open>
  \<open>usbQueueCreate\<close> computes the size of the control block in a \<^verbatim>\<open>UINT16\<close>: for every
  depth above 8189 the size wraps around, and the call returns \<^verbatim>\<open>OK\<close> with a queue whose block
  holds fewer messages than the depth its indices run through.
\<close>

theorem usbQueueCreate_wraps:
  assumes "8189 < unat depth" and "calloc k (unat (queue_len depth))"
    and "semCCreate k 0 = Some u" and "semCCreate k depth = Some e" and "semMCreate k = Some m"
  shows "\<exists>q. usbQueueCreate k False depth = (Q_OK, Some q, []) \<and> length (messages q) < unat (q_max q)"
proof -
  have "unat (queue_len depth) < 2 ^ LENGTH(16)" by (rule unsigned_less)
  then have "queue_slots depth \<le> 8189" by (simp add: queue_slots_def)
  moreover have "depth \<noteq> 0" using assms(1) by auto
  ultimately show ?thesis using assms by (simp add: usbQueueCreate_def Let_def)
qed

theorem usbQueueCreate_wraps_witness:
  "\<exists>q. usbQueueCreate demo_kernel False 8190 = (Q_OK, Some q, []) \<and> length (messages q) < unat (q_max q)"
  by (rule usbQueueCreate_wraps) (simp_all add: demo_kernel_def)

end
