(* ===== verification/Usb_List.thy ===== *)
theory Usb_List
  imports Prelude
begin

text \<open>
  The linked lists of the USB stack (\<^verbatim>\<open>usbListLib.c\<close>), on a memory of 32-bit addresses. The
  library's code takes the address of a \<^verbatim>\<open>LIST_HEAD\<close>, or of the \<^verbatim>\<open>linkFwd\<close> field of a \<^verbatim>\<open>LINK\<close>,
  for the address of a \<^verbatim>\<open>LINK\<close>: \<^verbatim>\<open>linkFwd\<close> is the first field of a link and \<^verbatim>\<open>pLink\<close> the only
  field of a head, so both are the word at offset 0, which is the component \<open>linkFwd\<close> of the
  memory here.
\<close>

section \<open>Memory\<close>

type_synonym addr = u32

record link_mem =
  linkFwd :: "addr \<Rightarrow> addr"
  linkBack :: "addr \<Rightarrow> addr"
  pStruct :: "addr \<Rightarrow> addr"

definition set_fwd :: "addr \<Rightarrow> addr \<Rightarrow> link_mem \<Rightarrow> link_mem" where
  "set_fwd l v h = h\<lparr>linkFwd := (linkFwd h)(l := v)\<rparr>"

definition set_back :: "addr \<Rightarrow> addr \<Rightarrow> link_mem \<Rightarrow> link_mem" where
  "set_back l v h = h\<lparr>linkBack := (linkBack h)(l := v)\<rparr>"

definition set_struct :: "addr \<Rightarrow> addr \<Rightarrow> link_mem \<Rightarrow> link_mem" where
  "set_struct l v h = h\<lparr>pStruct := (pStruct h)(l := v)\<rparr>"

lemmas set_defs = set_fwd_def set_back_def set_struct_def

section \<open>Operations\<close>

definition usbListFirst :: "addr \<Rightarrow> link_mem \<Rightarrow> addr" where
  "usbListFirst pListHead h =
     (if pListHead = 0 \<or> linkFwd h pListHead = 0 then 0 else pStruct h (linkFwd h pListHead))"

definition usbListNext :: "addr \<Rightarrow> link_mem \<Rightarrow> addr" where
  "usbListNext pLink h =
     (if pLink = 0 \<or> linkFwd h pLink = 0 then 0 else pStruct h (linkFwd h pLink))"

datatype link_error = Assertion_failed

text \<open>
  The check of \<^verbatim>\<open>DEBUG_LIST\<close>: from structure to structure, the link of each being at the
  distance \<open>off\<close> the new structure has from its link. \<open>None\<close> when the walk does not end; the
  result is whether the assertion held all along.
\<close>

partial_function (option) debug_walk :: "link_mem \<Rightarrow> addr \<Rightarrow> addr \<Rightarrow> addr \<Rightarrow> bool option" where
  "debug_walk h s off pElement =
     (if pElement = 0 then Some True
      else if pElement = s then Some False
      else debug_walk h s off (usbListNext (pElement + off) h))"

text \<open>The search for the tail: the word in which the last link, or the head, holds \<^verbatim>\<open>NULL\<close>.\<close>

partial_function (option) find_tail :: "link_mem \<Rightarrow> addr \<Rightarrow> addr option" where
  "find_tail h ppTail = (if linkFwd h ppTail = 0 then Some ppTail else find_tail h (linkFwd h ppTail))"

definition link_head :: "addr \<Rightarrow> addr \<Rightarrow> addr \<Rightarrow> link_mem \<Rightarrow> link_mem" where
  "link_head pHead s l h =
     (let h1 = set_struct l s h;
          h2 = set_back l pHead (set_fwd l (linkFwd h1 pHead) h1);
          h3 = (if linkFwd h2 pHead \<noteq> 0 then set_back (linkFwd h2 pHead) l h2 else h2)
      in set_fwd pHead l h3)"

definition link_tail :: "addr \<Rightarrow> addr \<Rightarrow> addr \<Rightarrow> link_mem \<Rightarrow> link_mem option" where
  "link_tail pHead s l h =
     (let h1 = set_struct l s h
      in map_option (\<lambda>ppTail. set_fwd ppTail l (set_back l ppTail (set_fwd l 0 h1))) (find_tail h1 pHead))"

definition LINK_HEAD :: u16 where "LINK_HEAD = 0"

definition LINK_TAIL :: u16 where "LINK_TAIL = 1"

definition usbListLink :: "addr \<Rightarrow> addr \<Rightarrow> addr \<Rightarrow> u16 \<Rightarrow> link_mem \<Rightarrow> (link_error + link_mem) option" where
  "usbListLink pHead s l flag h =
     (case debug_walk h s (l - s) (usbListFirst pHead h) of
        None \<Rightarrow> None
      | Some False \<Rightarrow> Some (Inl Assertion_failed)
      | Some True \<Rightarrow>
          if flag = LINK_HEAD then Some (Inr (link_head pHead s l h))
          else map_option Inr (link_tail pHead s l h))"

definition usbListUnlink :: "addr \<Rightarrow> link_mem \<Rightarrow> link_mem" where
  "usbListUnlink l h =
     (let h1 = (if linkBack h l \<noteq> 0 then set_fwd (linkBack h l) (linkFwd h l) h else h);
          h2 = (if linkFwd h1 l \<noteq> 0 then set_back (linkFwd h1 l) (linkBack h1 l) h1 else h1)
      in set_back l 0 (set_fwd l 0 h2))"

text \<open>
  The guarded variants, with the kernel's mutex operations as parameters; \<open>None\<close> when the
  take never returns. A failed assertion stops the task with the mutex taken.
\<close>

definition usbListLinkProt :: "('m \<Rightarrow> 'm option) \<Rightarrow> ('m \<Rightarrow> 'm) \<Rightarrow> addr \<Rightarrow> addr \<Rightarrow> addr \<Rightarrow> u16
    \<Rightarrow> link_mem \<times> 'm \<Rightarrow> (link_error + link_mem \<times> 'm) option" where
  "usbListLinkProt mtake mrelease pHead s l flag hm =
     (case mtake (snd hm) of None \<Rightarrow> None
      | Some m \<Rightarrow> map_option (map_sum id (\<lambda>h. (h, mrelease m))) (usbListLink pHead s l flag (fst hm)))"

definition usbListUnlinkProt :: "('m \<Rightarrow> 'm option) \<Rightarrow> ('m \<Rightarrow> 'm) \<Rightarrow> addr \<Rightarrow> link_mem \<times> 'm \<Rightarrow> (link_mem \<times> 'm) option" where
  "usbListUnlinkProt mtake mrelease l hm =
     (case mtake (snd hm) of None \<Rightarrow> None
      | Some m \<Rightarrow> Some (usbListUnlink l (fst hm), mrelease m))"

section \<open>Lists in memory\<close>

text \<open>\<open>dlist h p ls\<close>: at head \<open>p\<close> there is the doubly linked list of the links \<open>ls\<close>.\<close>

fun chain :: "link_mem \<Rightarrow> addr \<Rightarrow> addr list \<Rightarrow> bool" where
  "chain h p [] \<longleftrightarrow> linkFwd h p = 0"
| "chain h p (l # ls) \<longleftrightarrow> linkFwd h p = l \<and> l \<noteq> 0 \<and> linkBack h l = p \<and> chain h l ls"

definition dlist :: "link_mem \<Rightarrow> addr \<Rightarrow> addr list \<Rightarrow> bool" where
  "dlist h p ls \<longleftrightarrow> p \<noteq> 0 \<and> chain h p ls \<and> distinct (p # ls)"

text \<open>Stores outside the list leave it alone; the word before the list and the back link of its
  first element are the only way in.\<close>

lemma chain_frame:
  "(\<And>x. x \<in> set (p # ls) \<Longrightarrow> linkFwd h' x = linkFwd h x) \<Longrightarrow>
   (\<And>x. x \<in> set ls \<Longrightarrow> linkBack h' x = linkBack h x) \<Longrightarrow> chain h' p ls = chain h p ls"
  by (induction ls arbitrary: p) auto

lemma chain_append:
  "chain h p (xs @ l # ys) \<longleftrightarrow> chain (set_fwd (last (p # xs)) 0 h) p xs \<and> linkFwd h (last (p # xs)) = l
     \<and> l \<noteq> 0 \<and> linkBack h l = last (p # xs) \<and> chain h l ys"
  if "distinct (p # xs)"
  using that
proof (induction xs arbitrary: p)
  case Nil
  then show ?case by (simp add: set_fwd_def)
next
  case (Cons x xs)
  have "last (x # xs) \<noteq> p" using Cons.prems by (metis distinct.simps(2) last_in_set list.distinct(1))
  then show ?case using Cons by (auto simp: set_fwd_def)
qed

lemma find_tail_chain: "chain h p ls \<Longrightarrow> find_tail h p = Some (last (p # ls))"
proof (induction ls arbitrary: p)
  case Nil
  then show ?case by (simp add: find_tail.simps[of h p])
next
  case (Cons l ls)
  then show ?case by (simp add: find_tail.simps[of h p])
qed

lemma chain_last: "chain h p ls \<Longrightarrow> linkFwd h (last (p # ls)) = 0"
  by (induction ls arbitrary: p) auto

lemma chain_nonzero: "chain h p ls \<Longrightarrow> 0 \<notin> set ls"
  by (induction ls arbitrary: p) auto

lemma dlist_link_head:
  assumes "dlist h p ls" and "l \<notin> set (p # ls)" and "l \<noteq> 0"
  shows "dlist (link_head p s l h) p (l # ls)"
proof (cases ls)
  case Nil
  then show ?thesis using assms by (auto simp: dlist_def link_head_def set_defs Let_def)
next
  case (Cons a as)
  let ?h = "link_head p s l h"
  have c: "chain h p (a # as)" "distinct (p # a # as)" "l \<notin> set (p # a # as)" "p \<noteq> 0"
    using assms Cons by (simp_all add: dlist_def)
  have "chain ?h a as = chain h a as"
    using c by (intro chain_frame) (auto simp: link_head_def set_defs Let_def)
  moreover have "linkFwd ?h p = l" "linkBack ?h l = p" "linkFwd ?h l = a" "linkBack ?h a = l"
    using c assms(3) by (auto simp: link_head_def set_defs Let_def)
  ultimately show ?thesis using c assms(3) Cons by (auto simp: dlist_def)
qed

lemma dlist_link_tail:
  assumes "dlist h p ls" and "l \<notin> set (p # ls)" and "l \<noteq> 0"
  shows "\<exists>h'. link_tail p s l h = Some h' \<and> dlist h' p (ls @ [l])"
proof -
  let ?t = "last (p # ls)"
  let ?h = "set_fwd ?t l (set_back l ?t (set_fwd l 0 (set_struct l s h)))"
  have c: "chain h p ls" "distinct (p # ls)" "p \<noteq> 0" using assms by (simp_all add: dlist_def)
  have t: "?t \<in> set (p # ls)" using last_in_set by blast
  then have tl: "?t \<noteq> l" using assms(2) by metis
  have "chain (set_struct l s h) p ls" using c(1) by (subst chain_frame[where h = h]) (simp_all add: set_defs)
  then have "link_tail p s l h = Some ?h" by (simp add: link_tail_def Let_def find_tail_chain)
  moreover have "chain (set_fwd ?t 0 ?h) p ls = chain h p ls"
    using assms(2) chain_last[OF c(1)] by (intro chain_frame) (auto simp: set_defs)
  moreover have "linkFwd ?h ?t = l" "linkBack ?h l = ?t" "linkFwd ?h l = 0" using tl by (simp_all add: set_defs)
  ultimately show ?thesis using c assms(2,3) by (simp add: dlist_def chain_append) blast
qed

lemma unlink_fields:
  assumes "linkBack h l \<noteq> 0" and "linkBack h l \<noteq> l"
  shows "linkFwd (usbListUnlink l h) x = (if x = l then 0 else if x = linkBack h l then linkFwd h l else linkFwd h x)"
    and "linkBack (usbListUnlink l h) x =
      (if x = l then 0 else if x = linkFwd h l \<and> x \<noteq> 0 then linkBack h l else linkBack h x)"
  using assms by (simp_all add: usbListUnlink_def set_defs Let_def)

lemma dlist_unlink:
  assumes "dlist h p (xs @ l # ys)"
  shows "dlist (usbListUnlink l h) p (xs @ ys)"
proof -
  let ?t = "last (p # xs)" and ?h = "usbListUnlink l h"
  have d: "distinct (p # xs)" "distinct (p # xs @ l # ys)" "p \<noteq> 0" using assms by (auto simp: dlist_def)
  have c: "chain (set_fwd ?t 0 h) p xs" "linkFwd h ?t = l" "l \<noteq> 0" "linkBack h l = ?t" "chain h l ys"
    using assms chain_append[OF d(1)] by (simp_all add: dlist_def)
  have t: "?t \<in> set (p # xs)" using last_in_set by blast
  have "0 \<notin> set (p # xs)" using chain_nonzero[OF c(1)] d(3) by simp
  then have t0: "?t \<noteq> 0" using t by metis
  have disj: "set ys \<inter> set (p # xs) = {}" "l \<notin> set (p # xs)" using d(2) by auto
  have tl: "?t \<noteq> l" "?t \<notin> set ys" using t disj by blast+
  have n: "linkFwd h l \<notin> set (p # xs)"
  proof -
    have "linkFwd h l \<in> insert 0 (set ys)" using c(5) by (cases ys) auto
    then show ?thesis using disj(1) \<open>0 \<notin> set (p # xs)\<close> by (metis IntI empty_iff insertE)
  qed
  define t where "t = ?t"
  have td: "linkBack h l = t" "t \<noteq> 0" "t \<noteq> l" "t \<notin> set ys" using c(4) t0 tl by (simp_all add: t_def)
  note uf = unlink_fields[of h l, unfolded td(1), OF td(2,3)]
  have front: "chain (set_fwd t 0 ?h) p xs = chain (set_fwd t 0 h) p xs"
  proof (rule chain_frame)
    show "linkFwd (set_fwd t 0 ?h) x = linkFwd (set_fwd t 0 h) x" if "x \<in> set (p # xs)" for x
      using that disj(2) by (cases "x = l") (simp_all add: set_fwd_def uf)
    show "linkBack (set_fwd t 0 ?h) x = linkBack (set_fwd t 0 h) x" if "x \<in> set xs" for x
      using that disj(2) n by (cases "x = l"; cases "x = linkFwd h l") (simp_all add: set_fwd_def uf)
  qed
  have ft: "linkFwd ?h t = linkFwd h l" using td(3) by (simp add: uf)
  show ?thesis
  proof (cases ys)
    case Nil
    then have "chain ?h p xs = chain (set_fwd t 0 ?h) p xs"
      using ft c(5) by (intro chain_frame) (auto simp: set_defs)
    then show ?thesis using front c(1)[folded t_def] d Nil by (simp add: dlist_def)
  next
    case (Cons a as)
    then have a: "linkFwd h l = a" "a \<noteq> 0" "chain h a as" using c(5) by simp_all
    have "linkBack ?h a = t" using a d(2) Cons by (simp add: uf) blast
    moreover have "chain ?h a as = chain h a as"
      using a(1) d(2) Cons td(4) by (intro chain_frame) (auto simp: uf)
    ultimately show ?thesis
      using front c(1)[folded t_def] ft a d Cons chain_append[OF d(1), of ?h a as, folded t_def] by (simp add: dlist_def)
  qed
qed

section \<open>Lists of structures\<close>

text \<open>
  \<open>usb_list off h p ls\<close>: a list whose links lie \<open>off\<close> bytes into the structures they belong to.
  \<open>touches\<close> bounds what an operation may change.
\<close>

definition usb_list :: "addr \<Rightarrow> link_mem \<Rightarrow> addr \<Rightarrow> addr list \<Rightarrow> bool" where
  "usb_list off h p ls \<longleftrightarrow> dlist h p ls \<and> (\<forall>l \<in> set ls. pStruct h l = l - off \<and> l \<noteq> off)"

definition touches :: "link_mem \<Rightarrow> link_mem \<Rightarrow> addr set \<Rightarrow> bool" where
  "touches h h' A \<longleftrightarrow> (\<forall>x. x \<notin> A \<longrightarrow> linkFwd h' x = linkFwd h x \<and> linkBack h' x = linkBack h x
     \<and> pStruct h' x = pStruct h x)"

lemma usb_list_frame:
  assumes "usb_list off h p ls" and "touches h h' A" and "A \<inter> set (p # ls) = {}"
  shows "usb_list off h' p ls"
proof -
  have keep: "linkFwd h' x = linkFwd h x \<and> linkBack h' x = linkBack h x \<and> pStruct h' x = pStruct h x"
    if "x \<in> set (p # ls)" for x using that assms(2,3) unfolding touches_def by (metis IntI empty_iff)
  have "chain h' p ls = chain h p ls" using keep by (intro chain_frame) simp_all
  then show ?thesis using assms(1) keep by (simp add: usb_list_def dlist_def)
qed

lemma debug_walk_chain:
  "chain h p ls \<Longrightarrow> p \<noteq> 0 \<Longrightarrow> (\<forall>l \<in> set ls. pStruct h l = l - off \<and> l \<noteq> off) \<Longrightarrow>
    debug_walk h s off (usbListNext p h) = Some (s \<notin> (\<lambda>l. l - off) ` set ls)"
proof (induction ls arbitrary: p)
  case Nil
  then show ?case by (simp add: usbListNext_def debug_walk.simps[of h s off 0])
next
  case (Cons l ls)
  then have n: "usbListNext p h = l - off" "l - off \<noteq> 0" by (simp_all add: usbListNext_def)
  have "debug_walk h s off (usbListNext l h) = Some (s \<notin> (\<lambda>l. l - off) ` set ls)" using Cons by simp
  then show ?case using n by (simp add: debug_walk.simps[of h s off "l - off"])
qed

lemma first_is_next: "usbListFirst p h = usbListNext p h"
  by (simp add: usbListFirst_def usbListNext_def)

lemma usbListLink_runs:
  assumes "usb_list off h p ls" and "l \<notin> set ls"
  shows "usbListLink p (l - off) l flag h =
    (if flag = LINK_HEAD then Some (Inr (link_head p (l - off) l h)) else map_option Inr (link_tail p (l - off) l h))"
proof -
  have "l - off \<notin> (\<lambda>l. l - off) ` set ls" using assms(2) by auto
  then have "debug_walk h (l - off) off (usbListFirst p h) = Some True"
    using assms(1) debug_walk_chain[of h p ls off "l - off"] by (simp add: usb_list_def dlist_def first_is_next)
  then show ?thesis by (simp add: usbListLink_def)
qed

lemma link_head_fields:
  "pStruct (link_head p s l h) = (pStruct h)(l := s)"
  "dlist h p ls \<Longrightarrow> touches h (link_head p s l h) (set (p # l # ls))"
  by (simp add: link_head_def set_defs Let_def)
    (cases ls, auto simp: dlist_def touches_def link_head_def set_defs Let_def)

lemma link_tail_fields:
  assumes "dlist h p ls" and "link_tail p s l h = Some h'"
  shows "pStruct h' = (pStruct h)(l := s)" and "touches h h' (set (p # l # ls))"
proof -
  have "chain (set_struct l s h) p ls"
    using assms(1) by (subst chain_frame[where h = h]) (simp_all add: set_defs dlist_def)
  then have h': "h' = set_fwd (last (p # ls)) l (set_back l (last (p # ls)) (set_fwd l 0 (set_struct l s h)))"
    using assms(2) by (simp add: link_tail_def Let_def find_tail_chain)
  have "last (p # ls) \<in> set (p # ls)" using last_in_set by blast
  then show "touches h h' (set (p # l # ls))" unfolding h' by (auto simp: touches_def set_defs)
  show "pStruct h' = (pStruct h)(l := s)" by (simp add: h' set_defs)
qed

lemma usb_list_link:
  assumes "usb_list off h p ls" and "l \<notin> set (p # ls)" and "l \<noteq> 0" and "l \<noteq> off"
  obtains h' where "usbListLink p (l - off) l flag h = Some (Inr h')"
    "usb_list off h' p (if flag = LINK_HEAD then l # ls else ls @ [l])" "touches h h' (set (p # l # ls))"
proof -
  have d: "dlist h p ls" "\<forall>k \<in> set ls. pStruct h k = k - off \<and> k \<noteq> off" using assms(1) by (simp_all add: usb_list_def)
  have run: "usbListLink p (l - off) l flag h =
      (if flag = LINK_HEAD then Some (Inr (link_head p (l - off) l h)) else map_option Inr (link_tail p (l - off) l h))"
    using usbListLink_runs[OF assms(1)] assms(2) by simp
  show thesis
  proof (cases "flag = LINK_HEAD")
    case True
    then show ?thesis using that[of "link_head p (l - off) l h"] run d assms(2-4)
      dlist_link_head[OF d(1) assms(2,3)] link_head_fields by (simp add: usb_list_def)
  next
    case False
    obtain h' where h': "link_tail p (l - off) l h = Some h'" "dlist h' p (ls @ [l])"
      using dlist_link_tail[OF d(1) assms(2,3)] by blast
    have "usb_list off h' p (ls @ [l])"
      using h'(2) link_tail_fields(1)[OF d(1) h'(1)] d(2) assms(2,4) by (simp add: usb_list_def)
    then show ?thesis using that[of h'] False run h'(1) link_tail_fields(2)[OF d(1) h'(1)] by simp
  qed
qed

lemma usb_list_unlink:
  assumes "usb_list off h p (xs @ l # ys)"
  shows "usb_list off (usbListUnlink l h) p (xs @ ys)"
    and "touches h (usbListUnlink l h) (set (p # xs @ l # ys))"
proof -
  have d: "dlist h p (xs @ l # ys)" using assms by (simp add: usb_list_def)
  have "pStruct (usbListUnlink l h) = pStruct h" by (simp add: usbListUnlink_def set_defs Let_def)
  then show "usb_list off (usbListUnlink l h) p (xs @ ys)"
    using assms dlist_unlink[OF d] by (auto simp: usb_list_def)
  have "distinct (p # xs)" using d by (simp add: dlist_def)
  note c = chain_append[OF this, of h l ys]
  have "linkBack h l = last (p # xs)" "chain h l ys" using d c by (simp_all add: dlist_def)
  moreover have "last (p # xs) \<in> set (p # xs)" using last_in_set by blast
  ultimately have b: "linkBack h l \<in> set (p # xs)" "linkFwd h l \<in> insert 0 (set ys)" by (simp, cases ys) auto
  show "touches h (usbListUnlink l h) (set (p # xs @ l # ys))"
    using b by (auto simp: touches_def usbListUnlink_def set_defs Let_def)
qed

section \<open>The interface\<close>

text \<open>
  What a client sees: sequences of links under heads, extended at either end and cut anywhere.
  \<open>usable\<close> says that a link may be added to a list.
\<close>

fun enlist :: "('l \<Rightarrow> 'h \<Rightarrow> 'h option) \<Rightarrow> 'l list \<Rightarrow> 'h \<Rightarrow> 'h option" where
  "enlist ins [] h = Some h"
| "enlist ins (l # ls) h = (case ins l h of None \<Rightarrow> None | Some h' \<Rightarrow> enlist ins ls h')"

locale link_sequence =
  fixes rep :: "'h \<Rightarrow> 'p \<Rightarrow> 'l list \<Rightarrow> bool" and usable :: "'p \<Rightarrow> 'l \<Rightarrow> bool"
    and add_first :: "'p \<Rightarrow> 'l \<Rightarrow> 'h \<Rightarrow> 'h option" and add_last :: "'p \<Rightarrow> 'l \<Rightarrow> 'h \<Rightarrow> 'h option" and remove :: "'l \<Rightarrow> 'h \<Rightarrow> 'h"
  assumes first_rep: "rep h p ls \<Longrightarrow> usable p l \<Longrightarrow> l \<notin> set ls \<Longrightarrow> \<exists>h'. add_first p l h = Some h' \<and> rep h' p (l # ls)"
    and last_rep: "rep h p ls \<Longrightarrow> usable p l \<Longrightarrow> l \<notin> set ls \<Longrightarrow> \<exists>h'. add_last p l h = Some h' \<and> rep h' p (ls @ [l])"
    and remove_rep: "rep h p (xs @ l # ys) \<Longrightarrow> rep (remove l h) p (xs @ ys)"
begin

lemma first_remove:
  assumes "rep h p ls" and "usable p l" and "l \<notin> set ls"
  shows "\<exists>h'. add_first p l h = Some h' \<and> rep (remove l h') p ls"
proof -
  obtain h' where "add_first p l h = Some h'" "rep h' p (l # ls)" using first_rep[OF assms] by blast
  then show ?thesis using remove_rep[of h' p "[]" l ls] by auto
qed

lemma enlist_rep:
  "rep h p ls \<Longrightarrow> distinct (ls @ ms) \<Longrightarrow> \<forall>m \<in> set ms. usable p m \<Longrightarrow>
    \<exists>h'. enlist (add_last p) ms h = Some h' \<and> rep h' p (ls @ ms)"
proof (induction ms arbitrary: h ls)
  case (Cons m ms)
  then obtain h1 where h1: "add_last p m h = Some h1" "rep h1 p (ls @ [m])" using last_rep[of h p ls m] by auto
  with Cons.IH[OF h1(2)] Cons.prems show ?case by simp
qed simp

text \<open>Links added at the tail come out at the head in the same order.\<close>

lemma fifo:
  assumes "rep h p []" and "distinct ms" and "\<forall>m \<in> set ms. usable p m" and "n \<le> length ms"
  shows "\<exists>h'. enlist (add_last p) ms h = Some h' \<and> rep (fold remove (take n ms) h') p (drop n ms)"
proof -
  obtain h' where h': "enlist (add_last p) ms h = Some h'" "rep h' p ms" using enlist_rep[of h p "[]" ms] assms by auto
  have "rep (fold remove (take n ms) h') p (drop n ms)" using assms(4)
  proof (induction n)
    case (Suc n)
    then show ?case using remove_rep[of _ p "[]" "ms ! n" "drop (Suc n) ms"]
      by (simp add: take_Suc_conv_app_nth Cons_nth_drop_Suc)
  qed (use h' in simp)
  then show ?thesis using h'(1) by blast
qed

end

definition link_at :: "u16 \<Rightarrow> addr \<Rightarrow> addr \<Rightarrow> addr \<Rightarrow> link_mem \<Rightarrow> link_mem option" where
  "link_at flag off p l h = (case usbListLink p (l - off) l flag h of Some (Inr h') \<Rightarrow> Some h' | _ \<Rightarrow> None)"

interpretation usb_links: link_sequence "usb_list off" "\<lambda>p l. l \<noteq> p \<and> l \<noteq> 0 \<and> l \<noteq> off"
    "link_at LINK_HEAD off" "link_at LINK_TAIL off" usbListUnlink for off
proof
  fix h p ls l
  assume a: "usb_list off h p ls" "l \<noteq> p \<and> l \<noteq> 0 \<and> l \<noteq> off" "l \<notin> set ls"
  then have f: "l \<notin> set (p # ls)" "l \<noteq> 0" "l \<noteq> off" by simp_all
  obtain h1 where h1: "usbListLink p (l - off) l LINK_HEAD h = Some (Inr h1)"
    "usb_list off h1 p (if LINK_HEAD = LINK_HEAD then l # ls else ls @ [l])"
    by (rule usb_list_link[OF a(1) f])
  obtain h2 where h2: "usbListLink p (l - off) l LINK_TAIL h = Some (Inr h2)"
    "usb_list off h2 p (if LINK_TAIL = LINK_HEAD then l # ls else ls @ [l])"
    by (rule usb_list_link[OF a(1) f])
  show "\<exists>h'. link_at LINK_HEAD off p l h = Some h' \<and> usb_list off h' p (l # ls)"
    using h1 by (simp add: link_at_def)
  show "\<exists>h'. link_at LINK_TAIL off p l h = Some h' \<and> usb_list off h' p (ls @ [l])"
    using h2 by (simp add: link_at_def LINK_HEAD_def LINK_TAIL_def)
qed (rule usb_list_unlink)

section \<open>Properties\<close>

text \<open>
  C37: \<open>usbListLink\<close> returns on every well-formed list of structures: if the structure is not
  on the list its link becomes the first or, for any flag but \<^verbatim>\<open>LINK_HEAD\<close>, the last one and
  every list that shares no link with this one is unchanged; if the structure is already on
  the list the assertion of \<^verbatim>\<open>DEBUG_LIST\<close> stops the call before it changes anything.
\<close>

theorem usbListLink_correct:
  assumes "usb_list off h p ls" and "l \<noteq> p" and "l \<noteq> 0" and "l \<noteq> off"
  shows "if l \<in> set ls then usbListLink p (l - off) l flag h = Some (Inl Assertion_failed)
    else \<exists>h'. usbListLink p (l - off) l flag h = Some (Inr h')
      \<and> usb_list off h' p (if flag = LINK_HEAD then l # ls else ls @ [l])
      \<and> (\<forall>off2 p2 ms. usb_list off2 h p2 ms \<and> set (p # l # ls) \<inter> set (p2 # ms) = {} \<longrightarrow> usb_list off2 h' p2 ms)"
proof (cases "l \<in> set ls")
  case True
  then have "debug_walk h (l - off) off (usbListFirst p h) = Some False"
    using assms(1) debug_walk_chain[of h p ls off "l - off"] by (auto simp: usb_list_def dlist_def first_is_next)
  then show ?thesis using True by (simp add: usbListLink_def)
next
  case False
  then have f: "l \<notin> set (p # ls)" using assms(2) by simp
  obtain h' where h': "usbListLink p (l - off) l flag h = Some (Inr h')"
    "usb_list off h' p (if flag = LINK_HEAD then l # ls else ls @ [l])" "touches h h' (set (p # l # ls))"
    using usb_list_link[OF assms(1) f assms(3,4)] .
  then have "usb_list off2 h' p2 ms" if "usb_list off2 h p2 ms" "set (p # l # ls) \<inter> set (p2 # ms) = {}" for off2 p2 ms
    using usb_list_frame[OF that(1) _ that(2)] by blast
  then show ?thesis using False h'(1,2) by auto
qed

definition demo_mem :: link_mem where
  "demo_mem = \<lparr>linkFwd = (\<lambda>x. 0)(100 := 208), linkBack = (\<lambda>x. 0)(208 := 100), pStruct = (\<lambda>x. 0)(208 := 200)\<rparr>"

lemma demo_mem_list: "usb_list 8 demo_mem 100 [208]"
  by (simp add: usb_list_def dlist_def demo_mem_def)

theorem usbListLink_correct_witness:
  "\<exists>h'. usbListLink 100 300 308 LINK_TAIL demo_mem = Some (Inr h') \<and> usb_list 8 h' 100 [208, 308]"
  using usbListLink_correct[OF demo_mem_list, of 308 LINK_TAIL] by (auto simp: LINK_TAIL_def LINK_HEAD_def)



text \<open>
  A list used as a queue is first in, first out: links added with \<^verbatim>\<open>LINK_TAIL\<close> to an
  empty list are found in that order, and removing the first \<open>n\<close> of them leaves the others.
\<close>

theorem usb_list_fifo:
  assumes "usb_list off h p []" and "distinct ms" and "\<forall>m \<in> set ms. m \<noteq> p \<and> m \<noteq> 0 \<and> m \<noteq> off"
    and "n \<le> length ms"
  shows "\<exists>h'. enlist (link_at LINK_TAIL off p) ms h = Some h'
    \<and> usb_list off (fold usbListUnlink (take n ms) h') p (drop n ms)"
  using usb_links.fifo[OF assms] .

theorem usb_list_fifo_witness:
  "\<exists>h'. enlist (link_at LINK_TAIL 8 100) [208, 308, 408] (usbListUnlink 208 demo_mem) = Some h'
    \<and> usb_list 8 (usbListUnlink 308 (usbListUnlink 208 h')) 100 [408]"
proof -
  have "usb_list 8 (usbListUnlink 208 demo_mem) 100 []"
    using usb_list_unlink(1)[of 8 demo_mem 100 "[]" 208 "[]"] demo_mem_list by simp
  from usb_list_fifo[OF this, of "[208, 308, 408]" 2] show ?thesis by simp
qed

end
