(* ===== verification/Usb_Handle.thy ===== *)
theory Usb_Handle
  imports Prelude
begin

text \<open>
  The handle library of the USB stack (\<^verbatim>\<open>usbHandleLib.c\<close>): a table of handle descriptors,
  handles being numbers one above their slot. What the library promises its clients is the
  locale \<open>handle_table\<close>: a finite map from handles to a signature and a parameter.
\<close>

section \<open>State\<close>

datatype hdl_status =
    OK
  | S_usbHandleLib_OUT_OF_MEMORY
  | S_usbHandleLib_OUT_OF_RESOURCES
  | S_usbHandleLib_OUT_OF_HANDLES
  | S_usbHandleLib_BAD_PARAM
  | S_usbHandleLib_BAD_HANDLE
  | S_usbHandleLib_NOT_INITIALIZED
  | S_usbHandleLib_GENERAL_FAULT

text \<open>\<^verbatim>\<open>HDL_DESCR\<close>: the pointer \<^verbatim>\<open>handleParam\<close> is of the clients' type \<open>'p\<close>; \<open>None\<close> is \<^verbatim>\<open>NULL\<close>.\<close>

record 'p hdl_descr =
  handle :: u32
  handleSig :: u32
  handleParam :: "'p option"

text \<open>The library's static variables; \<open>handles\<close> and \<open>mutex\<close> are \<open>None\<close> and false for \<^verbatim>\<open>NULL\<close>.\<close>

record 'p hdl_lib =
  initCount :: int
  handles :: "'p hdl_descr list option"
  numHandles :: u32
  usedHandles :: u32
  nextHandleNum :: u32
  mutex :: bool

definition DEFAULT_HANDLES :: u32 where "DEFAULT_HANDLES = 1024"

definition INDEX :: "'p hdl_lib \<Rightarrow> u32 \<Rightarrow> nat" where
  "INDEX s h = unat ((h - 1) mod numHandles s)"

definition zero_descr :: "'p hdl_descr" where
  "zero_descr = \<lparr>handle = 0, handleSig = 0, handleParam = None\<rparr>"

text \<open>
  \<^verbatim>\<open>OSS_CALLOC (sizeof (HDL_DESCR) * maxHandles)\<close>: the size is a 32-bit product of 12 and the
  count; the descriptors that lie wholly inside the block.
\<close>

definition alloc_handles :: "u32 \<Rightarrow> 'p hdl_descr list" where
  "alloc_handles n = replicate (unat (12 * n) div 12) zero_descr"

section \<open>Operations\<close>

definition usbHandleInitialize :: "bool \<Rightarrow> bool \<Rightarrow> u32 \<Rightarrow> 'p hdl_lib \<Rightarrow> hdl_status \<times> 'p hdl_lib" where
  "usbHandleInitialize calloc_ok mutex_ok maxHandles s =
     (let s1 = s\<lparr>initCount := initCount s + 1\<rparr>
      in if initCount s1 > 1 then (OK, s1)
         else
           let n = (if maxHandles = 0 then DEFAULT_HANDLES else maxHandles)
           in if \<not> calloc_ok
              then (S_usbHandleLib_OUT_OF_MEMORY, s1\<lparr>handles := None, initCount := initCount s1 - 1\<rparr>)
              else if \<not> mutex_ok
              then (S_usbHandleLib_OUT_OF_RESOURCES, s1\<lparr>handles := None, initCount := initCount s1 - 1\<rparr>)
              else (OK, s1\<lparr>handles := Some (alloc_handles n), mutex := True, numHandles := n,
                          usedHandles := 0, nextHandleNum := 0\<rparr>))"

definition usbHandleShutdown :: "'p hdl_lib \<Rightarrow> hdl_status \<times> 'p hdl_lib" where
  "usbHandleShutdown s =
     (if initCount s > 0
      then let s1 = s\<lparr>initCount := initCount s - 1\<rparr>
           in if initCount s1 = 0
              then (OK, s1\<lparr>mutex := False,
                          numHandles := (if handles s1 \<noteq> None then 0 else numHandles s1), handles := None\<rparr>)
              else (OK, s1)
      else (OK, s))"

text \<open>
  The search loop of \<open>usbHandleCreate\<close>, on the descriptor array: from \<open>nextHandleNum\<close> on,
  cyclically, until a free slot is found. It ends only if there is one.
\<close>

definition first_num :: "u32 \<Rightarrow> u32" where
  "first_num next = (if next = 0 then 1 else next)"

definition advance :: "u32 \<Rightarrow> u32 \<Rightarrow> u32" where
  "advance n next = (if next + 1 > n then 0 else next + 1)"

partial_function (option) create_search :: "u32 \<Rightarrow> 'p hdl_descr list \<Rightarrow> u32 \<Rightarrow> (u32 \<times> u32) option" where
  "create_search n hs next =
     (let h = first_num next
      in if handle (hs ! unat ((h - 1) mod n)) = 0 then Some (h, advance n h)
         else create_search n hs (advance n h))"

text \<open>
  \<open>usbHandleCreate\<close>: the status and, when it is \<open>OK\<close>, the handle stored at \<^verbatim>\<open>pHandle\<close>; \<open>None\<close>
  when the search does not end.
\<close>

definition usbHandleCreate :: "bool \<Rightarrow> bool \<Rightarrow> u32 \<Rightarrow> 'p option \<Rightarrow> 'p hdl_lib
    \<Rightarrow> (hdl_status \<times> u32 option \<times> 'p hdl_lib) option" where
  "usbHandleCreate pHandle_null take_ok sig param s =
     (if initCount s = 0 then Some (S_usbHandleLib_NOT_INITIALIZED, None, s)
      else if pHandle_null then Some (S_usbHandleLib_BAD_PARAM, None, s)
      else if \<not> take_ok then Some (S_usbHandleLib_GENERAL_FAULT, None, s)
      else if usedHandles s = numHandles s then Some (S_usbHandleLib_OUT_OF_HANDLES, None, s)
      else map_option (\<lambda>(h, next).
             (OK, Some h, s\<lparr>handles := map_option (\<lambda>hs. hs[INDEX s h :=
                  \<lparr>handle = h, handleSig = sig, handleParam = param\<rparr>]) (handles s),
                nextHandleNum := next\<rparr>))
             (create_search (numHandles s) (the (handles s)) (nextHandleNum s)))"

definition usbHandleDestroy :: "bool \<Rightarrow> u32 \<Rightarrow> 'p hdl_lib \<Rightarrow> hdl_status \<times> 'p hdl_lib" where
  "usbHandleDestroy take_ok h s =
     (if \<not> take_ok then (S_usbHandleLib_GENERAL_FAULT, s)
      else if handle (the (handles s) ! INDEX s h) \<noteq> h then (S_usbHandleLib_BAD_HANDLE, s)
      else (OK, s\<lparr>handles := map_option (\<lambda>hs. hs[INDEX s h := zero_descr]) (handles s)\<rparr>))"

definition usbHandleValidate :: "u32 \<Rightarrow> u32 \<Rightarrow> 'p hdl_lib \<Rightarrow> hdl_status \<times> 'p option" where
  "usbHandleValidate h sig s =
     (if initCount s = 0 then (S_usbHandleLib_NOT_INITIALIZED, None)
      else let d = the (handles s) ! INDEX s h
           in if handle d \<noteq> h \<or> handleSig d \<noteq> sig then (S_usbHandleLib_BAD_HANDLE, None)
              else (OK, handleParam d))"

section \<open>Invariant and abstraction\<close>

text \<open>
  An initialised library: the table has the announced number of slots and every slot is free
  or holds the handle with the number one above it. The size is bounded by the 32-bit
  address space.
\<close>

definition hdl_inv :: "'p hdl_lib \<Rightarrow> bool" where
  "hdl_inv s \<longleftrightarrow> 0 < initCount s \<and> 0 < numHandles s \<and> 12 * unat (numHandles s) < 2 ^ 32
     \<and> usedHandles s = 0 \<and> nextHandleNum s \<le> numHandles s
     \<and> (case handles s of None \<Rightarrow> False
        | Some hs \<Rightarrow> length hs = unat (numHandles s)
            \<and> (\<forall>i < length hs. handle (hs ! i) = 0 \<or> unat (handle (hs ! i)) = Suc i))"

definition hdl_lookup :: "'p hdl_lib \<Rightarrow> u32 \<Rightarrow> (u32 \<times> 'p option) option" where
  "hdl_lookup s h =
     (let d = the (handles s) ! INDEX s h
      in if h \<noteq> 0 \<and> handle d = h then Some (handleSig d, handleParam d) else None)"

definition hdl_free :: "'p hdl_lib \<Rightarrow> bool" where
  "hdl_free s \<longleftrightarrow> (\<exists>d \<in> set (the (handles s)). handle d = 0)"

lemma alloc_handles_fits: "12 * unat n < 2 ^ 32 \<Longrightarrow> alloc_handles n = replicate (unat n) zero_descr"
proof -
  assume "12 * unat n < 2 ^ 32"
  then have "unat (12 * n) = 12 * unat n" by (simp add: unat_word_ariths take_bit_nat_eq_self)
  then show ?thesis by (simp add: alloc_handles_def)
qed

lemma hdl_inv_init:
  assumes "initCount s = 0" and "12 * unat n < 2 ^ 32"
    and "usbHandleInitialize True True n s = (st, s')"
  shows "hdl_inv s' \<and> st = OK \<and> hdl_free s'"
proof -
  define k where "k = (if n = 0 then DEFAULT_HANDLES else n)"
  have k: "12 * unat k < 2 ^ 32" "0 < k" using assms(2) by (auto simp: k_def DEFAULT_HANDLES_def word_neq_0_conv)
  then have "unat k \<noteq> 0" by (metis unat_eq_zero word_not_simps(1))
  moreover have "s' = s\<lparr>initCount := 1, handles := Some (replicate (unat k) zero_descr), mutex := True,
      numHandles := k, usedHandles := 0, nextHandleNum := 0\<rparr>" "st = OK"
    using assms(1,3) by (auto simp: usbHandleInitialize_def Let_def k_def[symmetric] alloc_handles_fits[OF k(1)])
  ultimately show ?thesis using k by (simp add: hdl_inv_def hdl_free_def zero_descr_def)
qed

section \<open>The search\<close>

text \<open>The slot the search looks at next.\<close>

definition slot :: "u32 \<Rightarrow> nat" where
  "slot next = (if next = 0 then 0 else unat next - 1)"

lemma first_num_slot:
  assumes "next \<le> n" and "0 < n"
  shows "unat (first_num next) = Suc (slot next)" and "unat ((first_num next - 1) mod n) = slot next"
    and "slot next < unat n"
proof -
  have le: "unat next \<le> unat n" and pos: "0 < unat n"
    using assms by (simp_all add: word_le_nat_alt word_less_nat_alt)
  show f: "unat (first_num next) = Suc (slot next)"
    by (auto simp: first_num_def slot_def unat_gt_0)
  then have "unat (first_num next - 1) = slot next"
    by (metis Suc_neq_Zero diff_Suc_1 unat_0 unat_minus_one)
  moreover show "slot next < unat n" using le pos by (auto simp: slot_def)
  ultimately show "unat ((first_num next - 1) mod n) = slot next" by (simp add: unat_mod)
qed

lemma advance_slot:
  assumes "next \<le> n" and "0 < n" and "12 * unat n < 2 ^ 32"
  shows "advance n (first_num next) \<le> n" and "slot (advance n (first_num next)) = Suc (slot next) mod unat n"
proof -
  note f = first_num_slot[OF assms(1,2)]
  have u: "unat (first_num next + 1) = Suc (Suc (slot next))"
    using f(1,3) assms(3) by (simp add: unat_word_ariths take_bit_nat_eq_self)
  show "advance n (first_num next) \<le> n" by (auto simp: advance_def)
  show "slot (advance n (first_num next)) = Suc (slot next) mod unat n"
  proof (cases "first_num next + 1 > n")
    case True
    then have "Suc (slot next) = unat n" using f(3) u by (simp add: word_less_nat_alt)
    then show ?thesis using True by (simp add: advance_def slot_def)
  next
    case False
    then have "Suc (slot next) < unat n" using u by (simp add: word_less_nat_alt)
    moreover have "first_num next + 1 \<noteq> 0" using u by (metis nat.distinct(1) unat_0)
    ultimately show ?thesis using False u by (simp add: advance_def slot_def)
  qed
qed

lemma search_step:
  assumes "next \<le> n" and "0 < n"
  shows "create_search n hs next =
    (if handle (hs ! slot next) = 0 then Some (first_num next, advance n (first_num next))
     else create_search n hs (advance n (first_num next)))"
  by (subst create_search.simps) (simp add: Let_def first_num_slot[OF assms])

text \<open>With a free slot at distance \<open>d\<close> the search ends after at most \<open>d\<close> steps.\<close>

lemma search_finds:
  assumes "0 < n" and "12 * unat n < 2 ^ 32" and "j < unat n" and "handle (hs ! j) = 0"
  shows "next \<le> n \<Longrightarrow> (slot next + d) mod unat n = j \<Longrightarrow>
    \<exists>m. m \<le> n \<and> create_search n hs next = Some (first_num m, advance n (first_num m)) \<and> handle (hs ! slot m) = 0"
proof (induction d arbitrary: "next")
  case 0
  then have "slot next = j" using first_num_slot(3)[OF 0(1) assms(1)] by simp
  then show ?case using 0 assms(4) by (intro exI[of _ "next"]) (simp add: search_step[OF 0(1) assms(1)])
next
  case (Suc d)
  show ?case
  proof (cases "handle (hs ! slot next) = 0")
    case True
    then show ?thesis using Suc.prems(1) by (intro exI[of _ "next"]) (simp add: search_step[OF Suc.prems(1) assms(1)])
  next
    case False
    let ?m = "advance n (first_num next)"
    have m: "?m \<le> n" "slot ?m = Suc (slot next) mod unat n"
      using advance_slot[OF Suc.prems(1) assms(1,2)] by auto
    have "(slot ?m + d) mod unat n = j" using Suc.prems(2) m(2) by (simp add: mod_add_left_eq)
    from Suc.IH[OF m(1) this] False show ?thesis by (simp add: search_step[OF Suc.prems(1) assms(1)])
  qed
qed

lemma create_search_total:
  assumes "hdl_inv s" and "hdl_free s"
  obtains m where "m \<le> numHandles s"
    "create_search (numHandles s) (the (handles s)) (nextHandleNum s) =
       Some (first_num m, advance (numHandles s) (first_num m))"
    "handle (the (handles s) ! slot m) = 0"
proof -
  let ?n = "unat (numHandles s)" and ?hs = "the (handles s)" and ?c = "slot (nextHandleNum s)"
  obtain j where j: "j < length ?hs" "handle (?hs ! j) = 0"
    using assms(2) by (auto simp: hdl_free_def in_set_conv_nth)
  have inv: "0 < numHandles s" "12 * ?n < 2 ^ 32" "nextHandleNum s \<le> numHandles s" "length ?hs = ?n"
    using assms(1) by (auto simp: hdl_inv_def split: option.splits)
  have "?c < ?n" using first_num_slot(3)[OF inv(3,1)] .
  then have "(?c + (j + ?n - ?c)) mod ?n = j" using j inv(4) by simp
  then show thesis using search_finds[OF inv(1,2) _ j(2) inv(3)] j(1) inv(4) that by metis
qed

text \<open>Without a free slot it does not end.\<close>

lemma create_search_hangs:
  assumes inv: "0 < n" "12 * unat n < 2 ^ 32" and full: "\<And>i. i < unat n \<Longrightarrow> handle (hs ! i) \<noteq> 0" and "next \<le> n"
  shows "create_search n hs next = None"
proof (rule ccontr)
  assume "create_search n hs next \<noteq> None"
  then obtain r where r: "create_search n hs next = Some r" by blast
  have "\<not> (0 < n \<and> 12 * unat n < 2 ^ 32 \<and> (\<forall>i < unat n. handle (hs ! i) \<noteq> 0) \<and> next \<le> n)"
  proof (rule create_search.raw_induct[where P = "\<lambda>n hs next _.
      \<not> (0 < n \<and> 12 * unat n < 2 ^ 32 \<and> (\<forall>i < unat n. handle (hs ! i) \<noteq> 0) \<and> next \<le> n)", OF _ r])
    fix rec n hs "next" y
    assume ih: "\<And>n hs next y. rec n hs next = Some y \<Longrightarrow>
        \<not> (0 < n \<and> 12 * unat n < 2 ^ 32 \<and> (\<forall>i < unat n. handle (hs ! i) \<noteq> 0) \<and> next \<le> n)"
      and run: "(let h = first_num next
        in if handle (hs ! unat ((h - 1) mod n)) = 0 then Some (h, advance n h)
           else rec n hs (advance n h)) = Some y"
    show "\<not> (0 < n \<and> 12 * unat n < 2 ^ 32 \<and> (\<forall>i < unat n. handle (hs ! i) \<noteq> 0) \<and> next \<le> n)"
    proof
      assume a: "0 < n \<and> 12 * unat n < 2 ^ 32 \<and> (\<forall>i < unat n. handle (hs ! i) \<noteq> 0) \<and> next \<le> n"
      then have "rec n hs (advance n (first_num next)) = Some y"
        using run first_num_slot[of "next" n] by (auto simp: Let_def split: if_splits)
      from ih[OF this] a advance_slot(1)[of "next" n] show False by blast
    qed
  qed
  with assms show False by blast
qed

section \<open>Create, destroy and validate on the table\<close>

lemma hdl_inv_table:
  assumes "hdl_inv s"
  obtains hs where "handles s = Some hs" "length hs = unat (numHandles s)"
    "\<forall>i < length hs. handle (hs ! i) = 0 \<or> unat (handle (hs ! i)) = Suc i"
    "0 < numHandles s" "12 * unat (numHandles s) < 2 ^ 32" "nextHandleNum s \<le> numHandles s"
    "initCount s \<noteq> 0" "usedHandles s = 0"
  using assms that by (cases "handles s") (simp_all add: hdl_inv_def)

lemma INDEX_less: "0 < numHandles s \<Longrightarrow> INDEX s h < unat (numHandles s)"
  unfolding INDEX_def unat_mod by (rule mod_less_divisor) (simp add: word_less_nat_alt)

text \<open>The slot of a live handle is determined by its number, so two live handles never share one.\<close>

lemma INDEX_live:
  assumes "unat h = Suc i" and "i < unat (numHandles s)"
  shows "INDEX s h = i"
proof -
  have "unat (h - 1) = i" using assms(1) by (metis Suc_neq_Zero diff_Suc_1 unat_0 unat_minus_one)
  then show ?thesis using assms(2) by (simp add: INDEX_def unat_mod)
qed

text \<open>Storing a descriptor for \<open>h\<close>, or a cleared one, in the slot of \<open>h\<close> changes the map at \<open>h\<close> only.\<close>

lemma hdl_store:
  assumes inv: "hdl_inv s" and h: "unat h = Suc i" "i < unat (numHandles s)"
    and old: "handle (the (handles s) ! i) = 0 \<or> handle (the (handles s) ! i) = h"
    and d: "handle d = h \<or> handle d = 0" and nx: "nx \<le> numHandles s"
    and s': "s' = s\<lparr>handles := map_option (\<lambda>hs. hs[i := d]) (handles s), nextHandleNum := nx\<rparr>"
  shows "hdl_inv s'"
    and "hdl_lookup s' = (hdl_lookup s)(h := if handle d = h then Some (handleSig d, handleParam d) else None)"
proof -
  from inv obtain hs where hs: "handles s = Some hs" "length hs = unat (numHandles s)"
    "\<forall>j < length hs. handle (hs ! j) = 0 \<or> unat (handle (hs ! j)) = Suc j" "0 < numHandles s"
    by (elim hdl_inv_table)
  show "hdl_inv s'" using inv hs h d nx by (auto simp: hdl_inv_def s' nth_list_update)
  have h0: "h \<noteq> 0" using h(1) by auto
  have ih: "INDEX s' h = i" using INDEX_live[OF h] by (simp add: INDEX_def s')
  have ix: "INDEX s' g = INDEX s g" for g by (simp add: INDEX_def s')
  show "hdl_lookup s' = (hdl_lookup s)(h := if handle d = h then Some (handleSig d, handleParam d) else None)"
  proof
    fix g
    show "hdl_lookup s' g = ((hdl_lookup s)(h := if handle d = h then Some (handleSig d, handleParam d) else None)) g"
    proof (cases "g = h")
      case True
      then show ?thesis using ih h h0 hs(1,2) by (simp add: hdl_lookup_def Let_def s' INDEX_def)
    next
      case False
      show ?thesis
      proof (cases "INDEX s g = i")
        case True
        then show ?thesis using False d old h hs(1,2) ix[of g]
          by (auto simp: hdl_lookup_def Let_def s' INDEX_def nth_list_update)
      next
        case ne: False
        then show ?thesis using False hs(1) ix[of g] by (simp add: hdl_lookup_def Let_def s' INDEX_def)
      qed
    qed
  qed
qed

lemma usbHandleCreate_new:
  assumes inv: "hdl_inv s" and room: "hdl_free s"
  obtains h s' where "usbHandleCreate False True sig p s = Some (OK, Some h, s')"
    "hdl_inv s'" "h \<noteq> 0" "hdl_lookup s h = None" "hdl_lookup s' = (hdl_lookup s)(h \<mapsto> (sig, p))"
proof -
  from inv obtain hs where hs: "0 < numHandles s" "12 * unat (numHandles s) < 2 ^ 32"
    "initCount s \<noteq> 0" "usedHandles s = 0" by (elim hdl_inv_table)
  obtain m where m: "m \<le> numHandles s"
    "create_search (numHandles s) (the (handles s)) (nextHandleNum s) =
       Some (first_num m, advance (numHandles s) (first_num m))"
    "handle (the (handles s) ! slot m) = 0"
    using create_search_total[OF inv room] .
  note f = first_num_slot[OF m(1) hs(1)]
  let ?h = "first_num m" and ?nx = "advance (numHandles s) (first_num m)"
  let ?d = "\<lparr>handle = ?h, handleSig = sig, handleParam = p\<rparr>"
  let ?s = "s\<lparr>handles := map_option (\<lambda>hs. hs[slot m := ?d]) (handles s), nextHandleNum := ?nx\<rparr>"
  have ix: "INDEX s ?h = slot m" using INDEX_live[OF f(1,3)] .
  have "?h \<noteq> 0" using f(1) by auto
  moreover have "hdl_lookup s ?h = None" using ix m(3) by (auto simp: hdl_lookup_def)
  moreover have "usbHandleCreate False True sig p s = Some (OK, Some ?h, ?s)"
    using hs m(2) ix by (simp add: usbHandleCreate_def)
  moreover have "hdl_inv ?s" "hdl_lookup ?s = (hdl_lookup s)(?h \<mapsto> (sig, p))"
    using hdl_store[OF inv f(1,3) _ _ advance_slot(1)[OF m(1) hs(1,2)] refl, of ?d] m(3) by simp_all
  ultimately show thesis using that by blast
qed

lemma usbHandleCreate_stuck:
  assumes "hdl_inv s" and "\<not> hdl_free s"
  shows "usbHandleCreate False True sig p s = None"
proof -
  from assms(1) obtain hs where hs: "handles s = Some hs" "length hs = unat (numHandles s)"
    "0 < numHandles s" "12 * unat (numHandles s) < 2 ^ 32" "nextHandleNum s \<le> numHandles s"
    "initCount s \<noteq> 0" "usedHandles s = 0" by (elim hdl_inv_table)
  have "create_search (numHandles s) hs (nextHandleNum s) = None"
    using assms(2) hs(1,2) by (intro create_search_hangs hs) (auto simp: hdl_free_def)
  then show ?thesis using hs by (simp add: usbHandleCreate_def)
qed

lemma usbHandleDestroy_live:
  assumes inv: "hdl_inv s" and live: "hdl_lookup s h = Some v"
  obtains s' where "usbHandleDestroy True h s = (OK, s')" "hdl_inv s'" "hdl_lookup s' = (hdl_lookup s)(h := None)"
proof -
  from inv obtain hs where hs: "handles s = Some hs" "length hs = unat (numHandles s)"
    "\<forall>i < length hs. handle (hs ! i) = 0 \<or> unat (handle (hs ! i)) = Suc i"
    "0 < numHandles s" "nextHandleNum s \<le> numHandles s" by (elim hdl_inv_table)
  let ?i = "INDEX s h"
  let ?s = "s\<lparr>handles := map_option (\<lambda>hs. hs[?i := zero_descr]) (handles s), nextHandleNum := nextHandleNum s\<rparr>"
  have h: "h \<noteq> 0" "handle (hs ! ?i) = h" using live hs(1) by (auto simp: hdl_lookup_def Let_def split: if_splits)
  have i: "?i < unat (numHandles s)" using INDEX_less[OF hs(4)] .
  then have u: "unat h = Suc ?i" using hs(2) hs(3)[rule_format, of ?i] h by auto
  note st = hdl_store[OF inv u i _ _ hs(5) refl, of zero_descr]
  have "usbHandleDestroy True h s = (OK, ?s)" using h hs(1) by (simp add: usbHandleDestroy_def)
  moreover have "hdl_inv ?s" "hdl_lookup ?s = (hdl_lookup s)(h := None)"
    using st h hs(1) by (simp_all add: zero_descr_def)
  ultimately show thesis using that by blast
qed

lemma usbHandleDestroy_dead:
  "hdl_lookup s h = None \<Longrightarrow> h \<noteq> 0 \<Longrightarrow> usbHandleDestroy True h s = (S_usbHandleLib_BAD_HANDLE, s)"
  by (auto simp: hdl_lookup_def usbHandleDestroy_def Let_def split: if_splits)

lemma usbHandleValidate_iff:
  assumes "hdl_inv s" and "h \<noteq> 0"
  shows "usbHandleValidate h sig s = (OK, p) \<longleftrightarrow> hdl_lookup s h = Some (sig, p)"
  using assms by (auto simp: hdl_inv_def usbHandleValidate_def hdl_lookup_def Let_def)

section \<open>The interface\<close>

text \<open>
  A session of clients: creations and destructions in any order, a refused destruction leaving
  no trace. \<open>hdl_run\<close> plays them and returns what happened; \<open>replay\<close> is the abstract table, a
  finite map, and \<open>fresh_handles\<close> that no creation returned a handle that was live.
\<close>

datatype 'v hdl_op = Create 'v | Destroy u32

datatype 'v hdl_event = Created u32 'v | Destroyed u32

fun replay :: "'v hdl_event list \<Rightarrow> (u32 \<rightharpoonup> 'v) \<Rightarrow> (u32 \<rightharpoonup> 'v)" where
  "replay [] m = m"
| "replay (Created h v # es) m = replay es (m(h \<mapsto> v))"
| "replay (Destroyed h # es) m = replay es (m(h := None))"

fun fresh_handles :: "'v hdl_event list \<Rightarrow> (u32 \<rightharpoonup> 'v) \<Rightarrow> bool" where
  "fresh_handles [] m \<longleftrightarrow> True"
| "fresh_handles (Created h v # es) m \<longleftrightarrow> h \<noteq> 0 \<and> m h = None \<and> fresh_handles es (m(h \<mapsto> v))"
| "fresh_handles (Destroyed h # es) m \<longleftrightarrow> m h \<noteq> None \<and> fresh_handles es (m(h := None))"

fun hdl_run :: "('v \<Rightarrow> 's \<Rightarrow> (u32 \<times> 's) option) \<Rightarrow> (u32 \<Rightarrow> 's \<Rightarrow> 's option)
    \<Rightarrow> 'v hdl_op list \<Rightarrow> 's \<Rightarrow> ('v hdl_event list \<times> 's) option" where
  "hdl_run create destroy [] s = Some ([], s)"
| "hdl_run create destroy (Create v # ops) s =
     (case create v s of None \<Rightarrow> None
      | Some (h, s1) \<Rightarrow> map_option (\<lambda>(es, s2). (Created h v # es, s2)) (hdl_run create destroy ops s1))"
| "hdl_run create destroy (Destroy h # ops) s =
     (if h = 0 then None
      else case destroy h s of None \<Rightarrow> hdl_run create destroy ops s
      | Some s1 \<Rightarrow> map_option (\<lambda>(es, s2). (Destroyed h # es, s2)) (hdl_run create destroy ops s1))"

locale handle_table =
  fixes inv :: "'s \<Rightarrow> bool" and lookup :: "'s \<Rightarrow> u32 \<rightharpoonup> 'v" and room :: "'s \<Rightarrow> bool"
    and create :: "'v \<Rightarrow> 's \<Rightarrow> (u32 \<times> 's) option" and destroy :: "u32 \<Rightarrow> 's \<Rightarrow> 's option"
  assumes create_none: "inv s \<Longrightarrow> create v s = None \<longleftrightarrow> \<not> room s"
    and create_some: "inv s \<Longrightarrow> create v s = Some (h, s') \<Longrightarrow>
      inv s' \<and> h \<noteq> 0 \<and> lookup s h = None \<and> lookup s' = (lookup s)(h \<mapsto> v)"
    and destroy_none: "inv s \<Longrightarrow> h \<noteq> 0 \<Longrightarrow> destroy h s = None \<longleftrightarrow> lookup s h = None"
    and destroy_some: "inv s \<Longrightarrow> h \<noteq> 0 \<Longrightarrow> destroy h s = Some s' \<Longrightarrow> inv s' \<and> lookup s' = (lookup s)(h := None)"
begin

lemma run_refines:
  "inv s \<Longrightarrow> hdl_run create destroy ops s = Some (es, s') \<Longrightarrow>
    inv s' \<and> fresh_handles es (lookup s) \<and> lookup s' = replay es (lookup s)"
proof (induction ops arbitrary: s es)
  case (Cons a ops)
  show ?case
  proof (cases a)
    case (Create v)
    with Cons.prems(2) obtain h s1 es1 where c: "create v s = Some (h, s1)" "es = Created h v # es1"
      "hdl_run create destroy ops s1 = Some (es1, s')" by (auto split: option.splits)
    have n: "inv s1" "h \<noteq> 0" "lookup s h = None" "lookup s1 = (lookup s)(h \<mapsto> v)"
      using create_some[OF Cons.prems(1) c(1)] by simp_all
    from Cons.IH[OF n(1) c(3)] show ?thesis unfolding n(4) c(2) using n(2,3) by (simp del: fun_upd_apply)
  next
    case (Destroy h)
    then have "h \<noteq> 0" using Cons.prems(2) by auto
    show ?thesis
    proof (cases "destroy h s")
      case None
      then show ?thesis using Destroy Cons \<open>h \<noteq> 0\<close> by simp
    next
      case (Some s1)
      with Destroy Cons.prems(2) \<open>h \<noteq> 0\<close> obtain es1 where e: "es = Destroyed h # es1"
        "hdl_run create destroy ops s1 = Some (es1, s')" by auto
      have n: "inv s1" "lookup s1 = (lookup s)(h := None)" "lookup s h \<noteq> None"
        using destroy_some[OF Cons.prems(1) \<open>h \<noteq> 0\<close> Some] destroy_none[OF Cons.prems(1) \<open>h \<noteq> 0\<close>] Some
        by simp_all
      from Cons.IH[OF n(1) e(2)] show ?thesis unfolding n(2) e(1) using n(3) by (simp del: fun_upd_apply)
    qed
  qed
qed simp

lemma create_destroy:
  assumes "inv s" and "create v s = Some (h, s1)"
  shows "\<exists>s2. destroy h s1 = Some s2 \<and> lookup s2 = lookup s \<and> inv s2"
proof -
  have c: "inv s1" "h \<noteq> 0" "lookup s h = None" "lookup s1 = (lookup s)(h \<mapsto> v)"
    using create_some[OF assms] by simp_all
  then obtain s2 where "destroy h s1 = Some s2" using destroy_none[OF c(1,2)] by auto
  with destroy_some[OF c(1,2)] c show ?thesis by (simp add: fun_upd_idem)
qed

end

definition hdl_create :: "u32 \<times> 'p option \<Rightarrow> 'p hdl_lib \<Rightarrow> (u32 \<times> 'p hdl_lib) option" where
  "hdl_create v s = (case usbHandleCreate False True (fst v) (snd v) s of
     Some (st, Some h, s') \<Rightarrow> if st = OK then Some (h, s') else None | _ \<Rightarrow> None)"

definition hdl_destroy :: "u32 \<Rightarrow> 'p hdl_lib \<Rightarrow> 'p hdl_lib option" where
  "hdl_destroy h s = (case usbHandleDestroy True h s of (st, s') \<Rightarrow> if st = OK then Some s' else None)"

interpretation usb_handles: handle_table hdl_inv hdl_lookup hdl_free hdl_create hdl_destroy
proof
  fix s s' :: "'p hdl_lib" and v :: "u32 \<times> 'p option" and h
  assume inv: "hdl_inv s"
  have new: "\<exists>h s'. hdl_create v s = Some (h, s') \<and> hdl_inv s' \<and> h \<noteq> 0 \<and> hdl_lookup s h = None
      \<and> hdl_lookup s' = (hdl_lookup s)(h \<mapsto> v)" if "hdl_free s"
    using usbHandleCreate_new[OF inv that, of "fst v" "snd v"] by (fastforce simp: hdl_create_def)
  have stuck: "hdl_create v s = None" if "\<not> hdl_free s"
    using usbHandleCreate_stuck[OF inv that] by (simp add: hdl_create_def)
  show "hdl_create v s = None \<longleftrightarrow> \<not> hdl_free s" using new stuck by fastforce
  show "hdl_inv s' \<and> h \<noteq> 0 \<and> hdl_lookup s h = None \<and> hdl_lookup s' = (hdl_lookup s)(h \<mapsto> v)"
    if "hdl_create v s = Some (h, s')" using that new stuck by (cases "hdl_free s") auto
  have live: "\<exists>s'. hdl_destroy h s = Some s' \<and> hdl_inv s' \<and> hdl_lookup s' = (hdl_lookup s)(h := None)"
    if "hdl_lookup s h = Some w" for w
    using usbHandleDestroy_live[OF inv that] by (fastforce simp: hdl_destroy_def)
  have dead: "hdl_destroy h s = None" if "h \<noteq> 0" "hdl_lookup s h = None"
    using usbHandleDestroy_dead[OF that(2,1)] by (simp add: hdl_destroy_def)
  show "hdl_destroy h s = None \<longleftrightarrow> hdl_lookup s h = None" if "h \<noteq> 0"
    using that live dead by (cases "hdl_lookup s h") auto
  show "hdl_inv s' \<and> hdl_lookup s' = (hdl_lookup s)(h := None)" if "h \<noteq> 0" "hdl_destroy h s = Some s'"
    using that live dead by (cases "hdl_lookup s h") auto
qed

section \<open>Properties\<close>

text \<open>
  C36: Whatever sequence of creations and destructions the clients of an initialised library
  perform, the table is the finite map obtained by replaying what happened: no creation
  returns handle 0 or a handle that is live, and afterwards a handle validates under a
  signature, giving a parameter, exactly if that is what the map holds for it.
\<close>

theorem usb_handles_refine_map:
  assumes "hdl_inv s" and "hdl_run hdl_create hdl_destroy ops s = Some (es, s')"
  shows "hdl_inv s' \<and> fresh_handles es (hdl_lookup s) \<and> (\<forall>h sig p. h \<noteq> 0 \<longrightarrow>
    usbHandleValidate h sig s' = (OK, p) \<longleftrightarrow> replay es (hdl_lookup s) h = Some (sig, p))"
proof -
  have r: "hdl_inv s'" "fresh_handles es (hdl_lookup s)" "hdl_lookup s' = replay es (hdl_lookup s)"
    using usb_handles.run_refines[OF assms] by simp_all
  show ?thesis using r(1,2) usbHandleValidate_iff[OF r(1)] unfolding r(3) by blast
qed

definition demo_lib :: "nat hdl_lib" where
  "demo_lib = snd (usbHandleInitialize True True 2
     \<lparr>initCount = 0, handles = None, numHandles = 0, usedHandles = 0, nextHandleNum = 0, mutex = False\<rparr>)"

lemma demo_lib_eq: "demo_lib = \<lparr>initCount = 1, handles = Some [zero_descr, zero_descr], numHandles = 2,
    usedHandles = 0, nextHandleNum = 0, mutex = True\<rparr>"
proof -
  have "alloc_handles 2 = ([zero_descr, zero_descr] :: nat hdl_descr list)"
    by (subst alloc_handles_fits) (simp, simp, simp add: numeral_2_eq_2)
  then show ?thesis by (simp add: demo_lib_def usbHandleInitialize_def Let_def)
qed

lemma demo_lib_inv: "hdl_inv demo_lib"
  by (simp add: demo_lib_eq hdl_inv_def zero_descr_def All_less_Suc)

definition demo_slot :: "u32 \<Rightarrow> nat hdl_descr" where
  "demo_slot h = \<lparr>handle = h, handleSig = 17, handleParam = Some 5\<rparr>"

lemma demo_create1: "hdl_create (17, Some 5) demo_lib =
    Some (1, demo_lib\<lparr>handles := Some [demo_slot 1, zero_descr], nextHandleNum := 2\<rparr>)"
  by (simp add: demo_lib_eq hdl_create_def usbHandleCreate_def create_search.simps first_num_def advance_def
      INDEX_def zero_descr_def demo_slot_def)

lemma demo_create2: "hdl_create (17, Some 5) (demo_lib\<lparr>handles := Some [demo_slot 1, zero_descr], nextHandleNum := 2\<rparr>) =
    Some (2, demo_lib\<lparr>handles := Some [demo_slot 1, demo_slot 2], nextHandleNum := 0\<rparr>)"
  by (simp add: demo_lib_eq hdl_create_def usbHandleCreate_def create_search.simps first_num_def advance_def
      INDEX_def zero_descr_def demo_slot_def)

lemma demo_destroy1: "hdl_destroy 1 (demo_lib\<lparr>handles := Some [demo_slot 1, demo_slot 2], nextHandleNum := 0\<rparr>) =
    Some (demo_lib\<lparr>handles := Some [zero_descr, demo_slot 2], nextHandleNum := 0\<rparr>)"
  by (simp add: demo_lib_eq hdl_destroy_def usbHandleDestroy_def INDEX_def demo_slot_def)

lemma demo_run: "hdl_run hdl_create hdl_destroy [Create (17, Some 5), Create (17, Some 5), Destroy 1] demo_lib =
    Some ([Created 1 (17, Some 5), Created 2 (17, Some 5), Destroyed 1],
      demo_lib\<lparr>handles := Some [zero_descr, demo_slot 2], nextHandleNum := 0\<rparr>)"
  by (simp add: demo_create1 demo_create2 demo_destroy1)

theorem usb_handles_refine_map_witness:
  "usbHandleValidate 2 17 (demo_lib\<lparr>handles := Some [zero_descr, demo_slot 2], nextHandleNum := 0\<rparr>) = (OK, Some 5)"
  using usb_handles_refine_map[OF demo_lib_inv demo_run] by simp

text \<open>
  While a slot is free, \<open>usbHandleCreate\<close> ends its search and succeeds: the handle it
  returns was not live, validates with the caller's signature and yields the caller's
  parameter, and every other handle keeps its meaning.
\<close>

theorem usbHandleCreate_succeeds:
  assumes "hdl_inv s" and "hdl_free s"
  shows "\<exists>h s'. usbHandleCreate False True sig p s = Some (OK, Some h, s') \<and> hdl_inv s'
    \<and> hdl_lookup s h = None \<and> usbHandleValidate h sig s' = (OK, p)
    \<and> (\<forall>g. g \<noteq> h \<longrightarrow> hdl_lookup s' g = hdl_lookup s g)"
proof -
  obtain h s' where c: "usbHandleCreate False True sig p s = Some (OK, Some h, s')"
    "hdl_inv s'" "h \<noteq> 0" "hdl_lookup s h = None" "hdl_lookup s' = (hdl_lookup s)(h \<mapsto> (sig, p))"
    using usbHandleCreate_new[OF assms] .
  then show ?thesis using usbHandleValidate_iff[OF c(2,3), of sig p] by auto
qed

theorem usbHandleCreate_succeeds_witness:
  "\<exists>h s'. usbHandleCreate False True 17 (Some 5) demo_lib = Some (OK, Some h, s') \<and> usbHandleValidate h 17 s' = (OK, Some 5)"
proof -
  have "hdl_free demo_lib" by (simp add: demo_lib_eq hdl_free_def zero_descr_def)
  from usbHandleCreate_succeeds[OF demo_lib_inv this, of 17 "Some 5"] show ?thesis by blast
qed

text \<open>
  When every slot is taken, \<open>usbHandleCreate\<close> never returns: \<open>usedHandles\<close> is not
  incremented by any creation, so the test that should answer
  \<^verbatim>\<open>S_usbHandleLib_OUT_OF_HANDLES\<close> does not fire and the search goes round the table forever,
  with the mutex taken.
\<close>

theorem usbHandleCreate_full_hangs:
  assumes "hdl_inv s" and "\<not> hdl_free s"
  shows "usbHandleCreate False True sig p s = None"
  using usbHandleCreate_stuck[OF assms] .

theorem usbHandleCreate_full_hangs_witness:
  "usbHandleCreate False True 17 None (demo_lib\<lparr>handles := Some [demo_slot 1, demo_slot 2], nextHandleNum := 0\<rparr>) = None"
proof (rule usbHandleCreate_full_hangs)
  show "hdl_inv (demo_lib\<lparr>handles := Some [demo_slot 1, demo_slot 2], nextHandleNum := 0\<rparr>)"
    by (simp add: demo_lib_eq hdl_inv_def demo_slot_def All_less_Suc)
  show "\<not> hdl_free (demo_lib\<lparr>handles := Some [demo_slot 1, demo_slot 2], nextHandleNum := 0\<rparr>)"
    by (simp add: hdl_free_def demo_slot_def)
qed

text \<open>
  Initialisation nests: once initialised, a further \<open>usbHandleInitialize\<close> followed by
  \<open>usbHandleShutdown\<close> changes nothing, whatever size the nested caller asks for and whatever
  allocation would have done; the shutdown that matches the first initialisation frees the
  table, and from then on creation and validation answer \<^verbatim>\<open>NOT_INITIALIZED\<close>.
\<close>

theorem usbHandle_nesting:
  assumes "0 < initCount s"
  shows "(case usbHandleInitialize a b n s of (st, s1) \<Rightarrow> st = OK \<and> usbHandleShutdown s1 = (OK, s))
    \<and> (initCount s = 1 \<longrightarrow> (case usbHandleShutdown s of (st, s0) \<Rightarrow> handles s0 = None \<and> \<not> mutex s0
        \<and> usbHandleValidate h sig s0 = (S_usbHandleLib_NOT_INITIALIZED, None)
        \<and> usbHandleCreate pnull t sig p s0 = Some (S_usbHandleLib_NOT_INITIALIZED, None, s0)))"
  using assms by (simp add: usbHandleInitialize_def usbHandleShutdown_def Let_def usbHandleValidate_def usbHandleCreate_def)

theorem usbHandle_nesting_witness:
  "usbHandleValidate 1 17 (snd (usbHandleShutdown demo_lib)) = (S_usbHandleLib_NOT_INITIALIZED, None)"
  using usbHandle_nesting[of demo_lib False False 0 1 17 False True None]
  by (simp add: demo_lib_eq split: prod.splits)

end
