(* ===== verification/Usb_Targ.thy ===== *)
theory Usb_Targ
  imports Usb_Handle "HOL-Library.Monad_Syntax"
begin

text \<open>
  The USB target library (\<^verbatim>\<open>usbTargLib.c\<close>) and its interface to a target controller driver
  (\<^verbatim>\<open>usbTcdLib.c\<close>). Channels and pipes are objects in memory, named by numbers; their handles
  are those of \<open>Usb_Handle\<close>. The sequences kept with \<^verbatim>\<open>usbListLib\<close> are lists.

  The driver and the application are parameters, the record \<open>targ_env\<close>: the driver is a function
  of the request and its own state \<open>'d\<close>, to which the table of endpoints belongs; a callback of the
  application is a function of its arguments and of the whole state, so that it may call the library.
  A call that does not return (it waits for ever, or follows a null or stale pointer) is \<open>None\<close>.
\<close>

section \<open>Data\<close>

type_synonym tcd_id = nat
type_synonym pipe_id = nat

datatype targ_obj = Tcd_obj tcd_id | Pipe_obj pipe_id

text \<open>The three request packets inside a channel, and those of the application.\<close>

datatype erp_id = Setup_erp tcd_id | Data_erp tcd_id | Status_erp tcd_id | User_erp nat

datatype targ_status =
    OK | ERROR
  | S_usbTargLib_BAD_PARAM | S_usbTargLib_BAD_HANDLE | S_usbTargLib_OUT_OF_MEMORY | S_usbTargLib_OUT_OF_RESOURCES
  | S_usbTargLib_NOT_IMPLEMENTED | S_usbTargLib_GENERAL_FAULT | S_usbTargLib_NOT_INITIALIZED
  | S_usbTargLib_CANNOT_CANCEL | S_usbTargLib_TCD_FAULT | S_usbTargLib_ENDPOINT_IN_USE | S_usbTargLib_APP_FAULT

datatype erp_result = RESULT_OK | S_usbTcdLib_ERP_CANCELED | S_usbTcdLib_fault nat

datatype erp_callback = Setup_callback | Response_callback | Status_callback | User_callback

datatype bfr_ptr = Null_bfr | Setup_bfr | Data_bfr | User_bfr nat

record usb_bfr =
  b_pid :: u16
  pBfr :: bfr_ptr
  bfrLen :: u32
  actLen :: u32

record usb_erp =
  targPtr :: "pipe_id option"
  userPtr :: "tcd_id option"
  erp_result :: erp_result
  userCallback :: "erp_callback option"
  erp_endpointId :: u16
  erp_transferType :: u16
  erp_dataToggle :: u16
  bfrList :: "usb_bfr list"

definition zero_erp :: usb_erp where
  "zero_erp = \<lparr>targPtr = None, userPtr = None, erp_result = RESULT_OK, userCallback = None, erp_endpointId = 0,
     erp_transferType = 0, erp_dataToggle = 0, bfrList = []\<rparr>"

text \<open>The fields of an endpoint's entry that the library reads.\<close>

record endpoint_info =
  endpointId :: u16
  ep_flags :: u16
  endpointNum :: u16
  transferType :: u16
  direction :: u16
  maxPacketSize :: u16

record targ_tcd =
  targChannel :: u32
  deviceAddress :: u16
  pCallbacks :: nat
  attached :: bool
  speed :: u16
  tcd_pipes :: "pipe_id list"
  controlPipe :: u32
  setupBfr :: "u8 list"
  setupErpPending :: bool
  dataBfr :: "u8 list"
  dataErpPending :: bool
  statusErpPending :: bool

record targ_pipe =
  pipeHandle :: u32
  pTcd :: tcd_id
  p_configuration :: u16
  p_interface :: u16
  pEndpoint :: "nat option"
  pEndpoint2 :: "nat option"
  dataToggle :: u16
  erps :: "erp_id list"
  erpBeingDeleted :: "erp_id option"
  erpDeleted :: bool

text \<open>The static variables, memory, the handle library, and the states of driver and application.\<close>

record ('d, 'a) targ =
  targ_initCount :: u16
  ossInitialized :: bool
  handleInitialized :: bool
  targMutex :: bool
  tcdList :: "tcd_id list"
  tcds :: "tcd_id \<Rightarrow> targ_tcd option"
  pipes :: "pipe_id \<Rightarrow> targ_pipe option"
  erp_mem :: "erp_id \<Rightarrow> usb_erp"
  hdls :: "targ_obj hdl_lib"
  oom :: "nat \<Rightarrow> bool"
  nalloc :: nat
  errno :: targ_status
  drv :: 'd
  app :: 'a

definition TARG_TCD_SIG :: u32 where "TARG_TCD_SIG = 0xaaaa00cd"
definition TARG_PIPE_SIG :: u32 where "TARG_PIPE_SIG = 0xaaaa000e"
definition ANY_CONFIGURATION :: u16 where "ANY_CONFIGURATION = 0xffff"
definition ANY_INTERFACE :: u16 where "ANY_INTERFACE = 0xffff"
definition ANY_ENDPOINT :: u16 where "ANY_ENDPOINT = 0xffff"
definition NO_CONFIGURATION :: u16 where "NO_CONFIGURATION = 0xfffe"
definition NO_INTERFACE :: u16 where "NO_INTERFACE = 0xfffe"
definition USB_MAX_DESCR_LEN :: nat where "USB_MAX_DESCR_LEN = 255"
definition USB_MAX_ENDPOINT_NUM :: u16 where "USB_MAX_ENDPOINT_NUM = 15"
definition USB_DATA0 :: u16 where "USB_DATA0 = 0"
definition USB_DATA1 :: u16 where "USB_DATA1 = 1"
definition USB_PID_SETUP :: u16 where "USB_PID_SETUP = 0x2d"
definition USB_PID_OUT :: u16 where "USB_PID_OUT = 0xe1"
definition USB_PID_IN :: u16 where "USB_PID_IN = 0x69"
definition USB_XFRTYPE_CONTROL :: u16 where "USB_XFRTYPE_CONTROL = 1"
definition USB_XFRTYPE_ISOCH :: u16 where "USB_XFRTYPE_ISOCH = 2"
definition USB_XFRTYPE_INTERRUPT :: u16 where "USB_XFRTYPE_INTERRUPT = 3"
definition USB_XFRTYPE_BULK :: u16 where "USB_XFRTYPE_BULK = 4"
definition USB_DIR_OUT :: u16 where "USB_DIR_OUT = 1"
definition USB_DIR_IN :: u16 where "USB_DIR_IN = 2"
definition USB_DIR_INOUT :: u16 where "USB_DIR_INOUT = 3"
definition TCD_ENDPOINT_IN_OK :: u16 where "TCD_ENDPOINT_IN_OK = 0x0001"
definition TCD_ENDPOINT_OUT_OK :: u16 where "TCD_ENDPOINT_OUT_OK = 0x0002"
definition TCD_ENDPOINT_CTRL_OK :: u16 where "TCD_ENDPOINT_CTRL_OK = 0x0010"
definition TCD_ENDPOINT_BULK_OK :: u16 where "TCD_ENDPOINT_BULK_OK = 0x0020"
definition TCD_ENDPOINT_INT_OK :: u16 where "TCD_ENDPOINT_INT_OK = 0x0040"
definition TCD_ENDPOINT_ISOCH_OK :: u16 where "TCD_ENDPOINT_ISOCH_OK = 0x0080"
definition TCD_ENDPOINT_IN_USE :: u16 where "TCD_ENDPOINT_IN_USE = 0x0100"
definition TCD_ENDPOINT_STALL :: u16 where "TCD_ENDPOINT_STALL = 1"
definition TCD_ENDPOINT_DATA0 :: u16 where "TCD_ENDPOINT_DATA0 = 4"
definition TCD_MNGMT_ATTACH :: u16 where "TCD_MNGMT_ATTACH = 1"
definition TCD_MNGMT_DETACH :: u16 where "TCD_MNGMT_DETACH = 2"
definition TCD_MNGMT_VBUS_DETECT :: u16 where "TCD_MNGMT_VBUS_DETECT = 3"
definition TCD_MNGMT_VBUS_LOST :: u16 where "TCD_MNGMT_VBUS_LOST = 4"
definition TCD_MNGMT_BUS_RESET :: u16 where "TCD_MNGMT_BUS_RESET = 5"
definition TCD_MNGMT_SUSPEND :: u16 where "TCD_MNGMT_SUSPEND = 6"
definition TCD_MNGMT_RESUME :: u16 where "TCD_MNGMT_RESUME = 7"

text \<open>Requests to the driver (\<^verbatim>\<open>TRB\<close>). The driver reads the packet it is given.\<close>

datatype trb =
    Trb_attach | Trb_detach | Trb_enable | Trb_disable
  | Trb_address_set u16
  | Trb_signal_resume
  | Trb_endpoint_assign u16 u16 u16 u16 u16 u16
  | Trb_endpoint_release u16
  | Trb_endpoint_state_set u16 u16
  | Trb_current_frame_get
  | Trb_erp_submit erp_id usb_erp
  | Trb_erp_cancel erp_id

text \<open>
  The callbacks of an application, \<open>None\<close> for \<^verbatim>\<open>NULL\<close>. What a callback stores in the buffer it is given is its
  result, beside its status.
\<close>

type_synonym ('d, 'a) targ_call = "('d, 'a) targ \<Rightarrow> targ_status \<times> ('d, 'a) targ"
type_synonym ('d, 'a, 'r) answer = "('d, 'a) targ \<Rightarrow> targ_status \<times> 'r \<times> ('d, 'a) targ"

record ('d, 'a) targ_callbacks =
  mngmt_func :: "(u32 \<Rightarrow> u16 \<Rightarrow> ('d, 'a) targ_call) option"
  featureClear :: "(u32 \<Rightarrow> u8 \<Rightarrow> u16 \<Rightarrow> u16 \<Rightarrow> ('d, 'a) targ_call) option"
  featureSet :: "(u32 \<Rightarrow> u8 \<Rightarrow> u16 \<Rightarrow> u16 \<Rightarrow> ('d, 'a) targ_call) option"
  configurationGet :: "(u32 \<Rightarrow> ('d, 'a, u8) answer) option"
  configurationSet :: "(u32 \<Rightarrow> u8 \<Rightarrow> ('d, 'a) targ_call) option"
  descriptorGet :: "(u32 \<Rightarrow> u8 \<Rightarrow> u8 \<Rightarrow> u8 \<Rightarrow> u16 \<Rightarrow> u16 \<Rightarrow> ('d, 'a, u8 list \<times> u16) answer) option"
  descriptorSet :: "(u32 \<Rightarrow> u8 \<Rightarrow> u8 \<Rightarrow> u8 \<Rightarrow> u16 \<Rightarrow> u16 \<Rightarrow> ('d, 'a) targ_call) option"
  interfaceGet :: "(u32 \<Rightarrow> u16 \<Rightarrow> ('d, 'a, u8) answer) option"
  interfaceSet :: "(u32 \<Rightarrow> u16 \<Rightarrow> u8 \<Rightarrow> ('d, 'a) targ_call) option"
  statusGet :: "(u32 \<Rightarrow> u8 \<Rightarrow> u16 \<Rightarrow> u16 \<Rightarrow> ('d, 'a, u8 list \<times> u16) answer) option"
  addressSet :: "(u32 \<Rightarrow> u16 \<Rightarrow> ('d, 'a) targ_call) option"
  synchFrameGet :: "(u32 \<Rightarrow> u16 \<Rightarrow> ('d, 'a, u8 list) answer) option"
  vendorSpecific :: "(u32 \<Rightarrow> u8 \<Rightarrow> u8 \<Rightarrow> u16 \<Rightarrow> u16 \<Rightarrow> u16 \<Rightarrow> ('d, 'a) targ_call) option"

text \<open>
  The driver's entry point, the table of endpoints of a channel (\<open>None\<close> for \<^verbatim>\<open>NULL\<close>), what it returns with an attach and
  a frame number, and whether it reports a cancelled packet from within the call; the tables of
  callbacks, and the application's own callbacks on completed packets.
\<close>

record ('d, 'a) targ_env =
  exec :: "tcd_id \<Rightarrow> trb \<Rightarrow> 'd \<Rightarrow> bool \<times> 'd"
  table :: "tcd_id \<Rightarrow> 'd \<Rightarrow> endpoint_info list option"
  bus_speed :: "tcd_id \<Rightarrow> 'd \<Rightarrow> u16"
  frame_no :: "tcd_id \<Rightarrow> 'd \<Rightarrow> u16"
  calls_back :: "tcd_id \<Rightarrow> erp_id \<Rightarrow> 'd \<Rightarrow> bool"
  callback_tables :: "nat \<Rightarrow> ('d, 'a) targ_callbacks"
  user_callback :: "erp_id \<Rightarrow> ('d, 'a) targ \<Rightarrow> ('d, 'a) targ"

definition on_tcd :: "tcd_id \<Rightarrow> (targ_tcd \<Rightarrow> targ_tcd) \<Rightarrow> ('d, 'a) targ \<Rightarrow> ('d, 'a) targ" where
  "on_tcd i f st = st\<lparr>tcds := (tcds st)(i := map_option f (tcds st i))\<rparr>"

definition on_pipe :: "pipe_id \<Rightarrow> (targ_pipe \<Rightarrow> targ_pipe) \<Rightarrow> ('d, 'a) targ \<Rightarrow> ('d, 'a) targ" where
  "on_pipe p f st = st\<lparr>pipes := (pipes st)(p := map_option f (pipes st p))\<rparr>"

definition on_erp :: "erp_id \<Rightarrow> (usb_erp \<Rightarrow> usb_erp) \<Rightarrow> ('d, 'a) targ \<Rightarrow> ('d, 'a) targ" where
  "on_erp e f st = st\<lparr>erp_mem := (erp_mem st)(e := f (erp_mem st e))\<rparr>"

definition ossStatus :: "targ_status \<Rightarrow> ('d, 'a) targ \<Rightarrow> targ_status \<times> ('d, 'a) targ" where
  "ossStatus s st = (if s = OK then (OK, st) else (ERROR, st\<lparr>errno := s\<rparr>))"

section \<open>The driver interface\<close>

definition usbTcd :: "('d, 'a) targ_env \<Rightarrow> tcd_id \<Rightarrow> trb \<Rightarrow> ('d, 'a) targ \<Rightarrow> (bool \<times> ('d, 'a) targ) option" where
  "usbTcd E i trb st = do {
     t \<leftarrow> tcds st i;
     if attached t then (let (ok, d) = exec E i trb (drv st) in Some (ok, st\<lparr>drv := d\<rparr>)) else None
   }"

definition usbTcdAttach :: "('d, 'a) targ_env \<Rightarrow> tcd_id \<Rightarrow> ('d, 'a) targ \<Rightarrow> bool \<times> ('d, 'a) targ" where
  "usbTcdAttach E i st =
     (let (ok, d) = exec E i Trb_attach (drv st)
      in (ok, on_tcd i (\<lambda>t. t\<lparr>attached := True, speed := bus_speed E i d\<rparr>) (st\<lparr>drv := d\<rparr>)))"

definition usbTcdDetach :: "('d, 'a) targ_env \<Rightarrow> tcd_id \<Rightarrow> ('d, 'a) targ \<Rightarrow> (bool \<times> ('d, 'a) targ) option" where
  "usbTcdDetach E i = usbTcd E i Trb_detach"

definition usbTcdEnable :: "('d, 'a) targ_env \<Rightarrow> tcd_id \<Rightarrow> ('d, 'a) targ \<Rightarrow> (bool \<times> ('d, 'a) targ) option" where
  "usbTcdEnable E i = usbTcd E i Trb_enable"

definition usbTcdDisable :: "('d, 'a) targ_env \<Rightarrow> tcd_id \<Rightarrow> ('d, 'a) targ \<Rightarrow> (bool \<times> ('d, 'a) targ) option" where
  "usbTcdDisable E i = usbTcd E i Trb_disable"

definition usbTcdAddressSet :: "('d, 'a) targ_env \<Rightarrow> tcd_id \<Rightarrow> u16 \<Rightarrow> ('d, 'a) targ \<Rightarrow> (bool \<times> ('d, 'a) targ) option" where
  "usbTcdAddressSet E i addr = usbTcd E i (Trb_address_set addr)"

definition usbTcdSignalResume :: "('d, 'a) targ_env \<Rightarrow> tcd_id \<Rightarrow> ('d, 'a) targ \<Rightarrow> (bool \<times> ('d, 'a) targ) option" where
  "usbTcdSignalResume E i = usbTcd E i Trb_signal_resume"

definition usbTcdEndpointAssign :: "('d, 'a) targ_env \<Rightarrow> tcd_id \<Rightarrow> u16 \<Rightarrow> u16 \<Rightarrow> u16 \<Rightarrow> u16 \<Rightarrow> u16 \<Rightarrow> u16
    \<Rightarrow> ('d, 'a) targ \<Rightarrow> (bool \<times> ('d, 'a) targ) option" where
  "usbTcdEndpointAssign E i eid num conf intf xfr dir = usbTcd E i (Trb_endpoint_assign eid num conf intf xfr dir)"

definition usbTcdEndpointRelease :: "('d, 'a) targ_env \<Rightarrow> tcd_id \<Rightarrow> u16 \<Rightarrow> ('d, 'a) targ \<Rightarrow> (bool \<times> ('d, 'a) targ) option" where
  "usbTcdEndpointRelease E i eid = usbTcd E i (Trb_endpoint_release eid)"

definition usbTcdEndpointStateSet :: "('d, 'a) targ_env \<Rightarrow> tcd_id \<Rightarrow> u16 \<Rightarrow> u16 \<Rightarrow> ('d, 'a) targ \<Rightarrow> (bool \<times> ('d, 'a) targ) option" where
  "usbTcdEndpointStateSet E i eid state = usbTcd E i (Trb_endpoint_state_set eid state)"

definition usbTcdCurrentFrameGet :: "('d, 'a) targ_env \<Rightarrow> tcd_id \<Rightarrow> ('d, 'a) targ \<Rightarrow> (bool \<times> u16 \<times> ('d, 'a) targ) option" where
  "usbTcdCurrentFrameGet E i st = do {
     (ok, st1) \<leftarrow> usbTcd E i Trb_current_frame_get st;
     Some (ok, frame_no E i (drv st1), st1)
   }"

definition usbTcdErpSubmit :: "('d, 'a) targ_env \<Rightarrow> tcd_id \<Rightarrow> erp_id \<Rightarrow> ('d, 'a) targ \<Rightarrow> (bool \<times> ('d, 'a) targ) option" where
  "usbTcdErpSubmit E i e st = usbTcd E i (Trb_erp_submit e (erp_mem st e)) st"

definition usbTcdErpCancel :: "('d, 'a) targ_env \<Rightarrow> tcd_id \<Rightarrow> erp_id \<Rightarrow> ('d, 'a) targ \<Rightarrow> (bool \<times> ('d, 'a) targ) option" where
  "usbTcdErpCancel E i e = usbTcd E i (Trb_erp_cancel e)"

text \<open>An endpoint of a channel, by its place in the table.\<close>

definition endpoint :: "('d, 'a) targ_env \<Rightarrow> tcd_id \<Rightarrow> nat option \<Rightarrow> ('d, 'a) targ \<Rightarrow> endpoint_info option" where
  "endpoint E i k st = do { n \<leftarrow> k; eps \<leftarrow> table E i (drv st); if n < length eps then Some (eps ! n) else None }"

section \<open>Completion and cancellation\<close>

text \<open>
  The data toggle after a transfer on a bulk or interrupt pipe. The counter of packets is 16 bits
  wide; the division traps on a packet size of zero.
\<close>

fun count_packets :: "u16 \<Rightarrow> usb_bfr list \<Rightarrow> u16" where
  "count_packets mx [] = 0"
| "count_packets mx (b # bs) = ucast ((actLen b + ucast mx - 1) div ucast mx) + count_packets mx bs"

definition next_toggle :: "u16 \<Rightarrow> usb_erp \<Rightarrow> u16 \<Rightarrow> u16" where
  "next_toggle mx erp tog =
     (let n = count_packets mx (bfrList erp);
          packets = (if erp_result erp = RESULT_OK then max n 1 else n)
      in if packets AND 1 \<noteq> 0 then (if tog = USB_DATA0 then USB_DATA1 else USB_DATA0) else tog)"

definition usbTargErpCallback :: "(erp_id \<Rightarrow> ('d, 'a) targ \<Rightarrow> ('d, 'a) targ option) \<Rightarrow> ('d, 'a) targ_env \<Rightarrow> erp_id
    \<Rightarrow> ('d, 'a) targ \<Rightarrow> ('d, 'a) targ option" where
  "usbTargErpCallback user E e st = do {
     p \<leftarrow> targPtr (erp_mem st e);
     pipe \<leftarrow> pipes st p;
     let st1 = on_pipe p (\<lambda>q. q\<lparr>erps := remove1 e (erps q),
                 erpDeleted := (if erpBeingDeleted q = Some e then True else erpDeleted q)\<rparr>) st;
     st2 \<leftarrow> (if erp_transferType (erp_mem st e) \<in> {USB_XFRTYPE_INTERRUPT, USB_XFRTYPE_BULK}
             then do {
               ep \<leftarrow> endpoint E (pTcd pipe) (pEndpoint pipe) st;
               if maxPacketSize ep = 0 \<and> bfrList (erp_mem st e) \<noteq> [] then None
               else Some (on_pipe p (\<lambda>q. q\<lparr>dataToggle := next_toggle (maxPacketSize ep) (erp_mem st e) (dataToggle q)\<rparr>) st1)
             }
             else Some st1);
     user e st2
   }"

text \<open>
  \<open>cancelErp\<close>: the driver reports the packet back from within the call, or later from a task of its
  own. Later means never: the caller holds the mutex that the report needs, and waits for it.
\<close>

definition cancelErp :: "(erp_id \<Rightarrow> ('d, 'a) targ \<Rightarrow> ('d, 'a) targ option) \<Rightarrow> ('d, 'a) targ_env \<Rightarrow> pipe_id option \<Rightarrow> erp_id
    \<Rightarrow> ('d, 'a) targ \<Rightarrow> (targ_status \<times> ('d, 'a) targ) option" where
  "cancelErp user E pp e st = do {
     p \<leftarrow> pp;
     pipe \<leftarrow> pipes st p;
     let st1 = on_pipe p (\<lambda>q. q\<lparr>erpBeingDeleted := Some e, erpDeleted := False\<rparr>) st;
     (ok, st2) \<leftarrow> usbTcdErpCancel E (pTcd pipe) e st1;
     if \<not> ok then Some (S_usbTargLib_CANNOT_CANCEL, st2)
     else if \<not> calls_back E (pTcd pipe) e (drv st1) then None
     else do {
       st3 \<leftarrow> usbTargErpCallback user E e (on_erp e (\<lambda>r. r\<lparr>erp_result := S_usbTcdLib_ERP_CANCELED\<rparr>) st2);
       pipe3 \<leftarrow> pipes st3 p;
       if erpDeleted pipe3 then Some (OK, st3) else None
     }
   }"

definition mngmtFunc :: "('d, 'a) targ_env \<Rightarrow> tcd_id \<Rightarrow> u16 \<Rightarrow> ('d, 'a) targ \<Rightarrow> (targ_status \<times> ('d, 'a) targ) option" where
  "mngmtFunc E i code st = do {
     t \<leftarrow> tcds st i;
     Some (case mngmt_func (callback_tables E (pCallbacks t)) of None \<Rightarrow> (OK, st) | Some f \<Rightarrow> f (targChannel t) code st)
   }"

section \<open>Validation\<close>

definition validateTarg :: "u32 \<Rightarrow> ('d, 'a) targ \<Rightarrow> targ_status \<times> tcd_id option \<times> ('d, 'a) targ" where
  "validateTarg ch st =
     (if targ_initCount st = 0 then (ERROR, None, snd (ossStatus S_usbTargLib_NOT_INITIALIZED st))
      else case usbHandleValidate ch TARG_TCD_SIG (hdls st) of
             (s, ob) \<Rightarrow> if s \<noteq> hdl_status.OK then (ERROR, None, snd (ossStatus S_usbTargLib_BAD_HANDLE st))
                        else (OK, (case ob of Some (Tcd_obj i) \<Rightarrow> Some i | _ \<Rightarrow> None), st))"

definition validatePipe :: "u32 \<Rightarrow> ('d, 'a) targ \<Rightarrow> targ_status \<times> pipe_id option \<times> ('d, 'a) targ" where
  "validatePipe h st =
     (case usbHandleValidate h TARG_PIPE_SIG (hdls st) of
        (s, ob) \<Rightarrow> if s \<noteq> hdl_status.OK then (ERROR, None, snd (ossStatus S_usbTargLib_BAD_HANDLE st))
                   else (OK, (case ob of Some (Pipe_obj p) \<Rightarrow> Some p | _ \<Rightarrow> None), st))"

fun find_id :: "u16 \<Rightarrow> nat \<Rightarrow> endpoint_info list \<Rightarrow> nat option" where
  "find_id eid n [] = None"
| "find_id eid n (ep # eps) = (if endpointId ep = eid then Some n else find_id eid (Suc n) eps)"

definition findEndpointById :: "('d, 'a) targ_env \<Rightarrow> tcd_id \<Rightarrow> u16 \<Rightarrow> ('d, 'a) targ \<Rightarrow> nat option" where
  "findEndpointById E i eid st = (case table E i (drv st) of None \<Rightarrow> None | Some eps \<Rightarrow> find_id eid 0 eps)"

definition validateEndpoint :: "('d, 'a) targ_env \<Rightarrow> tcd_id \<Rightarrow> u16 \<Rightarrow> u16 \<Rightarrow> u16 \<Rightarrow> ('d, 'a) targ
    \<Rightarrow> targ_status \<times> nat option \<times> ('d, 'a) targ" where
  "validateEndpoint E i eid xfr dir st =
     (case findEndpointById E i eid st of
        None \<Rightarrow> (ERROR, None, snd (ossStatus S_usbTargLib_BAD_PARAM st))
      | Some n \<Rightarrow>
          let flags = ep_flags (the (endpoint E i (Some n) st));
              bad = (ERROR, None, snd (ossStatus S_usbTargLib_BAD_PARAM st));
              can = (\<lambda>b. flags AND b \<noteq> 0)
          in if can TCD_ENDPOINT_IN_USE then (ERROR, None, snd (ossStatus S_usbTargLib_ENDPOINT_IN_USE st))
             else if dir = USB_DIR_IN \<and> \<not> can TCD_ENDPOINT_IN_OK then bad
             else if dir = USB_DIR_OUT \<and> \<not> can TCD_ENDPOINT_OUT_OK then bad
             else if dir \<noteq> USB_DIR_IN \<and> dir \<noteq> USB_DIR_OUT then bad
             else if xfr = USB_XFRTYPE_CONTROL then (if can TCD_ENDPOINT_CTRL_OK then (OK, Some n, st) else bad)
             else if xfr = USB_XFRTYPE_BULK then (if can TCD_ENDPOINT_BULK_OK then (OK, Some n, st) else bad)
             else if xfr = USB_XFRTYPE_INTERRUPT then (if can TCD_ENDPOINT_INT_OK then (OK, Some n, st) else bad)
             else if xfr = USB_XFRTYPE_ISOCH then (if can TCD_ENDPOINT_ISOCH_OK then (OK, Some n, st) else bad)
             else bad)"

text \<open>\<open>resetDataToggle\<close>, on the pipes of a channel in turn.\<close>

definition reset_applies :: "u16 \<Rightarrow> u16 \<Rightarrow> u16 \<Rightarrow> targ_pipe \<Rightarrow> u16 \<Rightarrow> bool" where
  "reset_applies conf intf num q epnum \<longleftrightarrow>
     (conf = ANY_CONFIGURATION \<or> conf = p_configuration q) \<and> (intf = ANY_INTERFACE \<or> intf = p_interface q)
     \<and> (num = ANY_ENDPOINT \<or> num = epnum)"

fun reset_pipes :: "('d, 'a) targ_env \<Rightarrow> tcd_id \<Rightarrow> u16 \<Rightarrow> u16 \<Rightarrow> u16 \<Rightarrow> pipe_id list \<Rightarrow> ('d, 'a) targ \<Rightarrow> ('d, 'a) targ option" where
  "reset_pipes E i conf intf num [] st = Some st"
| "reset_pipes E i conf intf num (p # ps) st = do {
     q \<leftarrow> pipes st p;
     ep \<leftarrow> endpoint E i (pEndpoint q) st;
     st' \<leftarrow> (if \<not> reset_applies conf intf num q (endpointNum ep) then Some st
             else do {
               (_, st1) \<leftarrow> usbTcdEndpointStateSet E i (endpointId ep) TCD_ENDPOINT_DATA0 (on_pipe p (\<lambda>q. q\<lparr>dataToggle := USB_DATA0\<rparr>) st);
               case pEndpoint2 q of
                 None \<Rightarrow> Some st1
               | Some _ \<Rightarrow> do {
                   ep2 \<leftarrow> endpoint E i (pEndpoint2 q) st1;
                   (_, st2) \<leftarrow> usbTcdEndpointStateSet E i (endpointId ep2) TCD_ENDPOINT_DATA0 st1;
                   Some st2
                 }
             });
     reset_pipes E i conf intf num ps st'
   }"

definition resetDataToggle :: "('d, 'a) targ_env \<Rightarrow> tcd_id \<Rightarrow> u16 \<Rightarrow> u16 \<Rightarrow> u16 \<Rightarrow> ('d, 'a) targ \<Rightarrow> ('d, 'a) targ option" where
  "resetDataToggle E i conf intf num st = do {
     t \<leftarrow> tcds st i;
     reset_pipes E i conf intf num (tcd_pipes t) st
   }"

section \<open>Transfers\<close>

definition usbTargTransfer :: "('d, 'a) targ_env \<Rightarrow> u32 \<Rightarrow> erp_id option \<Rightarrow> ('d, 'a) targ \<Rightarrow> (targ_status \<times> ('d, 'a) targ) option" where
  "usbTargTransfer E h pErp st =
     (case pErp of
        None \<Rightarrow> Some (ossStatus S_usbTargLib_BAD_PARAM st)
      | Some e \<Rightarrow>
          let (s, pp, st0) = validatePipe h st
          in if s \<noteq> OK then Some (ossStatus s st0)
             else do {
               p \<leftarrow> pp;
               q \<leftarrow> pipes st0 p;
               ep \<leftarrow> endpoint E (pTcd q) (pEndpoint q) st0;
               let xfr = transferType ep;
               ep' \<leftarrow> (if xfr = USB_XFRTYPE_CONTROL
                       then (case bfrList (erp_mem st0 e) of [] \<Rightarrow> None
                             | b # _ \<Rightarrow> if b_pid b = USB_PID_IN then endpoint E (pTcd q) (pEndpoint2 q) st0 else Some ep)
                       else Some ep);
               let st1 = on_erp e (\<lambda>r. r\<lparr>targPtr := Some p, erp_transferType := xfr, erp_endpointId := endpointId ep',
                           erp_dataToggle := (if xfr = USB_XFRTYPE_CONTROL then erp_dataToggle r else dataToggle q)\<rparr>) st0;
               let st2 = on_pipe p (\<lambda>q. q\<lparr>erps := e # erps q\<rparr>) st1;
               (ok, st3) \<leftarrow> usbTcdErpSubmit E (pTcd q) e st2;
               Some (if ok then (OK, st3)
                     else ossStatus S_usbTargLib_TCD_FAULT (on_pipe p (\<lambda>q. q\<lparr>erps := remove1 e (erps q)\<rparr>) st3))
             })"

text \<open>The flag of a packet of a channel, and \<open>initErp\<close> on each of the three.\<close>

fun erp_pending :: "erp_id \<Rightarrow> targ_tcd \<Rightarrow> bool" where
  "erp_pending (Setup_erp _) t = setupErpPending t"
| "erp_pending (Data_erp _) t = dataErpPending t"
| "erp_pending (Status_erp _) t = statusErpPending t"
| "erp_pending (User_erp _) t = False"

fun set_pending :: "erp_id \<Rightarrow> bool \<Rightarrow> targ_tcd \<Rightarrow> targ_tcd" where
  "set_pending (Setup_erp _) b t = t\<lparr>setupErpPending := b\<rparr>"
| "set_pending (Data_erp _) b t = t\<lparr>dataErpPending := b\<rparr>"
| "set_pending (Status_erp _) b t = t\<lparr>statusErpPending := b\<rparr>"
| "set_pending (User_erp _) b t = t"

definition initErp :: "('d, 'a) targ_env \<Rightarrow> tcd_id \<Rightarrow> erp_id \<Rightarrow> erp_callback \<Rightarrow> u16 \<Rightarrow> u16 \<Rightarrow> bfr_ptr \<Rightarrow> u16 \<Rightarrow> ('d, 'a) targ
    \<Rightarrow> (targ_status \<times> ('d, 'a) targ) option" where
  "initErp E i e callback toggle pid bfr len st = do {
     t \<leftarrow> tcds st i;
     if erp_pending e t then Some (ERROR, st)
     else
       let st1 = on_tcd i (set_pending e True) st;
           st2 = on_erp e (\<lambda>_. zero_erp\<lparr>userPtr := Some i, userCallback := Some callback, erp_dataToggle := toggle,
                   bfrList := [\<lparr>b_pid = pid, pBfr = bfr, bfrLen = ucast len, actLen = 0\<rparr>]\<rparr>) st1
       in usbTargTransfer E (controlPipe t) (Some e) st2
   }"

definition initSetupErp :: "('d, 'a) targ_env \<Rightarrow> tcd_id \<Rightarrow> ('d, 'a) targ \<Rightarrow> (targ_status \<times> ('d, 'a) targ) option" where
  "initSetupErp E i = initErp E i (Setup_erp i) Setup_callback USB_DATA0 USB_PID_SETUP Setup_bfr 8"

definition initDataErpForResponse :: "('d, 'a) targ_env \<Rightarrow> tcd_id \<Rightarrow> u16 \<Rightarrow> ('d, 'a) targ \<Rightarrow> (targ_status \<times> ('d, 'a) targ) option" where
  "initDataErpForResponse E i len = initErp E i (Data_erp i) Response_callback USB_DATA1 USB_PID_IN Data_bfr len"

definition initStatusErp :: "('d, 'a) targ_env \<Rightarrow> tcd_id \<Rightarrow> u16 \<Rightarrow> ('d, 'a) targ \<Rightarrow> (targ_status \<times> ('d, 'a) targ) option" where
  "initStatusErp E i pid = initErp E i (Status_erp i) Status_callback USB_DATA1 pid Null_bfr 0"

section \<open>Requests on the control pipe\<close>

record usb_setup =
  requestType :: u8
  request :: u8
  s_value :: u16
  s_index :: u16
  s_length :: u16

text \<open>Words of a setup packet are sent with the low byte first; \<^verbatim>\<open>FROM_LITTLEW\<close> reads them on either kind of processor.\<close>

definition from_little :: "u8 \<Rightarrow> u8 \<Rightarrow> u16" where
  "from_little lo hi = push_bit 8 (ucast hi) OR ucast lo"

definition read_setup :: "u8 list \<Rightarrow> usb_setup" where
  "read_setup bs = \<lparr>requestType = bs ! 0, request = bs ! 1, s_value = from_little (bs ! 2) (bs ! 3),
     s_index = from_little (bs ! 4) (bs ! 5), s_length = from_little (bs ! 6) (bs ! 7)\<rparr>"

definition LSB :: "u16 \<Rightarrow> u8" where "LSB w = ucast w"
definition MSB :: "u16 \<Rightarrow> u8" where "MSB w = ucast (drop_bit 8 w)"

definition USB_RT_CATEGORY_MASK :: u8 where "USB_RT_CATEGORY_MASK = 0x60"
definition USB_RT_STANDARD :: u8 where "USB_RT_STANDARD = 0x00"
definition USB_RT_ENDPOINT :: u8 where "USB_RT_ENDPOINT = 0x02"
definition USB_REQ_GET_STATUS :: u8 where "USB_REQ_GET_STATUS = 0"
definition USB_REQ_CLEAR_FEATURE :: u8 where "USB_REQ_CLEAR_FEATURE = 1"
definition USB_REQ_SET_FEATURE :: u8 where "USB_REQ_SET_FEATURE = 3"
definition USB_REQ_SET_ADDRESS :: u8 where "USB_REQ_SET_ADDRESS = 5"
definition USB_REQ_GET_DESCRIPTOR :: u8 where "USB_REQ_GET_DESCRIPTOR = 6"
definition USB_REQ_SET_DESCRIPTOR :: u8 where "USB_REQ_SET_DESCRIPTOR = 7"
definition USB_REQ_GET_CONFIGURATION :: u8 where "USB_REQ_GET_CONFIGURATION = 8"
definition USB_REQ_SET_CONFIGURATION :: u8 where "USB_REQ_SET_CONFIGURATION = 9"
definition USB_REQ_GET_INTERFACE :: u8 where "USB_REQ_GET_INTERFACE = 10"
definition USB_REQ_SET_INTERFACE :: u8 where "USB_REQ_SET_INTERFACE = 11"
definition USB_REQ_GET_SYNCH_FRAME :: u8 where "USB_REQ_GET_SYNCH_FRAME = 12"
definition USB_FSEL_DEV_ENDPOINT_HALT :: u16 where "USB_FSEL_DEV_ENDPOINT_HALT = 0"

text \<open>The callbacks of a channel.\<close>

definition app_of :: "('d, 'a) targ_env \<Rightarrow> targ_tcd \<Rightarrow> ('d, 'a) targ_callbacks" where
  "app_of E t = callback_tables E (pCallbacks t)"

definition store_data :: "tcd_id \<Rightarrow> u8 list \<Rightarrow> ('d, 'a) targ \<Rightarrow> ('d, 'a) targ" where
  "store_data i bs = on_tcd i (\<lambda>t. t\<lparr>dataBfr := poke (dataBfr t) 0 bs\<rparr>)"

definition requestClearFeature :: "('d, 'a) targ_env \<Rightarrow> tcd_id \<Rightarrow> usb_setup \<Rightarrow> ('d, 'a) targ \<Rightarrow> (targ_status \<times> ('d, 'a) targ) option" where
  "requestClearFeature E i u st = do {
     st1 \<leftarrow> (if requestType u = USB_RT_STANDARD OR USB_RT_ENDPOINT \<and> s_value u = USB_FSEL_DEV_ENDPOINT_HALT
             then resetDataToggle E i ANY_CONFIGURATION ANY_ENDPOINT (s_index u) st else Some st);
     t \<leftarrow> tcds st1 i;
     case featureClear (app_of E t) of
       None \<Rightarrow> Some (ERROR, st1)
     | Some f \<Rightarrow>
         let (s, st2) = f (targChannel t) (requestType u) (s_value u) (s_index u) st1
         in if s \<noteq> OK then Some (ERROR, st2) else initStatusErp E i USB_PID_IN st2
   }"

definition requestSetFeature :: "('d, 'a) targ_env \<Rightarrow> tcd_id \<Rightarrow> usb_setup \<Rightarrow> ('d, 'a) targ \<Rightarrow> (targ_status \<times> ('d, 'a) targ) option" where
  "requestSetFeature E i u st = do {
     t \<leftarrow> tcds st i;
     case featureSet (app_of E t) of
       None \<Rightarrow> Some (ERROR, st)
     | Some f \<Rightarrow>
         let (s, st2) = f (targChannel t) (requestType u) (s_value u) (s_index u) st
         in if s \<noteq> OK then Some (ERROR, st2) else initStatusErp E i USB_PID_IN st2
   }"

definition requestGetConfiguration :: "('d, 'a) targ_env \<Rightarrow> tcd_id \<Rightarrow> usb_setup \<Rightarrow> ('d, 'a) targ \<Rightarrow> (targ_status \<times> ('d, 'a) targ) option" where
  "requestGetConfiguration E i u st = do {
     t \<leftarrow> tcds st i;
     case configurationGet (app_of E t) of
       None \<Rightarrow> Some (ERROR, st)
     | Some f \<Rightarrow>
         let (s, b, st2) = f (targChannel t) st; st3 = store_data i [b] st2
         in if s \<noteq> OK then Some (ERROR, st3) else initDataErpForResponse E i 1 st3
   }"

definition requestSetConfiguration :: "('d, 'a) targ_env \<Rightarrow> tcd_id \<Rightarrow> usb_setup \<Rightarrow> ('d, 'a) targ \<Rightarrow> (targ_status \<times> ('d, 'a) targ) option" where
  "requestSetConfiguration E i u st = do {
     let configuration = LSB (s_value u);
     st1 \<leftarrow> resetDataToggle E i (ucast configuration) ANY_INTERFACE ANY_ENDPOINT st;
     t \<leftarrow> tcds st1 i;
     case configurationSet (app_of E t) of
       None \<Rightarrow> Some (ERROR, st1)
     | Some f \<Rightarrow>
         let (s, st2) = f (targChannel t) configuration st1
         in if s \<noteq> OK then Some (ERROR, st2) else initStatusErp E i USB_PID_IN st2
   }"

definition requestGetDescriptor :: "('d, 'a) targ_env \<Rightarrow> tcd_id \<Rightarrow> usb_setup \<Rightarrow> ('d, 'a) targ \<Rightarrow> (targ_status \<times> ('d, 'a) targ) option" where
  "requestGetDescriptor E i u st = do {
     t \<leftarrow> tcds st i;
     case descriptorGet (app_of E t) of
       None \<Rightarrow> Some (ERROR, st)
     | Some f \<Rightarrow>
         let (s, (bs, len), st2) = f (targChannel t) (requestType u) (MSB (s_value u)) (LSB (s_value u)) (s_index u)
               (min (s_length u) (of_nat USB_MAX_DESCR_LEN)) st;
             st3 = store_data i bs st2
         in if s \<noteq> OK then Some (ERROR, st3) else initDataErpForResponse E i len st3
   }"

definition requestSetDescriptor :: "('d, 'a) targ_env \<Rightarrow> tcd_id \<Rightarrow> usb_setup \<Rightarrow> ('d, 'a) targ \<Rightarrow> (targ_status \<times> ('d, 'a) targ) option" where
  "requestSetDescriptor E i u st = do {
     t \<leftarrow> tcds st i;
     case descriptorSet (app_of E t) of
       None \<Rightarrow> Some (ERROR, st)
     | Some f \<Rightarrow> Some (f (targChannel t) (requestType u) (MSB (s_value u)) (LSB (s_value u)) (s_index u) (s_length u) st)
   }"

definition requestGetInterface :: "('d, 'a) targ_env \<Rightarrow> tcd_id \<Rightarrow> usb_setup \<Rightarrow> ('d, 'a) targ \<Rightarrow> (targ_status \<times> ('d, 'a) targ) option" where
  "requestGetInterface E i u st = do {
     t \<leftarrow> tcds st i;
     case interfaceGet (app_of E t) of
       None \<Rightarrow> Some (ERROR, st)
     | Some f \<Rightarrow>
         let (s, b, st2) = f (targChannel t) (s_index u) st; st3 = store_data i [b] st2
         in if s \<noteq> OK then Some (ERROR, st3) else initDataErpForResponse E i 1 st3
   }"

definition requestSetInterface :: "('d, 'a) targ_env \<Rightarrow> tcd_id \<Rightarrow> usb_setup \<Rightarrow> ('d, 'a) targ \<Rightarrow> (targ_status \<times> ('d, 'a) targ) option" where
  "requestSetInterface E i u st = do {
     st1 \<leftarrow> resetDataToggle E i ANY_CONFIGURATION (s_index u) ANY_ENDPOINT st;
     t \<leftarrow> tcds st1 i;
     case interfaceSet (app_of E t) of
       None \<Rightarrow> Some (ERROR, st1)
     | Some f \<Rightarrow>
         let (s, st2) = f (targChannel t) (s_index u) (LSB (s_value u)) st1
         in if s \<noteq> OK then Some (ERROR, st2) else initStatusErp E i USB_PID_IN st2
   }"

definition requestGetStatus :: "('d, 'a) targ_env \<Rightarrow> tcd_id \<Rightarrow> usb_setup \<Rightarrow> ('d, 'a) targ \<Rightarrow> (targ_status \<times> ('d, 'a) targ) option" where
  "requestGetStatus E i u st = do {
     t \<leftarrow> tcds st i;
     case statusGet (app_of E t) of
       None \<Rightarrow> Some (ERROR, st)
     | Some f \<Rightarrow>
         let (s, (bs, len), st2) = f (targChannel t) (requestType u) (s_index u) (min (s_length u) (of_nat USB_MAX_DESCR_LEN)) st;
             st3 = store_data i bs st2
         in if s \<noteq> OK then Some (ERROR, st3) else initDataErpForResponse E i len st3
   }"

definition requestSetAddress :: "('d, 'a) targ_env \<Rightarrow> tcd_id \<Rightarrow> usb_setup \<Rightarrow> ('d, 'a) targ \<Rightarrow> (targ_status \<times> ('d, 'a) targ) option" where
  "requestSetAddress E i u st = do {
     t \<leftarrow> tcds st i;
     let st1 = (case addressSet (app_of E t) of None \<Rightarrow> st | Some f \<Rightarrow> snd (f (targChannel t) (s_value u) st));
     (_, st2) \<leftarrow> usbTcdAddressSet E i (s_value u) (on_tcd i (\<lambda>t. t\<lparr>deviceAddress := s_value u\<rparr>) st1);
     initStatusErp E i USB_PID_IN st2
   }"

definition requestGetSynchFrame :: "('d, 'a) targ_env \<Rightarrow> tcd_id \<Rightarrow> usb_setup \<Rightarrow> ('d, 'a) targ \<Rightarrow> (targ_status \<times> ('d, 'a) targ) option" where
  "requestGetSynchFrame E i u st = do {
     t \<leftarrow> tcds st i;
     case synchFrameGet (app_of E t) of
       None \<Rightarrow> Some (ERROR, st)
     | Some f \<Rightarrow>
         let (s, bs, st2) = f (targChannel t) (s_index u) st; st3 = store_data i bs st2
         in if s \<noteq> OK then Some (ERROR, st3) else initDataErpForResponse E i 2 st3
   }"

definition requestVendorSpecific :: "('d, 'a) targ_env \<Rightarrow> tcd_id \<Rightarrow> usb_setup \<Rightarrow> ('d, 'a) targ \<Rightarrow> (targ_status \<times> ('d, 'a) targ) option" where
  "requestVendorSpecific E i u st = do {
     t \<leftarrow> tcds st i;
     case vendorSpecific (app_of E t) of
       None \<Rightarrow> Some (ERROR, st)
     | Some f \<Rightarrow> Some (f (targChannel t) (requestType u) (request u) (s_value u) (s_index u) (s_length u) st)
   }"

text \<open>The handler of a standard request; a request without one is left to the application.\<close>

definition request_handler :: "u8 \<Rightarrow> ('d, 'a) targ_env \<Rightarrow> tcd_id \<Rightarrow> usb_setup \<Rightarrow> ('d, 'a) targ \<Rightarrow> (targ_status \<times> ('d, 'a) targ) option" where
  "request_handler r =
     (if r = USB_REQ_CLEAR_FEATURE then requestClearFeature
      else if r = USB_REQ_SET_FEATURE then requestSetFeature
      else if r = USB_REQ_GET_CONFIGURATION then requestGetConfiguration
      else if r = USB_REQ_SET_CONFIGURATION then requestSetConfiguration
      else if r = USB_REQ_GET_DESCRIPTOR then requestGetDescriptor
      else if r = USB_REQ_SET_DESCRIPTOR then requestSetDescriptor
      else if r = USB_REQ_GET_INTERFACE then requestGetInterface
      else if r = USB_REQ_SET_INTERFACE then requestSetInterface
      else if r = USB_REQ_GET_STATUS then requestGetStatus
      else if r = USB_REQ_SET_ADDRESS then requestSetAddress
      else if r = USB_REQ_GET_SYNCH_FRAME then requestGetSynchFrame
      else requestVendorSpecific)"

definition parseSetupPacket :: "('d, 'a) targ_env \<Rightarrow> tcd_id \<Rightarrow> ('d, 'a) targ \<Rightarrow> (targ_status \<times> ('d, 'a) targ) option" where
  "parseSetupPacket E i st = do {
     t \<leftarrow> tcds st i;
     b \<leftarrow> (case bfrList (erp_mem st (Setup_erp i)) of [] \<Rightarrow> None | b # _ \<Rightarrow> Some b);
     if actLen b \<noteq> 8 then Some (ERROR, st)
     else let u = read_setup (setupBfr t)
          in if requestType u AND USB_RT_CATEGORY_MASK = USB_RT_STANDARD then request_handler (request u) E i u st
             else requestVendorSpecific E i u st
   }"

definition usbTargPipeStatusSet :: "('d, 'a) targ_env \<Rightarrow> u32 \<Rightarrow> u32 \<Rightarrow> u16 \<Rightarrow> ('d, 'a) targ \<Rightarrow> (targ_status \<times> ('d, 'a) targ) option" where
  "usbTargPipeStatusSet E ch h state st =
     (let (s, ii, st0) = validateTarg ch st
      in if s \<noteq> OK then Some (ossStatus s st0)
         else do {
           i \<leftarrow> ii;
           t \<leftarrow> tcds st0 i;
           let (s1, pp, st1) = validatePipe (if h = 0 then controlPipe t else h) st0;
           if s1 \<noteq> OK then Some (ossStatus s1 st1)
           else do {
             p \<leftarrow> pp;
             q \<leftarrow> pipes st1 p;
             (ok, st2) \<leftarrow> (case pEndpoint q of None \<Rightarrow> Some (True, st1)
                | Some _ \<Rightarrow> do { ep \<leftarrow> endpoint E i (pEndpoint q) st1; usbTcdEndpointStateSet E i (endpointId ep) state st1 });
             if \<not> ok then Some (ossStatus S_usbTargLib_TCD_FAULT st2)
             else do {
               (ok, st3) \<leftarrow> (case pEndpoint2 q of None \<Rightarrow> Some (True, st2)
                  | Some _ \<Rightarrow> do { ep \<leftarrow> endpoint E i (pEndpoint2 q) st2; usbTcdEndpointStateSet E i (endpointId ep) state st2 });
               Some (ossStatus (if ok then OK else S_usbTargLib_TCD_FAULT) st3)
             }
           }
         })"

section \<open>The phases of a control transfer\<close>

definition responseErpCallback :: "('d, 'a) targ_env \<Rightarrow> erp_id \<Rightarrow> ('d, 'a) targ \<Rightarrow> ('d, 'a) targ option" where
  "responseErpCallback E e st = do {
     i \<leftarrow> userPtr (erp_mem st e);
     let r = erp_result (erp_mem st e);
     let st1 = on_tcd i (\<lambda>t. t\<lparr>dataErpPending := False\<rparr>) st;
     if r = RESULT_OK then map_option snd (initStatusErp E i USB_PID_OUT st1)
     else if r \<noteq> S_usbTcdLib_ERP_CANCELED then map_option snd (initSetupErp E i st1)
     else Some st1
   }"

definition statusErpCallback :: "('d, 'a) targ_env \<Rightarrow> erp_id \<Rightarrow> ('d, 'a) targ \<Rightarrow> ('d, 'a) targ option" where
  "statusErpCallback E e st = do {
     i \<leftarrow> userPtr (erp_mem st e);
     let st1 = on_tcd i (\<lambda>t. t\<lparr>statusErpPending := False\<rparr>) st;
     if erp_result (erp_mem st e) \<noteq> S_usbTcdLib_ERP_CANCELED then map_option snd (initSetupErp E i st1) else Some st1
   }"

text \<open>
  The callback of a packet. \<open>setupErpCallback\<close> cancels the packets of the other two phases, whose
  callbacks cancel nothing; \<open>setup\<close> is what happens to a setup packet.
\<close>

definition run_callback :: "(('d, 'a) targ_env \<Rightarrow> erp_id \<Rightarrow> ('d, 'a) targ \<Rightarrow> ('d, 'a) targ option) \<Rightarrow> ('d, 'a) targ_env
    \<Rightarrow> erp_id \<Rightarrow> ('d, 'a) targ \<Rightarrow> ('d, 'a) targ option" where
  "run_callback setup E e st =
     (case userCallback (erp_mem st e) of
        None \<Rightarrow> Some st
      | Some Setup_callback \<Rightarrow> setup E e st
      | Some Response_callback \<Rightarrow> responseErpCallback E e st
      | Some Status_callback \<Rightarrow> statusErpCallback E e st
      | Some User_callback \<Rightarrow> Some (user_callback E e st))"

definition cancel_phase :: "('d, 'a) targ_env \<Rightarrow> tcd_id \<Rightarrow> erp_id \<Rightarrow> ('d, 'a) targ \<Rightarrow> ('d, 'a) targ option" where
  "cancel_phase E i e st = do {
     t \<leftarrow> tcds st i;
     if erp_pending e t
     then map_option snd (cancelErp (run_callback (\<lambda>_ _ _. None) E) E (targPtr (erp_mem st (Data_erp i))) e st)
     else Some st
   }"

definition listen_again :: "('d, 'a) targ_env \<Rightarrow> tcd_id \<Rightarrow> erp_id \<Rightarrow> ('d, 'a) targ \<Rightarrow> ('d, 'a) targ option" where
  "listen_again E i e st =
     (if erp_result (erp_mem st e) \<noteq> S_usbTcdLib_ERP_CANCELED then map_option snd (initSetupErp E i st) else Some st)"

definition setupErpCallback :: "('d, 'a) targ_env \<Rightarrow> erp_id \<Rightarrow> ('d, 'a) targ \<Rightarrow> ('d, 'a) targ option" where
  "setupErpCallback E e st = do {
     i \<leftarrow> userPtr (erp_mem st e);
     st1 \<leftarrow> cancel_phase E i (Data_erp i) (on_tcd i (\<lambda>t. t\<lparr>setupErpPending := False\<rparr>) st);
     st2 \<leftarrow> cancel_phase E i (Status_erp i) st1;
     if erp_result (erp_mem st2 e) = RESULT_OK
     then do {
       (s, st3) \<leftarrow> parseSetupPacket E i st2;
       if s = OK then Some st3
       else do {
         t \<leftarrow> tcds st3 i;
         (_, st4) \<leftarrow> usbTargPipeStatusSet E (targChannel t) (controlPipe t) TCD_ENDPOINT_STALL st3;
         listen_again E i e st4
       }
     }
     else listen_again E i e st2
   }"

text \<open>The callback and the cancellation of any packet.\<close>

definition erp_completed :: "('d, 'a) targ_env \<Rightarrow> erp_id \<Rightarrow> ('d, 'a) targ \<Rightarrow> ('d, 'a) targ option" where
  "erp_completed E = usbTargErpCallback (run_callback setupErpCallback E) E"

definition cancel_erp :: "('d, 'a) targ_env \<Rightarrow> pipe_id \<Rightarrow> erp_id \<Rightarrow> ('d, 'a) targ \<Rightarrow> (targ_status \<times> ('d, 'a) targ) option" where
  "cancel_erp E p = cancelErp (run_callback setupErpCallback E) E (Some p)"

definition usbTargManagementCallback :: "('d, 'a) targ_env \<Rightarrow> tcd_id \<Rightarrow> u16 \<Rightarrow> ('d, 'a) targ \<Rightarrow> ('d, 'a) targ option" where
  "usbTargManagementCallback E i code st =
     (let st1 = (if code \<in> {TCD_MNGMT_VBUS_LOST, TCD_MNGMT_BUS_RESET} then on_tcd i (\<lambda>t. t\<lparr>deviceAddress := 0\<rparr>) st else st)
      in if code \<in> {TCD_MNGMT_VBUS_LOST, TCD_MNGMT_BUS_RESET, TCD_MNGMT_VBUS_DETECT, TCD_MNGMT_SUSPEND, TCD_MNGMT_RESUME}
         then map_option snd (mngmtFunc E i code st1) else Some st1)"

definition TARG_VERSION :: u16 where "TARG_VERSION = 0x0001"
definition TARG_MFG :: string where "TARG_MFG = ''Wind River Systems, Inc.''"
definition USBT_NAME_LEN :: nat where "USBT_NAME_LEN = 32"

text \<open>What is stored at the two pointers, where they are not null.\<close>

definition usbTargVersionGet :: "bool \<Rightarrow> bool \<Rightarrow> targ_status \<times> u16 option \<times> string option" where
  "usbTargVersionGet pVersion pMfg =
     (OK, if pVersion then Some TARG_VERSION else None, if pMfg then Some (take USBT_NAME_LEN TARG_MFG) else None)"

section \<open>Pipes and channels\<close>

definition destroy_handle :: "u32 \<Rightarrow> ('d, 'a) targ \<Rightarrow> ('d, 'a) targ" where
  "destroy_handle h st = st\<lparr>hdls := snd (usbHandleDestroy True h (hdls st))\<rparr>"

definition create_handle :: "u32 \<Rightarrow> targ_obj \<Rightarrow> ('d, 'a) targ \<Rightarrow> (u32 option \<times> ('d, 'a) targ) option" where
  "create_handle sig ob st = do {
     (s, h, H) \<leftarrow> usbHandleCreate False True sig (Some ob) (hdls st);
     Some (if s = hdl_status.OK then h else None, st\<lparr>hdls := H\<rparr>)
   }"

text \<open>The loop over the outstanding packets of a pipe: it goes on until the list is empty, whatever \<open>cancelErp\<close> returns.\<close>

partial_function (option) cancel_all :: "('d, 'a) targ_env \<Rightarrow> pipe_id \<Rightarrow> ('d, 'a) targ \<Rightarrow> ('d, 'a) targ option" where
  "cancel_all E p st =
     Option.bind (pipes st p) (\<lambda>q.
       case erps q of
         [] \<Rightarrow> Some st
       | e # _ \<Rightarrow> Option.bind (cancel_erp E p e st) (\<lambda>r. cancel_all E p (snd r)))"

definition release_endpoint :: "('d, 'a) targ_env \<Rightarrow> tcd_id \<Rightarrow> nat option \<Rightarrow> ('d, 'a) targ \<Rightarrow> ('d, 'a) targ option" where
  "release_endpoint E i k st =
     (case k of None \<Rightarrow> Some st
      | Some _ \<Rightarrow> do { ep \<leftarrow> endpoint E i k st; map_option snd (usbTcdEndpointRelease E i (endpointId ep) st) })"

definition destroyPipe :: "('d, 'a) targ_env \<Rightarrow> pipe_id option \<Rightarrow> ('d, 'a) targ \<Rightarrow> ('d, 'a) targ option" where
  "destroyPipe E pp st =
     (case pp of None \<Rightarrow> Some st
      | Some p \<Rightarrow> do {
          q \<leftarrow> pipes st p;
          let i = pTcd q;
          st1 \<leftarrow> cancel_all E p (on_tcd i (\<lambda>t. t\<lparr>tcd_pipes := remove1 p (tcd_pipes t)\<rparr>) st);
          q1 \<leftarrow> pipes st1 p;
          st2 \<leftarrow> release_endpoint E i (pEndpoint q1) st1;
          st3 \<leftarrow> release_endpoint E i (pEndpoint2 q1) st2;
          let st4 = destroy_handle (pipeHandle q1) st3;
          Some (st4\<lparr>pipes := (pipes st4)(p := None)\<rparr>)
        })"

partial_function (option) destroy_pipes :: "('d, 'a) targ_env \<Rightarrow> tcd_id \<Rightarrow> ('d, 'a) targ \<Rightarrow> ('d, 'a) targ option" where
  "destroy_pipes E i st =
     Option.bind (tcds st i) (\<lambda>t.
       case tcd_pipes t of
         [] \<Rightarrow> Some st
       | p # _ \<Rightarrow> Option.bind (destroyPipe E (Some p) st) (destroy_pipes E i))"

definition destroyTcd :: "('d, 'a) targ_env \<Rightarrow> tcd_id option \<Rightarrow> ('d, 'a) targ \<Rightarrow> ('d, 'a) targ option" where
  "destroyTcd E ii st =
     (case ii of None \<Rightarrow> Some st
      | Some i \<Rightarrow> do {
          (_, st1) \<leftarrow> mngmtFunc E i TCD_MNGMT_DETACH (st\<lparr>tcdList := remove1 i (tcdList st)\<rparr>);
          st2 \<leftarrow> destroy_pipes E i st1;
          (_, st3) \<leftarrow> usbTcdDetach E i st2;
          t \<leftarrow> tcds st3 i;
          let st4 = (if targChannel t \<noteq> 0 then destroy_handle (targChannel t) st3 else st3);
          Some (st4\<lparr>tcds := (tcds st4)(i := None)\<rparr>)
        })"

partial_function (option) destroy_tcds :: "('d, 'a) targ_env \<Rightarrow> ('d, 'a) targ \<Rightarrow> ('d, 'a) targ option" where
  "destroy_tcds E st =
     (case tcdList st of
        [] \<Rightarrow> Some st
      | i # _ \<Rightarrow> Option.bind (destroyTcd E (Some i) st) (destroy_tcds E))"

definition doShutdown :: "('d, 'a) targ_env \<Rightarrow> ('d, 'a) targ \<Rightarrow> ('d, 'a) targ option" where
  "doShutdown E st = do {
     st1 \<leftarrow> destroy_tcds E st;
     let st2 = (if handleInitialized st1 then st1\<lparr>hdls := snd (usbHandleShutdown (hdls st1)), handleInitialized := False\<rparr> else st1);
     Some (st2\<lparr>targMutex := False, ossInitialized := False\<rparr>)
   }"

text \<open>
  \<open>usbTargInitialize\<close>: \<^verbatim>\<open>ossInitialize\<close> always succeeds; the arguments say whether the handle library gets its memory
  and its mutex, and whether ours can be created.
\<close>

definition usbTargInitialize :: "bool \<Rightarrow> bool \<Rightarrow> bool \<Rightarrow> ('d, 'a) targ_env \<Rightarrow> ('d, 'a) targ \<Rightarrow> (targ_status \<times> ('d, 'a) targ) option" where
  "usbTargInitialize calloc_ok hdl_mutex_ok mutex_ok E st =
     (let (s, st1) =
        (if targ_initCount st = 0
         then let st1 = st\<lparr>tcdList := [], ossInitialized := True, handleInitialized := False\<rparr>;
                  (hs, H) = usbHandleInitialize calloc_ok hdl_mutex_ok 0 (hdls st1);
                  st2 = st1\<lparr>hdls := H\<rparr>
              in if hs \<noteq> hdl_status.OK then (S_usbTargLib_GENERAL_FAULT, st2)
                 else (if mutex_ok then OK else S_usbTargLib_OUT_OF_RESOURCES,
                       st2\<lparr>handleInitialized := True, targMutex := mutex_ok\<rparr>)
         else (OK, st))
      in if s = OK then Some (ossStatus s (st1\<lparr>targ_initCount := targ_initCount st1 + 1\<rparr>))
         else map_option (ossStatus s) (doShutdown E st1))"

definition usbTargShutdown :: "('d, 'a) targ_env \<Rightarrow> ('d, 'a) targ \<Rightarrow> (targ_status \<times> ('d, 'a) targ) option" where
  "usbTargShutdown E st =
     (if targ_initCount st = 0 then Some (ossStatus S_usbTargLib_NOT_INITIALIZED st)
      else let st1 = st\<lparr>targ_initCount := targ_initCount st - 1\<rparr>
           in if targ_initCount st1 = 0 then map_option (Pair OK) (doShutdown E st1) else Some (OK, st1))"

definition calloc :: "('d, 'a) targ \<Rightarrow> nat option \<times> ('d, 'a) targ" where
  "calloc st = (if oom st (nalloc st) then None else Some (nalloc st), st\<lparr>nalloc := Suc (nalloc st)\<rparr>)"

definition endpoint_taken :: "u16 \<Rightarrow> u16 \<Rightarrow> endpoint_info \<Rightarrow> bool" where
  "endpoint_taken dir num ep \<longleftrightarrow> ep_flags ep AND TCD_ENDPOINT_IN_USE \<noteq> 0 \<and> direction ep = dir \<and> endpointNum ep = num"

definition zero_pipe :: targ_pipe where
  "zero_pipe = \<lparr>pipeHandle = 0, pTcd = 0, p_configuration = 0, p_interface = 0, pEndpoint = None, pEndpoint2 = None,
     dataToggle = 0, erps = [], erpBeingDeleted = None, erpDeleted = False\<rparr>"

text \<open>
  The middle of \<open>usbTargPipeCreate\<close>: the object, its handle and its endpoints. The result is the status and the object,
  if there is one.
\<close>

definition build_pipe :: "('d, 'a) targ_env \<Rightarrow> tcd_id \<Rightarrow> u16 \<Rightarrow> u16 \<Rightarrow> u16 \<Rightarrow> u16 \<Rightarrow> u16 \<Rightarrow> u16 \<Rightarrow> u16 \<Rightarrow> nat \<Rightarrow> nat option
    \<Rightarrow> ('d, 'a) targ \<Rightarrow> (targ_status \<times> pipe_id option \<times> ('d, 'a) targ) option" where
  "build_pipe E i eid eid2 num conf intf xfr dir k k2 st =
     (case calloc st of
        (None, st1) \<Rightarrow> Some (S_usbTargLib_OUT_OF_MEMORY, None, st1)
      | (Some p, st1) \<Rightarrow> do {
          let st2 = st1\<lparr>pipes := (pipes st1)(p := Some (zero_pipe\<lparr>pTcd := i, p_configuration := conf, p_interface := intf,
                      dataToggle := USB_DATA0\<rparr>))\<rparr>;
          (h, st3) \<leftarrow> create_handle TARG_PIPE_SIG (Pipe_obj p) st2;
          case h of
            None \<Rightarrow> Some (S_usbTargLib_OUT_OF_RESOURCES, Some p, st3)
          | Some h \<Rightarrow> do {
              (ok, st4) \<leftarrow> usbTcdEndpointAssign E i eid num conf intf xfr dir (on_pipe p (\<lambda>q. q\<lparr>pipeHandle := h\<rparr>) st3);
              if \<not> ok then Some (S_usbTargLib_TCD_FAULT, Some p, st4)
              else
                let st5 = on_pipe p (\<lambda>q. q\<lparr>pEndpoint := Some k\<rparr>) st4
                in case k2 of
                     None \<Rightarrow> Some (OK, Some p, st5)
                   | Some k' \<Rightarrow> do {
                       (ok, st6) \<leftarrow> usbTcdEndpointAssign E i eid2 num conf intf xfr USB_DIR_IN st5;
                       Some (if ok then (OK, Some p, on_pipe p (\<lambda>q. q\<lparr>pEndpoint2 := Some k'\<rparr>) st6)
                             else (S_usbTargLib_TCD_FAULT, Some p, st6))
                     }
            }
        })"

text \<open>The endpoints a pipe asks for: one, or an OUT and an IN endpoint for a control pipe.\<close>

definition validate_endpoints :: "('d, 'a) targ_env \<Rightarrow> tcd_id \<Rightarrow> u16 \<Rightarrow> u16 \<Rightarrow> u16 \<Rightarrow> u16 \<Rightarrow> ('d, 'a) targ
    \<Rightarrow> targ_status \<times> nat option \<times> nat option \<times> ('d, 'a) targ" where
  "validate_endpoints E i eid eid2 xfr dir st =
     (if xfr = USB_XFRTYPE_CONTROL
      then let (s, k, st1) = validateEndpoint E i eid USB_XFRTYPE_CONTROL USB_DIR_OUT st
           in if s \<noteq> OK then (s, k, None, st1)
              else let (s2, k2, st2) = validateEndpoint E i eid2 USB_XFRTYPE_CONTROL USB_DIR_IN st1 in (s2, k, k2, st2)
      else let (s, k, st1) = validateEndpoint E i eid xfr dir st in (s, k, None, st1))"

text \<open>The number of the endpoint: in range, and not in use in this direction.\<close>

definition check_number :: "('d, 'a) targ_env \<Rightarrow> tcd_id \<Rightarrow> u16 \<Rightarrow> u16 \<Rightarrow> targ_status \<Rightarrow> ('d, 'a) targ \<Rightarrow> targ_status" where
  "check_number E i dir num s st =
     (if s \<noteq> OK then s
      else if num > USB_MAX_ENDPOINT_NUM then S_usbTargLib_BAD_PARAM
      else if list_ex (endpoint_taken dir num) (case table E i (drv st) of None \<Rightarrow> [] | Some eps \<Rightarrow> eps)
      then S_usbTargLib_ENDPOINT_IN_USE else OK)"

text \<open>The end of \<open>usbTargPipeCreate\<close>: a pipe is linked to its channel, or what there is of it is destroyed.\<close>

definition finish_pipe :: "('d, 'a) targ_env \<Rightarrow> tcd_id \<Rightarrow> targ_status \<Rightarrow> pipe_id option \<Rightarrow> ('d, 'a) targ
    \<Rightarrow> (targ_status \<times> u32 option \<times> ('d, 'a) targ) option" where
  "finish_pipe E i s pp st =
     (if s \<noteq> OK
      then do {
        st1 \<leftarrow> destroyPipe E pp st;
        let (r, st2) = ossStatus s st1;
        Some (r, None, st2)
      }
      else do {
        p \<leftarrow> pp;
        q \<leftarrow> pipes st p;
        Some (OK, Some (pipeHandle q), on_tcd i (\<lambda>t. t\<lparr>tcd_pipes := tcd_pipes t @ [p]\<rparr>) st)
      })"

text \<open>
  \<open>usbTargPipeCreate\<close>: the status of \<open>validateTarg\<close> is overwritten by that of the endpoints, so that an invalid channel (or a null
  \<^verbatim>\<open>pPipeHandle\<close>) leaves the pointer to the channel unset and the call follows it. The second result is what is stored at
  \<^verbatim>\<open>pPipeHandle\<close>.
\<close>

definition usbTargPipeCreate :: "('d, 'a) targ_env \<Rightarrow> bool \<Rightarrow> u32 \<Rightarrow> u16 \<Rightarrow> u16 \<Rightarrow> u16 \<Rightarrow> u16 \<Rightarrow> u16 \<Rightarrow> u16 \<Rightarrow> u16 \<Rightarrow> ('d, 'a) targ
    \<Rightarrow> (targ_status \<times> u32 option \<times> ('d, 'a) targ) option" where
  "usbTargPipeCreate E null ch eid eid2 num conf intf xfr dir0 st =
     (let (_, ii, st0) = validateTarg ch st; dir = (if xfr = USB_XFRTYPE_CONTROL then USB_DIR_OUT else dir0)
      in if null then None
         else do {
           i \<leftarrow> ii;
           t \<leftarrow> tcds st0 i;
           let (s1, k, k2, st1) = validate_endpoints E i eid eid2 xfr dir st0;
           let s2 = check_number E i dir num s1 st1;
           (s3, pp, st2) \<leftarrow> (if s2 \<noteq> OK then Some (s2, None, st1)
                             else build_pipe E i eid eid2 num conf intf xfr dir (the k) k2 st1);
           finish_pipe E i s3 pp st2
         })"

definition usbTargPipeDestroy :: "('d, 'a) targ_env \<Rightarrow> u32 \<Rightarrow> ('d, 'a) targ \<Rightarrow> (targ_status \<times> ('d, 'a) targ) option" where
  "usbTargPipeDestroy E h st =
     (let (s, pp, st0) = validatePipe h st
      in if s \<noteq> OK then Some (s, st0) else do { p \<leftarrow> pp; map_option (Pair OK) (destroyPipe E (Some p) st0) })"

definition usbTargTransferAbort :: "('d, 'a) targ_env \<Rightarrow> u32 \<Rightarrow> erp_id option \<Rightarrow> ('d, 'a) targ \<Rightarrow> (targ_status \<times> ('d, 'a) targ) option" where
  "usbTargTransferAbort E h pErp st =
     (case pErp of
        None \<Rightarrow> Some (ossStatus S_usbTargLib_BAD_PARAM st)
      | Some e \<Rightarrow>
          let (s, pp, st0) = validatePipe h st
          in if s \<noteq> OK then Some (ossStatus s st0)
             else do { p \<leftarrow> pp; (s1, st1) \<leftarrow> cancel_erp E p e st0; Some (ossStatus s1 st1) })"

section \<open>Channels\<close>

definition zero_tcd :: targ_tcd where
  "zero_tcd = \<lparr>targChannel = 0, deviceAddress = 0, pCallbacks = 0, attached = False, speed = 0, tcd_pipes = [],
     controlPipe = 0, setupBfr = replicate 8 0, setupErpPending = False, dataBfr = replicate USB_MAX_DESCR_LEN 0,
     dataErpPending = False, statusErpPending = False\<rparr>"

text \<open>The steps of \<open>usbTargTcdAttach\<close> on the new object \<open>i\<close>, until one fails.\<close>

definition attach_channel :: "('d, 'a) targ_env \<Rightarrow> nat \<Rightarrow> tcd_id \<Rightarrow> ('d, 'a) targ \<Rightarrow> (targ_status \<times> ('d, 'a) targ) option" where
  "attach_channel E cbs i st = do {
     let st1 = st\<lparr>tcds := (tcds st)(i := Some (zero_tcd\<lparr>pCallbacks := cbs\<rparr>)),
                  erp_mem := (erp_mem st)(Setup_erp i := zero_erp, Data_erp i := zero_erp, Status_erp i := zero_erp)\<rparr>;
     (h, st2) \<leftarrow> create_handle TARG_TCD_SIG (Tcd_obj i) st1;
     case h of
       None \<Rightarrow> Some (S_usbTargLib_OUT_OF_RESOURCES, st2)
     | Some h \<Rightarrow>
         let (ok, st3) = usbTcdAttach E i (on_tcd i (\<lambda>t. t\<lparr>targChannel := h\<rparr>) st2)
         in if \<not> ok then Some (S_usbTargLib_TCD_FAULT, st3)
            else case table E i (drv st3) of
                   None \<Rightarrow> Some (S_usbTargLib_TCD_FAULT, st3)
                 | Some eps \<Rightarrow>
                     if length eps < 2 then Some (S_usbTargLib_TCD_FAULT, st3)
                     else do {
                       (s, ph, st4) \<leftarrow> usbTargPipeCreate E False h (endpointId (eps ! 0)) (endpointId (eps ! 1)) 0
                          NO_CONFIGURATION NO_INTERFACE USB_XFRTYPE_CONTROL USB_DIR_INOUT st3;
                       if s \<noteq> OK then Some (s, st4)
                       else do {
                         (s, st5) \<leftarrow> initSetupErp E i (on_tcd i (\<lambda>t. t\<lparr>controlPipe := the ph\<rparr>) st4);
                         if s \<noteq> OK then Some (s, st5)
                         else do {
                           (s, st6) \<leftarrow> mngmtFunc E i TCD_MNGMT_ATTACH (st5\<lparr>tcdList := tcdList st5 @ [i]\<rparr>);
                           Some (if s \<noteq> OK then S_usbTargLib_APP_FAULT else OK, st6)
                         }
                       }
                     }
   }"

text \<open>\<open>null\<close>: one of the pointers is null. The second result is what is stored at \<^verbatim>\<open>pTargChannel\<close>.\<close>

definition usbTargTcdAttach :: "('d, 'a) targ_env \<Rightarrow> bool \<Rightarrow> nat \<Rightarrow> ('d, 'a) targ \<Rightarrow> (targ_status \<times> u32 option \<times> ('d, 'a) targ) option" where
  "usbTargTcdAttach E null cbs st =
     (if null then (let (r, st1) = ossStatus S_usbTargLib_BAD_PARAM st in Some (r, None, st1))
      else if targ_initCount st = 0 then (let (r, st1) = ossStatus S_usbTargLib_NOT_INITIALIZED st in Some (r, None, st1))
      else case calloc st of
             (None, st1) \<Rightarrow> (let (r, st2) = ossStatus S_usbTargLib_OUT_OF_MEMORY st1 in Some (r, None, st2))
           | (Some i, st1) \<Rightarrow> do {
               (s, st2) \<leftarrow> attach_channel E cbs i st1;
               t \<leftarrow> tcds st2 i;
               if s = OK then Some (OK, Some (targChannel t), st2)
               else do {
                 st3 \<leftarrow> destroyTcd E (Some i) st2;
                 let (r, st4) = ossStatus s st3;
                 Some (r, if s = S_usbTargLib_APP_FAULT then Some (targChannel t) else None, st4)
               }
             })"

text \<open>Operations on a valid channel. Some return the status of the driver as it is, without \<open>ossStatus\<close>.\<close>

definition on_channel :: "u32 \<Rightarrow> (tcd_id \<Rightarrow> ('d, 'a) targ \<Rightarrow> (targ_status \<times> ('d, 'a) targ) option) \<Rightarrow> ('d, 'a) targ \<Rightarrow> (targ_status \<times> ('d, 'a) targ) option" where
  "on_channel ch f st =
     (let (s, ii, st0) = validateTarg ch st in if s \<noteq> OK then Some (s, st0) else do { i \<leftarrow> ii; f i st0 })"

definition tcd_fault :: "(bool \<times> ('d, 'a) targ) option \<Rightarrow> (targ_status \<times> ('d, 'a) targ) option" where
  "tcd_fault r = map_option (\<lambda>(ok, st). (if ok then OK else S_usbTargLib_TCD_FAULT, st)) r"

definition with_errno :: "(targ_status \<times> ('d, 'a) targ) option \<Rightarrow> (targ_status \<times> ('d, 'a) targ) option" where
  "with_errno r = map_option (\<lambda>(s, st). ossStatus s st) r"

definition usbTargTcdDetach :: "('d, 'a) targ_env \<Rightarrow> u32 \<Rightarrow> ('d, 'a) targ \<Rightarrow> (targ_status \<times> ('d, 'a) targ) option" where
  "usbTargTcdDetach E ch = on_channel ch (\<lambda>i st. map_option (Pair OK) (destroyTcd E (Some i) st))"

definition usbTargEndpointInfoGet :: "('d, 'a) targ_env \<Rightarrow> u32 \<Rightarrow> ('d, 'a) targ
    \<Rightarrow> (targ_status \<times> endpoint_info list option \<times> ('d, 'a) targ) option" where
  "usbTargEndpointInfoGet E ch st =
     (let (s, ii, st0) = validateTarg ch st
      in if s \<noteq> OK then (let (r, st1) = ossStatus s st0 in Some (r, None, st1))
         else do { i \<leftarrow> ii; Some (OK, table E i (drv st0), st0) })"

definition usbTargEnable :: "('d, 'a) targ_env \<Rightarrow> u32 \<Rightarrow> ('d, 'a) targ \<Rightarrow> (targ_status \<times> ('d, 'a) targ) option" where
  "usbTargEnable E ch = on_channel ch (\<lambda>i st. tcd_fault (usbTcdEnable E i st))"

definition usbTargDisable :: "('d, 'a) targ_env \<Rightarrow> u32 \<Rightarrow> ('d, 'a) targ \<Rightarrow> (targ_status \<times> ('d, 'a) targ) option" where
  "usbTargDisable E ch = on_channel ch (\<lambda>i st. tcd_fault (usbTcdDisable E i st))"

text \<open>\<open>bfr\<close> is \<open>None\<close> for a null \<^verbatim>\<open>pBfr\<close>.\<close>

definition usbTargControlResponseSend :: "('d, 'a) targ_env \<Rightarrow> u32 \<Rightarrow> u16 \<Rightarrow> u8 list option \<Rightarrow> ('d, 'a) targ \<Rightarrow> (targ_status \<times> ('d, 'a) targ) option" where
  "usbTargControlResponseSend E ch len bfr st =
     with_errno (on_channel ch (\<lambda>i st.
       let fault = map_option (\<lambda>(s, st). (if s \<noteq> OK then S_usbTargLib_GENERAL_FAULT else OK, st))
       in case bfr of
            None \<Rightarrow> fault (initStatusErp E i USB_PID_IN st)
          | Some bs \<Rightarrow> if unat len > USB_MAX_DESCR_LEN then Some (S_usbTargLib_BAD_PARAM, st)
                       else fault (initDataErpForResponse E i len (store_data i (take (unat len) bs) st))) st)"

definition usbTargControlPayloadRcv :: "('d, 'a) targ_env \<Rightarrow> u32 \<Rightarrow> erp_id option \<Rightarrow> ('d, 'a) targ \<Rightarrow> (targ_status \<times> ('d, 'a) targ) option" where
  "usbTargControlPayloadRcv E ch pErp st =
     with_errno (on_channel ch (\<lambda>i st. do { t \<leftarrow> tcds st i; usbTargTransfer E (controlPipe t) pErp st }) st)"

definition usbTargCurrentFrameGet :: "('d, 'a) targ_env \<Rightarrow> u32 \<Rightarrow> ('d, 'a) targ \<Rightarrow> (targ_status \<times> u16 option \<times> ('d, 'a) targ) option" where
  "usbTargCurrentFrameGet E ch st =
     (let (s, ii, st0) = validateTarg ch st
      in if s \<noteq> OK then (let (r, st1) = ossStatus s st0 in Some (r, None, st1))
         else do {
           i \<leftarrow> ii;
           (ok, n, st1) \<leftarrow> usbTcdCurrentFrameGet E i st0;
           let (r, st2) = ossStatus (if ok then OK else S_usbTargLib_TCD_FAULT) st1;
           Some (r, Some n, st2)
         })"

definition usbTargSignalResume :: "('d, 'a) targ_env \<Rightarrow> u32 \<Rightarrow> ('d, 'a) targ \<Rightarrow> (targ_status \<times> ('d, 'a) targ) option" where
  "usbTargSignalResume E ch st = with_errno (on_channel ch (\<lambda>i st. tcd_fault (usbTcdSignalResume E i st)) st)"

end
