(* ===== verification/Usb_Targ_Demo.thy ===== *)
theory Usb_Targ_Demo
  imports Usb_Targ
begin

text \<open>
  A controller with four endpoints and an application that answers one kind of request: an environment in which the
  hypotheses of the theorems on the target library hold.
\<close>

declare create_search.simps [code] cancel_all.simps [code] destroy_pipes.simps [code] destroy_tcds.simps [code]

definition demo_endpoint :: "u16 \<Rightarrow> u16 \<Rightarrow> endpoint_info" where
  "demo_endpoint eid flags = \<lparr>endpointId = eid, ep_flags = flags, endpointNum = 0, transferType = 0, direction = 0, maxPacketSize = 8\<rparr>"

definition demo_table :: "endpoint_info list" where
  "demo_table = [demo_endpoint 1 (TCD_ENDPOINT_OUT_OK OR TCD_ENDPOINT_CTRL_OK), demo_endpoint 2 (TCD_ENDPOINT_IN_OK OR TCD_ENDPOINT_CTRL_OK),
     demo_endpoint 3 (TCD_ENDPOINT_OUT_OK OR TCD_ENDPOINT_BULK_OK), demo_endpoint 4 (TCD_ENDPOINT_IN_OK OR TCD_ENDPOINT_BULK_OK)]"

definition demo_exec :: "trb \<Rightarrow> endpoint_info list \<Rightarrow> bool \<times> endpoint_info list" where
  "demo_exec trb eps =
     (case trb of
        Trb_endpoint_assign eid num conf intf xfr dir \<Rightarrow>
          (True, map (\<lambda>ep. if endpointId ep = eid then ep\<lparr>ep_flags := ep_flags ep OR TCD_ENDPOINT_IN_USE, endpointNum := num,
                       transferType := xfr, direction := dir\<rparr> else ep) eps)
      | Trb_endpoint_release eid \<Rightarrow>
          (True, map (\<lambda>ep. if endpointId ep = eid then ep\<lparr>ep_flags := ep_flags ep AND NOT TCD_ENDPOINT_IN_USE\<rparr> else ep) eps)
      | Trb_erp_cancel _ \<Rightarrow> (False, eps)
      | _ \<Rightarrow> (True, eps))"

definition demo_callbacks :: "(endpoint_info list, unit) targ_callbacks" where
  "demo_callbacks = \<lparr>mngmt_func = None, featureClear = Some (\<lambda>_ _ _ _ st. (OK, st)), featureSet = None, configurationGet = None,
     configurationSet = None, descriptorGet = Some (\<lambda>_ _ _ _ _ _ st. (OK, ([18, 1], 2), st)), descriptorSet = None, interfaceGet = None,
     interfaceSet = None, statusGet = None, addressSet = None, synchFrameGet = None, vendorSpecific = None\<rparr>"

definition demo_env :: "(endpoint_info list, unit) targ_env" where
  "demo_env = \<lparr>exec = \<lambda>_. demo_exec, table = \<lambda>_ eps. Some eps, bus_speed = \<lambda>_ _. 0, frame_no = \<lambda>_ _. 0, calls_back = \<lambda>_ _ _. True,
     callback_tables = \<lambda>_. demo_callbacks, user_callback = \<lambda>_ st. st\<rparr>"

definition demo_start :: "(endpoint_info list, unit) targ" where
  "demo_start = \<lparr>targ_initCount = 1, ossInitialized = True, handleInitialized = True, targMutex = True, tcdList = [], tcds = \<lambda>_. None,
     pipes = \<lambda>_. None, erp_mem = \<lambda>_. zero_erp, hdls = \<lparr>initCount = 1, handles = Some (replicate 4 zero_descr), numHandles = 4,
     usedHandles = 0, nextHandleNum = 0, hdl_lib.mutex = True\<rparr>, oom = \<lambda>_. False, nalloc = 0, errno = OK, drv = demo_table, app = ()\<rparr>"

text \<open>The state after an attachment.\<close>

definition demo_st :: "(endpoint_info list, unit) targ" where
  "demo_st = snd (snd (the (usbTargTcdAttach demo_env False 0 demo_start)))"

text \<open>A controller that refuses every request, a channel without pipes, and the same with a bulk IN pipe on endpoint number 1.\<close>

definition broken_env :: "(endpoint_info list, unit) targ_env" where
  "broken_env = demo_env\<lparr>exec := \<lambda>_ _ d. (False, d)\<rparr>"

definition demo_idle :: "(endpoint_info list, unit) targ" where
  "demo_idle = demo_start\<lparr>tcds := [0 \<mapsto> zero_tcd\<lparr>targChannel := 1, attached := True\<rparr>], nalloc := 1,
     hdls := \<lparr>initCount = 1, handles = Some [\<lparr>handle = 1, handleSig = TARG_TCD_SIG, handleParam = Some (Tcd_obj 0)\<rparr>, zero_descr],
       numHandles = 2, usedHandles = 0, nextHandleNum = 1, hdl_lib.mutex = True\<rparr>\<rparr>"

definition demo_bulk :: "(endpoint_info list, unit) targ" where
  "demo_bulk = snd (snd (the (usbTargPipeCreate demo_env False 1 4 0 1 1 0 USB_XFRTYPE_BULK USB_DIR_IN demo_idle)))"

lemma demo_result:
  assumes "map_option (\<lambda>(s, h, _). (s, h)) r = Some (a, b)"
  shows "r = Some (a, b, snd (snd (the r)))"
  using assms by (cases r) auto

lemma demo_attach: "usbTargTcdAttach demo_env False 0 demo_start = Some (OK, Some 1, demo_st)"
  unfolding demo_st_def by (rule demo_result) code_simp

lemma demo_pipe: "usbTargPipeCreate demo_env False 1 4 0 1 1 0 USB_XFRTYPE_BULK USB_DIR_IN demo_idle = Some (OK, Some 2, demo_bulk)"
  unfolding demo_bulk_def by (rule demo_result) code_simp

lemma demo_start_inv: "hdl_inv (hdls demo_start)"
  by (simp add: demo_start_def hdl_inv_def zero_descr_def)

lemma demo_idle_inv: "hdl_inv (hdls demo_idle)"
  by (simp add: demo_idle_def hdl_inv_def zero_descr_def All_less_Suc)

end
