(* ===== verification/Usb_Targ_Correct.thy ===== *)
theory Usb_Targ_Correct
  imports Usb_Targ_Demo
begin

text \<open>
  The USB target library apart from the control pipe: pipes are created whole or not at all, the data toggle follows the
  number of packets, and where the library gives up.
\<close>

section \<open>The data toggle\<close>

text \<open>The packets of a transfer: as many as its buffers take, each with a last short one.\<close>

definition packets_of :: "u16 \<Rightarrow> usb_bfr \<Rightarrow> nat" where
  "packets_of mx b = (unat (actLen b) + unat mx - 1) div unat mx"

definition transfer_packets :: "u16 \<Rightarrow> usb_erp \<Rightarrow> nat" where
  "transfer_packets mx erp = (\<Sum>b\<leftarrow>bfrList erp. packets_of mx b)"

definition flip_toggle :: "u16 \<Rightarrow> u16" where
  "flip_toggle tog = (if tog = USB_DATA0 then USB_DATA1 else USB_DATA0)"

lemma packets_of_word:
  assumes "0 < mx" and "unat (actLen b) + unat mx \<le> 2 ^ 32"
  shows "unat ((actLen b + ucast mx - 1) div ucast mx :: u32) = packets_of mx b"
proof -
  have "unat mx < 2 ^ 16" using unsigned_less[of mx, where ?'a = nat] by simp
  then have "unat mx < 2 ^ 32" by simp
  then have mx: "unat (ucast mx :: u32) = unat mx" by (simp add: unsigned_ucast_eq take_bit_nat_eq_self)
  have pos: "0 < unat mx" using assms(1) by (simp add: word_less_nat_alt)
  have "ucast mx \<noteq> (0 :: u32)" using pos mx by (metis less_not_refl unat_0)
  then have m: "unat (ucast mx - 1 :: u32) = unat mx - 1" using mx by (simp add: unat_minus_one)
  have "unat (actLen b) + (unat mx - 1) < 2 ^ 32" using assms(2) pos by linarith
  then have "unat (actLen b + (ucast mx - 1)) = unat (actLen b) + (unat mx - 1)"
    using unat_add_lem[of "actLen b" "ucast mx - 1"] by (simp add: m)
  then have "unat (actLen b + ucast mx - 1) = unat (actLen b) + unat mx - 1" using pos by (simp only: add_diff_eq)
  then show ?thesis using mx by (simp add: unat_div packets_of_def)
qed

lemma ucast_of_nat_u16: "(ucast (of_nat n :: u32) :: u16) = of_nat n"
  by (rule word_unat_eq_iff[THEN iffD2]) (simp add: unsigned_ucast_eq unsigned_of_nat take_bit_nat_def mod_mod_cancel)

lemma count_packets_sum:
  assumes "0 < mx" and "list_all (\<lambda>b. unat (actLen b) + unat mx \<le> 2 ^ 32) bs"
  shows "count_packets mx bs = of_nat (\<Sum>b\<leftarrow>bs. packets_of mx b)"
  using assms(2)
proof (induction bs)
  case (Cons b bs)
  then have "(actLen b + ucast mx - 1) div ucast mx = (of_nat (packets_of mx b) :: u32)"
    using packets_of_word[OF assms(1), of b, symmetric] by simp
  then show ?case using Cons by (simp add: ucast_of_nat_u16)
qed simp

text \<open>
  C14: after a transfer on a bulk or interrupt pipe the toggle is the old one if the number of packets was even and the other
  one if it was odd, a transfer without data counting for one packet; the 16-bit counter does not matter unless the number is a
  multiple of 65536.
\<close>

theorem next_toggle_parity:
  assumes "0 < mx" and "list_all (\<lambda>b. unat (actLen b) + unat mx \<le> 2 ^ 32) (bfrList erp)"
    and "transfer_packets mx erp = 0 \<or> transfer_packets mx erp mod 2 ^ 16 \<noteq> 0"
  shows "next_toggle mx erp tog =
    (if odd (if erp_result erp = RESULT_OK then max (transfer_packets mx erp) 1 else transfer_packets mx erp)
     then flip_toggle tog else tog)"
proof -
  let ?N = "transfer_packets mx erp" and ?n = "count_packets mx (bfrList erp)"
  have n: "?n = of_nat ?N" using count_packets_sum[OF assms(1,2)] by (simp add: transfer_packets_def)
  have odd: "(w AND 1 \<noteq> 0) = odd w" for w :: u16 by (simp add: and_one_eq odd_iff_mod_2_eq_one even_iff_mod_2_eq_zero)
  have "max ?n 1 = (if ?N = 0 then 1 else ?n)"
  proof (cases "?N = 0")
    case False
    then have "unat ?n \<noteq> 0" using assms(3) by (simp add: n unat_of_nat)
    then have "1 \<le> ?n" by (simp add: word_le_nat_alt)
    then show ?thesis using False by (simp add: max_def)
  qed (simp add: n)
  then show ?thesis unfolding next_toggle_def Let_def odd by (auto simp: n flip_toggle_def)
qed

lemma next_toggle_wraps:
  assumes "0 < mx" and "list_all (\<lambda>b. unat (actLen b) + unat mx \<le> 2 ^ 32) (bfrList erp)"
    and "transfer_packets mx erp = 2 ^ 16" and "erp_result erp = RESULT_OK"
  shows "next_toggle mx erp tog = flip_toggle tog"
proof -
  have "count_packets mx (bfrList erp) = of_nat (2 ^ 16)"
    using count_packets_sum[OF assms(1,2)] assms(3) by (simp add: transfer_packets_def)
  then have "count_packets mx (bfrList erp) = 0" by simp
  then show ?thesis using assms(4) by (simp add: next_toggle_def flip_toggle_def)
qed

theorem next_toggle_parity_witness:
  "next_toggle 64 (zero_erp\<lparr>bfrList := [\<lparr>b_pid = USB_PID_IN, pBfr = Data_bfr, bfrLen = 200, actLen = 130\<rparr>]\<rparr>) USB_DATA0 = USB_DATA1"
proof -
  let ?r = "zero_erp\<lparr>bfrList := [\<lparr>b_pid = USB_PID_IN, pBfr = Data_bfr, bfrLen = 200, actLen = 130\<rparr>]\<rparr>"
  have "transfer_packets 64 ?r = 3" by code_simp
  then show ?thesis using next_toggle_parity[of 64 ?r USB_DATA0] by (simp add: flip_toggle_def)
qed

section \<open>Where the library gives up\<close>

lemma reset_pipes_none:
  "list_all (\<lambda>p. case pipes st p of None \<Rightarrow> False | Some q \<Rightarrow>
      (case endpoint E i (pEndpoint q) st of None \<Rightarrow> False | Some ep \<Rightarrow> \<not> reset_applies conf intf num q (endpointNum ep))) ps \<Longrightarrow>
   reset_pipes E i conf intf num ps st = Some st"
  by (induction ps) (auto split: option.splits)

lemma in_address: "e \<le> 15 \<Longrightarrow> n \<le> 15 \<Longrightarrow> (0x80 OR n :: u16) \<noteq> e \<and> (0x80 OR n :: u16) \<noteq> 0xffff"
proof -
  assume le: "e \<le> 15" "n \<le> 15"
  have small: "\<not> bit w k" if "w \<le> (15 :: u16)" "4 \<le> k" for w k
  proof -
    have "unat w < 2 ^ 4" using that(1) by (simp add: word_le_nat_alt)
    also have "(2 :: nat) ^ 4 \<le> 2 ^ k" using that(2) by (rule power_increasing) simp
    finally have "\<not> bit (unat w) k" by (simp add: bit_iff_odd)
    then show ?thesis using bit_imp_le_length[of w k] by (auto simp: bit_unsigned_iff)
  qed
  have "bit (0x80 OR n :: u16) 7" "\<not> bit (0x80 OR n :: u16) 8" "bit (0xffff :: u16) 8"
    using small[OF le(2), of 8] by (simp_all add: bit_simps)
  moreover have "\<not> bit e 7" using small[OF le(1), of 7] by simp
  ultimately show ?thesis by metis
qed

text \<open>
  Clearing the halt of an IN endpoint does not reset its data toggle: the request names the endpoint by its address, with
  the direction in bit 7, which is compared with bare endpoint numbers.
\<close>

theorem clear_halt_in_keeps_toggle:
  assumes "tcds st i = Some t" and "n \<le> 15"
    and "list_all (\<lambda>p. case pipes st p of None \<Rightarrow> False | Some q \<Rightarrow>
      (case endpoint E i (pEndpoint q) st of None \<Rightarrow> False | Some ep \<Rightarrow> endpointNum ep \<le> 15)) (tcd_pipes t)"
    and "requestType u = USB_RT_ENDPOINT" and "s_value u = USB_FSEL_DEV_ENDPOINT_HALT" and "s_index u = 0x80 OR n"
  shows "requestClearFeature E i u st =
    (case featureClear (app_of E t) of
       None \<Rightarrow> Some (ERROR, st)
     | Some f \<Rightarrow> let (s, st2) = f (targChannel t) (requestType u) (s_value u) (s_index u) st
                 in if s \<noteq> OK then Some (ERROR, st2) else initStatusErp E i USB_PID_IN st2)"
proof -
  have "reset_pipes E i ANY_CONFIGURATION ANY_ENDPOINT (0x80 OR n) (tcd_pipes t) st = Some st"
    by (rule reset_pipes_none, rule list.pred_mono_strong[OF assms(3)])
      (use in_address[OF _ assms(2)] in \<open>fastforce simp: reset_applies_def ANY_ENDPOINT_def split: option.splits\<close>)
  then have "resetDataToggle E i ANY_CONFIGURATION ANY_ENDPOINT (0x80 OR n) st = Some st"
    using assms(1) by (simp add: resetDataToggle_def)
  then show ?thesis using assms(1,4-6) by (simp add: requestClearFeature_def)
qed

theorem clear_halt_in_keeps_toggle_witness:
  "requestClearFeature demo_env 0 \<lparr>requestType = 2, request = 1, s_value = 0, s_index = 0x81, s_length = 0\<rparr> demo_bulk =
    initStatusErp demo_env 0 USB_PID_IN demo_bulk"
proof -
  have t: "tcds demo_bulk 0 = Some (the (tcds demo_bulk 0))" by (rule option.collapse[symmetric]) code_simp
  have "list_all (\<lambda>p. case pipes demo_bulk p of None \<Rightarrow> False | Some q \<Rightarrow>
      (case endpoint demo_env 0 (pEndpoint q) demo_bulk of None \<Rightarrow> False | Some ep \<Rightarrow> endpointNum ep \<le> 15)) (tcd_pipes (the (tcds demo_bulk 0)))"
    by code_simp
  from clear_halt_in_keeps_toggle[OF t _ this, of 1 "\<lparr>requestType = 2, request = 1, s_value = 0, s_index = 0x81, s_length = 0\<rparr>"]
  show ?thesis by (simp add: USB_RT_ENDPOINT_def USB_FSEL_DEV_ENDPOINT_HALT_def app_of_def demo_env_def demo_callbacks_def)
qed

lemma transfer_tcds: "usbTargTransfer E h pe st = Some (s, st') \<Longrightarrow> tcds st' = tcds st"
  by (auto simp: usbTargTransfer_def validatePipe_def ossStatus_def usbTcdErpSubmit_def usbTcd_def on_erp_def on_pipe_def Let_def
      split: option.splits if_splits bind_splits prod.splits list.splits)

text \<open>
  A packet of the control pipe whose submission fails stays marked as pending; from then on every attempt to submit it
  fails without a call of the driver.
\<close>

theorem initErp_failed_stays_pending:
  assumes "initErp E i e cb tog pid bfr len st = Some (s, st')" and "s \<noteq> OK" and "e \<in> {Setup_erp j, Data_erp j, Status_erp j}"
  shows "initErp E i e cb' tog' pid' bfr' len' st' = Some (ERROR, st')"
proof -
  obtain t where t: "tcds st i = Some t" using assms(1) by (auto simp: initErp_def split: bind_splits)
  show ?thesis
  proof (cases "erp_pending e t")
    case True
    then show ?thesis using assms(1) t by (simp add: initErp_def)
  next
    case False
    then have "tcds st' i = Some (set_pending e True t)"
      using assms(1) t transfer_tcds by (fastforce simp: initErp_def Let_def on_tcd_def on_erp_def)
    then show ?thesis using assms(3) by (auto simp: initErp_def)
  qed
qed

theorem initErp_failed_stays_pending_witness:
  "map_option fst (initErp broken_env 0 (Data_erp 0) Response_callback 1 USB_PID_IN Data_bfr 2
     (snd (the (initErp broken_env 0 (Data_erp 0) Response_callback 1 USB_PID_IN Data_bfr 2 demo_idle)))) = Some ERROR"
proof -
  let ?r = "initErp broken_env 0 (Data_erp 0) Response_callback 1 USB_PID_IN Data_bfr 2 demo_idle"
  have "map_option fst ?r = Some ERROR" by code_simp
  then have "?r = Some (ERROR, snd (the ?r))" by (cases ?r) auto
  from initErp_failed_stays_pending[OF this, of 0] show ?thesis by simp
qed

text \<open>
  A pipe with an outstanding packet that the driver does not cancel is never destroyed: the loop asks for ever.
\<close>

theorem cancel_all_hangs:
  assumes "pipes st p = Some q" and "erps q = e # es" and "tcds st (pTcd q) = Some t" and "attached t"
    and "\<And>d. \<not> fst (exec E (pTcd q) (Trb_erp_cancel e) d)"
  shows "cancel_all E p st = None"
proof (rule ccontr)
  assume "cancel_all E p st \<noteq> None"
  then obtain r where r: "cancel_all E p st = Some r" by blast
  let ?C = "\<lambda>E p st. \<exists>q e es t. pipes st p = Some q \<and> erps q = e # es \<and> tcds st (pTcd q) = Some t \<and> attached t
      \<and> (\<forall>d. \<not> fst (exec E (pTcd q) (Trb_erp_cancel e) d))"
  have "\<not> ?C E p st"
  proof (rule cancel_all.raw_induct[where P = "\<lambda>E p st _. \<not> ?C E p st", OF _ r])
    fix rec E p st y
    assume ih: "\<And>E p st y. rec E p st = Some y \<Longrightarrow> \<not> ?C E p st"
      and run: "Option.bind (pipes st p) (\<lambda>q. case erps q of [] \<Rightarrow> Some st
         | e # _ \<Rightarrow> Option.bind (cancel_erp E p e st) (\<lambda>r. rec E p (snd r))) = Some y"
    show "\<not> ?C E p st"
    proof
      assume "?C E p st"
      then obtain q e es t where c: "pipes st p = Some q" "erps q = e # es" "tcds st (pTcd q) = Some t" "attached t"
        "\<forall>d. \<not> fst (exec E (pTcd q) (Trb_erp_cancel e) d)" by blast
      define st1 where "st1 = on_pipe p (\<lambda>q. q\<lparr>erpBeingDeleted := Some e, erpDeleted := False\<rparr>) st"
      define st2 where "st2 = st1\<lparr>drv := snd (exec E (pTcd q) (Trb_erp_cancel e) (drv st1))\<rparr>"
      have "cancel_erp E p e st = Some (S_usbTargLib_CANNOT_CANCEL, st2)"
        using c by (auto simp: cancel_erp_def cancelErp_def usbTcdErpCancel_def usbTcd_def st1_def st2_def on_pipe_def Let_def
            split: prod.splits dest: spec[of _ "drv st"])
      then have "rec E p st2 = Some y" using run c(1,2) by simp
      moreover have "?C E p st2" using c by (auto simp: st2_def st1_def on_pipe_def)
      ultimately show False using ih by blast
    qed
  qed
  then show False using assms by blast
qed

theorem cancel_all_hangs_witness: "cancel_all demo_env 1 demo_st = None"
proof (rule cancel_all_hangs)
  show "pipes demo_st 1 = Some (the (pipes demo_st 1))" by (rule option.collapse[symmetric]) code_simp
  show "erps (the (pipes demo_st 1)) = Setup_erp 0 # []" by code_simp
  show "tcds demo_st (pTcd (the (pipes demo_st 1))) = Some (the (tcds demo_st (pTcd (the (pipes demo_st 1)))))"
    by (rule option.collapse[symmetric]) code_simp
  show "attached (the (tcds demo_st (pTcd (the (pipes demo_st 1)))))" by code_simp
qed (simp add: demo_env_def demo_exec_def)

section \<open>Pipes\<close>

text \<open>Memory: objects have addresses below the next one to be allocated.\<close>

definition mem_ok :: "('d, 'a) targ \<Rightarrow> bool" where
  "mem_ok st \<longleftrightarrow> (\<forall>p \<ge> nalloc st. pipes st p = None)
     \<and> (\<forall>i t. tcds st i = Some t \<longrightarrow> (\<forall>p \<in> set (tcd_pipes t). p < nalloc st))"

lemma validateTarg_some: "validateTarg ch st = (s, Some i, st0) \<Longrightarrow> s = OK \<and> st0 = st"
  by (auto simp: validateTarg_def split: if_splits prod.splits option.splits targ_obj.splits)

lemma validate_endpoint_errno:
  assumes "\<And>x. P (st\<lparr>errno := x\<rparr>)"
  shows "P (snd (snd (validateEndpoint E i eid xfr dir st)))"
proof -
  have "P st" using assms[of "errno st"] by simp
  then show ?thesis by (cases "findEndpointById E i eid st") (simp_all add: validateEndpoint_def Let_def ossStatus_def assms)
qed

lemma validate_endpoints_errno:
  assumes "validate_endpoints E i eid eid2 xfr dir st = (s, k, k2, st1)"
  obtains x where "st1 = st\<lparr>errno := x\<rparr>"
proof -
  define P where "P = (\<lambda>s. \<exists>x. s = st\<lparr>errno := x\<rparr>)"
  have step: "P (snd (snd (validateEndpoint E i e y d s)))" if "P s" for e y d s
    by (rule validate_endpoint_errno) (use that in \<open>auto simp: P_def\<close>)
  have "P st" unfolding P_def by (rule exI[of _ "errno st"]) simp
  then have "P (snd (snd (validateEndpoint E i eid xfr dir st)))" "P (snd (snd (validateEndpoint E i eid USB_XFRTYPE_CONTROL USB_DIR_OUT st)))"
    "P (snd (snd (validateEndpoint E i eid2 USB_XFRTYPE_CONTROL USB_DIR_IN (snd (snd (validateEndpoint E i eid USB_XFRTYPE_CONTROL USB_DIR_OUT st))))))"
    by (simp_all add: step)
  then have "P st1" using assms by (auto simp: validate_endpoints_def Let_def split: if_splits prod.splits)
  then show thesis using that by (auto simp: P_def)
qed

text \<open>The parts of a new pipe that a step of its creation has set.\<close>

definition new_pipe :: "tcd_id \<Rightarrow> u16 \<Rightarrow> u16 \<Rightarrow> u32 \<Rightarrow> nat option \<Rightarrow> nat option \<Rightarrow> targ_pipe" where
  "new_pipe i conf intf h k k2 = zero_pipe\<lparr>pTcd := i, p_configuration := conf, p_interface := intf, dataToggle := USB_DATA0,
     pipeHandle := h, pEndpoint := k, pEndpoint2 := k2\<rparr>"

definition same_rest :: "('d, 'a) targ \<Rightarrow> ('d, 'a) targ \<Rightarrow> bool" where
  "same_rest st st' \<longleftrightarrow> tcds st' = tcds st \<and> erp_mem st' = erp_mem st \<and> tcdList st' = tcdList st
     \<and> targ_initCount st' = targ_initCount st"

lemma build_pipe_result:
  assumes "hdl_inv (hdls st)" and "build_pipe E i eid eid2 num conf intf xfr dir k k2 st = Some (s, Some p, st')"
  obtains h k' k2' where "p = nalloc st" "hdl_inv (hdls st')" "h \<noteq> 0" "hdl_lookup (hdls st) h = None"
    "hdl_lookup (hdls st') = (hdl_lookup (hdls st))(h \<mapsto> (TARG_PIPE_SIG, Some (Pipe_obj p)))"
    "pipes st' = (pipes st)(p \<mapsto> new_pipe i conf intf h k' k2')" "same_rest st st'"
    "s = OK \<Longrightarrow> k' = Some k \<and> k2' = k2"
proof -
  have free: "hdl_free (hdls st)"
  proof (rule ccontr)
    assume "\<not> hdl_free (hdls st)"
    then show False
      using assms(2) usbHandleCreate_stuck[OF assms(1)] by (auto simp: build_pipe_def calloc_def create_handle_def split: if_splits)
  qed
  obtain h H where h: "usbHandleCreate False True TARG_PIPE_SIG (Some (Pipe_obj (nalloc st))) (hdls st) = Some (hdl_status.OK, Some h, H)"
    "hdl_inv H" "h \<noteq> 0" "hdl_lookup (hdls st) h = None"
    "hdl_lookup H = (hdl_lookup (hdls st))(h \<mapsto> (TARG_PIPE_SIG, Some (Pipe_obj (nalloc st))))"
    by (rule usbHandleCreate_new[OF assms(1) free])
  have "p = nalloc st \<and> hdls st' = H \<and> same_rest st st'
      \<and> (\<exists>k' k2'. pipes st' = (pipes st)(p \<mapsto> new_pipe i conf intf h k' k2') \<and> (s = OK \<longrightarrow> k' = Some k \<and> k2' = k2))"
    using assms(2) h(1)
    by (auto simp: build_pipe_def calloc_def create_handle_def usbTcdEndpointAssign_def usbTcd_def Let_def on_pipe_def new_pipe_def
        zero_pipe_def same_rest_def split: if_splits option.splits bind_splits prod.splits)
      ((rule exI)+, rule refl)+
  then show thesis using that h by blast
qed

lemma release_endpoint_drv: "release_endpoint E i k st = Some st' \<Longrightarrow> \<exists>d. st' = st\<lparr>drv := d\<rparr>"
proof (cases k)
  case None
  assume "release_endpoint E i k st = Some st'"
  then show ?thesis using None by (intro exI[of _ "drv st"]) (simp add: release_endpoint_def)
qed (auto simp: release_endpoint_def usbTcdEndpointRelease_def usbTcd_def split: bind_splits if_splits prod.splits)

lemma destroy_new_pipe:
  assumes "hdl_inv (hdls st)" and "pipes st p = Some (new_pipe i conf intf h k k2)" and "hdl_lookup (hdls st) h \<noteq> None"
    and "\<And>t. tcds st i = Some t \<Longrightarrow> p \<notin> set (tcd_pipes t)" and "destroyPipe E (Some p) st = Some st'"
  shows "hdl_inv (hdls st')" "hdl_lookup (hdls st') = (hdl_lookup (hdls st))(h := None)" "pipes st' = (pipes st)(p := None)" "same_rest st st'"
proof -
  let ?st = "on_tcd i (\<lambda>t. t\<lparr>tcd_pipes := remove1 p (tcd_pipes t)\<rparr>) st"
  have st: "?st = st"
    using assms(4) by (cases "tcds st i") (auto simp: on_tcd_def remove1_idem fun_upd_idem)
  have "cancel_all E p ?st = Some ?st"
    using assms(2) by (subst cancel_all.simps) (simp add: on_tcd_def new_pipe_def zero_pipe_def)
  then obtain st2 st3 where r: "release_endpoint E i k st = Some st2" "release_endpoint E i k2 st2 = Some st3"
    "st' = (destroy_handle h st3)\<lparr>pipes := (pipes (destroy_handle h st3))(p := None)\<rparr>"
    using assms(2,5) st by (auto simp: destroyPipe_def new_pipe_def zero_pipe_def Let_def split: bind_splits)
  obtain d where d: "st3 = st\<lparr>drv := d\<rparr>" using release_endpoint_drv[OF r(1)] release_endpoint_drv[OF r(2)] by auto
  obtain v where v: "hdl_lookup (hdls st) h = Some v" using assms(3) by blast
  obtain H where "usbHandleDestroy True h (hdls st) = (hdl_status.OK, H)" "hdl_inv H" "hdl_lookup H = (hdl_lookup (hdls st))(h := None)"
    by (rule usbHandleDestroy_live[OF assms(1) v])
  then show "hdl_inv (hdls st')" "hdl_lookup (hdls st') = (hdl_lookup (hdls st))(h := None)" "pipes st' = (pipes st)(p := None)" "same_rest st st'"
    by (simp_all add: r(3) d destroy_handle_def same_rest_def)
qed

lemma validateEndpoint_ok:
  assumes "validateEndpoint E i eid xfr dir st = (OK, k, st1)"
  shows "k = findEndpointById E i eid st \<and> k \<noteq> None \<and> st1 = st"
proof -
  have "fst (validateEndpoint E i eid xfr dir st) = OK \<longrightarrow> snd (validateEndpoint E i eid xfr dir st) = (findEndpointById E i eid st, st)
      \<and> findEndpointById E i eid st \<noteq> None"
    by (cases "findEndpointById E i eid st") (simp_all add: validateEndpoint_def Let_def)
  then show ?thesis using assms by simp
qed

text \<open>The stages of a creation that returns.\<close>

lemma pipe_create_steps:
  assumes "usbTargPipeCreate E False ch eid eid2 num conf intf xfr dir0 st = Some (r, hh, st')"
  defines "dir \<equiv> if xfr = USB_XFRTYPE_CONTROL then USB_DIR_OUT else dir0"
  obtains i t s1 k k2 x s3 pp st2 where "validateTarg ch st = (OK, Some i, st)" "tcds st i = Some t"
    "validate_endpoints E i eid eid2 xfr dir st = (s1, k, k2, st\<lparr>errno := x\<rparr>)"
    "(if check_number E i dir num s1 st \<noteq> OK then Some (check_number E i dir num s1 st, None, st\<lparr>errno := x\<rparr>)
      else build_pipe E i eid eid2 num conf intf xfr dir (the k) k2 (st\<lparr>errno := x\<rparr>)) = Some (s3, pp, st2)"
    "finish_pipe E i s3 pp st2 = Some (r, hh, st')"
proof -
  obtain i t where v: "validateTarg ch st = (OK, Some i, st)" "tcds st i = Some t"
    using assms(1) by (auto simp: usbTargPipeCreate_def Let_def split: prod.splits bind_splits dest: validateTarg_some)
  obtain s1 k k2 st1 where e: "validate_endpoints E i eid eid2 xfr dir st = (s1, k, k2, st1)" by (metis prod_cases4)
  obtain x where x: "st1 = st\<lparr>errno := x\<rparr>" by (rule validate_endpoints_errno[OF e])
  have "check_number E i dir num s1 st1 = check_number E i dir num s1 st" by (simp add: check_number_def x)
  then have "Option.bind (if check_number E i dir num s1 st \<noteq> OK then Some (check_number E i dir num s1 st, None, st1)
      else build_pipe E i eid eid2 num conf intf xfr dir (the k) k2 st1) (\<lambda>(s3, pp, st2). finish_pipe E i s3 pp st2) = Some (r, hh, st')"
    using assms(1) v e by (cases "check_number E i dir num s1 st = OK") (simp_all add: usbTargPipeCreate_def dir_def[symmetric] Let_def)
  then obtain s3 pp st2 where "(if check_number E i dir num s1 st \<noteq> OK then Some (check_number E i dir num s1 st, None, st1)
      else build_pipe E i eid eid2 num conf intf xfr dir (the k) k2 st1) = Some (s3, pp, st2)" "finish_pipe E i s3 pp st2 = Some (r, hh, st')"
    unfolding bind_eq_Some_conv by auto
  then show thesis using that[OF v e[unfolded x]] x by blast
qed

lemma build_pipe_memory:
  "build_pipe E i eid eid2 num conf intf xfr dir k k2 st = Some (s, None, st') \<Longrightarrow> s \<noteq> OK \<and> st' = st\<lparr>nalloc := Suc (nalloc st)\<rparr>"
  by (auto simp: build_pipe_def calloc_def Let_def split: if_splits option.splits bind_splits prod.splits)

lemma pipe_created:
  assumes "hdl_inv (hdls st)" and "usbTargPipeCreate E False ch eid eid2 num conf intf xfr dir st = Some (OK, hh, st')"
  shows "\<exists>i t p h. hh = Some h \<and> validateTarg ch st = (OK, Some i, st) \<and> tcds st i = Some t \<and> p = nalloc st
    \<and> num \<le> USB_MAX_ENDPOINT_NUM \<and> findEndpointById E i eid st \<noteq> None
    \<and> (xfr = USB_XFRTYPE_CONTROL \<longrightarrow> findEndpointById E i eid2 st \<noteq> None)
    \<and> h \<noteq> 0 \<and> hdl_inv (hdls st') \<and> hdl_lookup (hdls st) h = None
    \<and> hdl_lookup (hdls st') = (hdl_lookup (hdls st))(h \<mapsto> (TARG_PIPE_SIG, Some (Pipe_obj p)))
    \<and> pipes st' = (pipes st)(p \<mapsto> new_pipe i conf intf h (findEndpointById E i eid st)
        (if xfr = USB_XFRTYPE_CONTROL then findEndpointById E i eid2 st else None))
    \<and> tcds st' = (tcds st)(i \<mapsto> t\<lparr>tcd_pipes := tcd_pipes t @ [p]\<rparr>) \<and> erp_mem st' = erp_mem st
    \<and> targ_initCount st' = targ_initCount st"
  using assms(2)
proof (rule pipe_create_steps)
  let ?dir = "if xfr = USB_XFRTYPE_CONTROL then USB_DIR_OUT else dir"
  fix i t s1 k k2 x s3 pp st2
  assume v: "validateTarg ch st = (OK, Some i, st)" "tcds st i = Some t"
    and e: "validate_endpoints E i eid eid2 xfr ?dir st = (s1, k, k2, st\<lparr>errno := x\<rparr>)"
    and b: "(if check_number E i ?dir num s1 st \<noteq> OK then Some (check_number E i ?dir num s1 st, None, st\<lparr>errno := x\<rparr>)
      else build_pipe E i eid eid2 num conf intf xfr ?dir (the k) k2 (st\<lparr>errno := x\<rparr>)) = Some (s3, pp, st2)"
    and f: "finish_pipe E i s3 pp st2 = Some (OK, hh, st')"
  have s3: "s3 = OK" using f by (auto simp: finish_pipe_def ossStatus_def split: if_splits bind_splits)
  then obtain p q where p: "pp = Some p" "pipes st2 p = Some q" "hh = Some (pipeHandle q)"
    "st' = on_tcd i (\<lambda>t. t\<lparr>tcd_pipes := tcd_pipes t @ [p]\<rparr>) st2" using f by (auto simp: finish_pipe_def split: bind_splits)
  have c: "check_number E i ?dir num s1 st = OK" using b s3 by (auto split: if_splits)
  then have s1: "s1 = OK" "num \<le> USB_MAX_ENDPOINT_NUM" by (auto simp: check_number_def split: if_splits)
  have k: "k = findEndpointById E i eid st" "k \<noteq> None" "k2 = (if xfr = USB_XFRTYPE_CONTROL then findEndpointById E i eid2 st else None)"
      "xfr = USB_XFRTYPE_CONTROL \<longrightarrow> k2 \<noteq> None"
    using e s1(1) by (auto simp: validate_endpoints_def Let_def split: if_splits prod.splits dest!: validateEndpoint_ok)
  have inv: "hdl_inv (hdls (st\<lparr>errno := x\<rparr>))" using assms(1) by simp
  have bp: "build_pipe E i eid eid2 num conf intf xfr ?dir (the k) k2 (st\<lparr>errno := x\<rparr>) = Some (OK, Some p, st2)"
    using b c s3 p(1) by simp
  show ?thesis
  proof (rule build_pipe_result[OF inv bp])
    fix h k' k2'
    assume r: "p = nalloc (st\<lparr>errno := x\<rparr>)" "hdl_inv (hdls st2)" "h \<noteq> 0" "hdl_lookup (hdls (st\<lparr>errno := x\<rparr>)) h = None"
      "hdl_lookup (hdls st2) = (hdl_lookup (hdls (st\<lparr>errno := x\<rparr>)))(h \<mapsto> (TARG_PIPE_SIG, Some (Pipe_obj p)))"
      "pipes st2 = (pipes (st\<lparr>errno := x\<rparr>))(p \<mapsto> new_pipe i conf intf h k' k2')" "same_rest (st\<lparr>errno := x\<rparr>) st2"
      "OK = OK \<Longrightarrow> k' = Some (the k) \<and> k2' = k2"
    have q: "q = new_pipe i conf intf h k' k2'" using p(2) r(6) by simp
    then have "pipeHandle q = h" by (simp add: new_pipe_def)
    show ?thesis
      using \<open>pipeHandle q = h\<close> v p(3,4) r k s1(2) by (intro exI[of _ i] exI[of _ t] exI[of _ p] exI[of _ h]) (simp add: on_tcd_def same_rest_def)
  qed
qed



text \<open>
  C13: a creation that fails leaves nothing behind: no handle, no pipe, and the channels as they were. Whatever the reason, the
  caller gets \<open>ERROR\<close> and no handle.
\<close>

theorem usbTargPipeCreate_error:
  assumes "hdl_inv (hdls st)" and "mem_ok st" and "r \<noteq> OK"
    and "usbTargPipeCreate E False ch eid eid2 num conf intf xfr dir st = Some (r, hh, st')"
  shows "r = ERROR \<and> hh = None \<and> hdl_inv (hdls st') \<and> hdl_lookup (hdls st') = hdl_lookup (hdls st) \<and> pipes st' = pipes st
    \<and> tcds st' = tcds st \<and> erp_mem st' = erp_mem st"
  using assms(4)
proof (rule pipe_create_steps)
  let ?dir = "if xfr = USB_XFRTYPE_CONTROL then USB_DIR_OUT else dir"
  fix i t s1 k k2 x s3 pp st2
  assume b: "(if check_number E i ?dir num s1 st \<noteq> OK then Some (check_number E i ?dir num s1 st, None, st\<lparr>errno := x\<rparr>)
      else build_pipe E i eid eid2 num conf intf xfr ?dir (the k) k2 (st\<lparr>errno := x\<rparr>)) = Some (s3, pp, st2)"
    and f: "finish_pipe E i s3 pp st2 = Some (r, hh, st')" and t: "tcds st i = Some t"
  have "s3 \<noteq> OK" using f assms(3) by (auto simp: finish_pipe_def split: bind_splits)
  then obtain st3 y where d: "destroyPipe E pp st2 = Some st3" "st' = st3\<lparr>errno := y\<rparr>" "r = ERROR" "hh = None"
    using f by (auto simp: finish_pipe_def ossStatus_def split: bind_splits)
  show ?thesis
  proof (cases pp)
    case None
    then have "hdls st2 = hdls st" "pipes st2 = pipes st" "same_rest st st2"
      using b build_pipe_memory[of E i eid eid2 num conf intf xfr ?dir "the k" k2 "st\<lparr>errno := x\<rparr>" s3 st2]
      by (auto simp: same_rest_def split: if_splits)
    then show ?thesis using d None assms(1) by (simp add: destroyPipe_def same_rest_def)
  next
    case (Some p)
    have inv: "hdl_inv (hdls (st\<lparr>errno := x\<rparr>))" using assms(1) by simp
    have bp: "build_pipe E i eid eid2 num conf intf xfr ?dir (the k) k2 (st\<lparr>errno := x\<rparr>) = Some (s3, Some p, st2)"
      using b Some by (auto split: if_splits)
    show ?thesis
    proof (rule build_pipe_result[OF inv bp])
      fix h k' k2'
      assume q: "p = nalloc (st\<lparr>errno := x\<rparr>)" "hdl_inv (hdls st2)" "h \<noteq> 0" "hdl_lookup (hdls (st\<lparr>errno := x\<rparr>)) h = None"
        "hdl_lookup (hdls st2) = (hdl_lookup (hdls (st\<lparr>errno := x\<rparr>)))(h \<mapsto> (TARG_PIPE_SIG, Some (Pipe_obj p)))"
        "pipes st2 = (pipes (st\<lparr>errno := x\<rparr>))(p \<mapsto> new_pipe i conf intf h k' k2')" "same_rest (st\<lparr>errno := x\<rparr>) st2"
      have fresh: "pipes st p = None" "p \<notin> set (tcd_pipes t)" using assms(2) q(1) t by (auto simp: mem_ok_def)
      have pipe: "pipes st2 p = Some (new_pipe i conf intf h k' k2')" using q(6) by simp
      have live: "hdl_lookup (hdls st2) h \<noteq> None" using q(5) by simp
      have "p \<notin> set (tcd_pipes t')" if "tcds st2 i = Some t'" for t' using that q(7) t fresh(2) by (simp add: same_rest_def)
      note z = destroy_new_pipe[OF q(2) pipe live this, of E st3]
      have "hdl_lookup (hdls st3) = hdl_lookup (hdls st)" using z(2) d(1) Some q(4,5) by (simp add: fun_upd_idem)
      moreover have "pipes st3 = pipes st" using z(3) d(1) Some q(6) fresh(1) by (simp add: fun_upd_idem)
      ultimately show ?thesis using z(1,4) d Some q(7) by (simp add: same_rest_def)
    qed
  qed
qed

theorem usbTargPipeCreate_error_witness:
  "pipes (snd (snd (the (usbTargPipeCreate broken_env False 1 4 0 1 1 0 USB_XFRTYPE_BULK USB_DIR_IN demo_idle)))) = pipes demo_idle"
proof -
  let ?r = "usbTargPipeCreate broken_env False 1 4 0 1 1 0 USB_XFRTYPE_BULK USB_DIR_IN demo_idle"
  have r: "?r = Some (ERROR, None, snd (snd (the ?r)))" by (rule demo_result) code_simp
  have "mem_ok demo_idle" by (simp add: mem_ok_def demo_idle_def demo_start_def zero_tcd_def)
  from usbTargPipeCreate_error[OF demo_idle_inv this _ r] show ?thesis by simp
qed

end
