(* ===== verification/Usb_Targ_Control.thy ===== *)
theory Usb_Targ_Control
  imports Usb_Targ_Correct
begin

text \<open>
  The default control pipe of a channel. A control transfer goes from its setup packet to a data and a
  status phase, or to the status phase at once, or is refused; the channel then listens for the next
  setup packet. \<open>phase\<close> is the state in which exactly one of the three packets is with the driver.
\<close>

section \<open>The state of a channel\<close>

definition ctl_erp :: "tcd_id \<Rightarrow> erp_id \<Rightarrow> bool" where
  "ctl_erp i e \<longleftrightarrow> e \<in> {Setup_erp i, Data_erp i, Status_erp i}"

fun callback_of :: "erp_id \<Rightarrow> erp_callback" where
  "callback_of (Setup_erp _) = Setup_callback"
| "callback_of (Data_erp _) = Response_callback"
| "callback_of (Status_erp _) = Status_callback"
| "callback_of (User_erp _) = User_callback"

definition pipe_ready :: "('d, 'a) targ_env \<Rightarrow> tcd_id \<Rightarrow> 'd \<Rightarrow> targ_pipe \<Rightarrow> bool" where
  "pipe_ready E i d q \<longleftrightarrow>
     (case table E i d of None \<Rightarrow> False
      | Some eps \<Rightarrow> pred_option (\<lambda>k. k < length eps) (pEndpoint q) \<and> pEndpoint q \<noteq> None
          \<and> pred_option (\<lambda>k. k < length eps) (pEndpoint2 q))"

definition control_pipe :: "('d, 'a) targ_env \<Rightarrow> tcd_id \<Rightarrow> 'd \<Rightarrow> targ_pipe \<Rightarrow> bool" where
  "control_pipe E i d q \<longleftrightarrow> pTcd q = i \<and> pipe_ready E i d q \<and> pEndpoint2 q \<noteq> None
     \<and> transferType (the (table E i d) ! the (pEndpoint q)) = USB_XFRTYPE_CONTROL"

definition channel :: "('d, 'a) targ_env \<Rightarrow> tcd_id \<Rightarrow> targ_tcd \<Rightarrow> pipe_id \<Rightarrow> targ_pipe \<Rightarrow> ('d, 'a) targ \<Rightarrow> bool" where
  "channel E i t p q st \<longleftrightarrow>
     tcds st i = Some t \<and> attached t \<and> validateTarg (targChannel t) st = (OK, Some i, st)
     \<and> validatePipe (controlPipe t) st = (OK, Some p, st) \<and> controlPipe t \<noteq> 0 \<and> pipes st p = Some q \<and> control_pipe E i (drv st) q
     \<and> list_all (\<lambda>p. pred_option (pipe_ready E i (drv st)) (pipes st p) \<and> pipes st p \<noteq> None) (tcd_pipes t)"

text \<open>A packet as \<open>initErp\<close> and \<open>usbTargTransfer\<close> leave it.\<close>

definition submitted :: "tcd_id \<Rightarrow> pipe_id \<Rightarrow> erp_id \<Rightarrow> usb_erp \<Rightarrow> bool" where
  "submitted i p e r \<longleftrightarrow> targPtr r = Some p \<and> userPtr r = Some i \<and> userCallback r = Some (callback_of e)
     \<and> erp_transferType r = USB_XFRTYPE_CONTROL \<and> length (bfrList r) = 1"

definition phase_at :: "('d, 'a) targ_env \<Rightarrow> tcd_id \<Rightarrow> erp_id option \<Rightarrow> targ_tcd \<Rightarrow> pipe_id \<Rightarrow> targ_pipe \<Rightarrow> ('d, 'a) targ \<Rightarrow> bool" where
  "phase_at E i eo t p q st \<longleftrightarrow> channel E i t p q st
     \<and> setupErpPending t = (eo = Some (Setup_erp i)) \<and> dataErpPending t = (eo = Some (Data_erp i))
     \<and> statusErpPending t = (eo = Some (Status_erp i))
     \<and> filter (ctl_erp i) (erps q) = (case eo of None \<Rightarrow> [] | Some e \<Rightarrow> [e])
     \<and> pred_option (\<lambda>e. ctl_erp i e \<and> submitted i p e (erp_mem st e)) eo"

definition phase :: "('d, 'a) targ_env \<Rightarrow> tcd_id \<Rightarrow> erp_id option \<Rightarrow> ('d, 'a) targ \<Rightarrow> bool" where
  "phase E i eo st \<longleftrightarrow> (\<exists>t p q. phase_at E i eo t p q st)"

section \<open>The driver and the application\<close>

text \<open>Requests that do not concern the assignment of endpoints.\<close>

definition harmless :: "trb \<Rightarrow> bool" where
  "harmless trb \<longleftrightarrow> (case trb of Trb_endpoint_assign _ _ _ _ _ _ \<Rightarrow> False | Trb_endpoint_release _ \<Rightarrow> False | _ \<Rightarrow> True)"

text \<open>
  What is expected of the driver: it takes every packet, and only assigning and releasing endpoints
  changes its table.
\<close>

definition tcd_ok :: "('d, 'a) targ_env \<Rightarrow> tcd_id \<Rightarrow> bool" where
  "tcd_ok E i \<longleftrightarrow> (\<forall>e r d. fst (exec E i (Trb_erp_submit e r) d))
     \<and> (\<forall>trb d. harmless trb \<longrightarrow> table E i (snd (exec E i trb d)) = table E i d)"

text \<open>
  What is expected of the application: a callback changes nothing but its own state; one that takes a request on
  itself answers it with \<open>usbTargControlResponseSend\<close>.
\<close>

definition quiet :: "('d, 'a) targ_call \<Rightarrow> bool" where
  "quiet f \<longleftrightarrow> (\<forall>st. \<exists>a. snd (f st) = st\<lparr>app := a\<rparr>)"

definition quiet_answer :: "('d, 'a, 'r) answer \<Rightarrow> bool" where
  "quiet_answer f \<longleftrightarrow> (\<forall>st. \<exists>a. snd (snd (f st)) = st\<lparr>app := a\<rparr>)"

definition responds :: "('d, 'a) targ_env \<Rightarrow> u32 \<Rightarrow> ('d, 'a) targ_call \<Rightarrow> bool" where
  "responds E ch f \<longleftrightarrow> (\<forall>st. \<exists>a. (fst (f st) \<noteq> OK \<and> snd (f st) = st\<lparr>app := a\<rparr>)
     \<or> (fst (f st) = OK \<and> (\<exists>len bfr. usbTargControlResponseSend E ch len bfr (st\<lparr>app := a\<rparr>) = Some (OK, snd (f st)))))"

definition app_ok :: "('d, 'a) targ_env \<Rightarrow> ('d, 'a) targ_callbacks \<Rightarrow> bool" where
  "app_ok E T \<longleftrightarrow>
     pred_option (\<lambda>f. \<forall>ch r v x. quiet (f ch r v x)) (featureClear T) \<and> pred_option (\<lambda>f. \<forall>ch r v x. quiet (f ch r v x)) (featureSet T)
     \<and> pred_option (\<lambda>f. \<forall>ch. quiet_answer (f ch)) (configurationGet T) \<and> pred_option (\<lambda>f. \<forall>ch c. quiet (f ch c)) (configurationSet T)
     \<and> pred_option (\<lambda>f. \<forall>ch r ty x l n. quiet_answer (f ch r ty x l n)) (descriptorGet T)
     \<and> pred_option (\<lambda>f. \<forall>ch r ty x l n. responds E ch (f ch r ty x l n)) (descriptorSet T)
     \<and> pred_option (\<lambda>f. \<forall>ch x. quiet_answer (f ch x)) (interfaceGet T) \<and> pred_option (\<lambda>f. \<forall>ch x c. quiet (f ch x c)) (interfaceSet T)
     \<and> pred_option (\<lambda>f. \<forall>ch r x n. quiet_answer (f ch r x n)) (statusGet T) \<and> pred_option (\<lambda>f. \<forall>ch a. quiet (f ch a)) (addressSet T)
     \<and> pred_option (\<lambda>f. \<forall>ch x. quiet_answer (f ch x)) (synchFrameGet T)
     \<and> pred_option (\<lambda>f. \<forall>ch r q v x n. responds E ch (f ch r q v x n)) (vendorSpecific T)
     \<and> pred_option (\<lambda>f. \<forall>ch c. quiet (f ch c)) (mngmt_func T)"

section \<open>What the phase depends on\<close>

definition tcd_core :: "targ_tcd \<Rightarrow> targ_tcd" where
  "tcd_core t = t\<lparr>deviceAddress := 0, speed := 0, setupBfr := [], dataBfr := []\<rparr>"

definition pipe_core :: "targ_pipe \<Rightarrow> targ_pipe" where
  "pipe_core q = q\<lparr>dataToggle := 0, erpBeingDeleted := None, erpDeleted := False\<rparr>"

definition same_ctl :: "('d, 'a) targ_env \<Rightarrow> tcd_id \<Rightarrow> ('d, 'a) targ \<Rightarrow> ('d, 'a) targ \<Rightarrow> bool" where
  "same_ctl E i st st' \<longleftrightarrow>
     map_option tcd_core (tcds st' i) = map_option tcd_core (tcds st i)
     \<and> (\<forall>p. map_option pipe_core (pipes st' p) = map_option pipe_core (pipes st p))
     \<and> erp_mem st' = erp_mem st \<and> hdls st' = hdls st \<and> targ_initCount st' = targ_initCount st
     \<and> table E i (drv st') = table E i (drv st)"

lemma same_ctl_refl [simp]: "same_ctl E i st st"
  by (simp add: same_ctl_def)

lemma same_ctl_trans: "same_ctl E i a b \<Longrightarrow> same_ctl E i b c \<Longrightarrow> same_ctl E i a c"
  by (simp add: same_ctl_def)

lemma same_ctl_app [simp]: "same_ctl E i st (st\<lparr>app := a\<rparr>)" "same_ctl E i st (st\<lparr>errno := x\<rparr>)"
  by (simp_all add: same_ctl_def)

lemma tcd_coreD:
  assumes "tcd_core t' = tcd_core t"
  shows "targChannel t' = targChannel t" "pCallbacks t' = pCallbacks t" "attached t' = attached t" "tcd_pipes t' = tcd_pipes t"
    "controlPipe t' = controlPipe t" "setupErpPending t' = setupErpPending t" "dataErpPending t' = dataErpPending t"
    "statusErpPending t' = statusErpPending t"
  using assms by (cases t; cases t'; simp add: tcd_core_def)+

lemma pipe_coreD:
  assumes "pipe_core q' = pipe_core q"
  shows "pipeHandle q' = pipeHandle q" "pTcd q' = pTcd q" "pEndpoint q' = pEndpoint q" "pEndpoint2 q' = pEndpoint2 q" "erps q' = erps q"
  using assms by (cases q; cases q'; simp add: pipe_core_def)+

lemma same_ctl_validate:
  assumes "same_ctl E i st st'"
  shows "validatePipe h st = (OK, pp, st) \<Longrightarrow> validatePipe h st' = (OK, pp, st')"
    and "validateTarg ch st = (OK, ii, st) \<Longrightarrow> validateTarg ch st' = (OK, ii, st')"
  using assms by (auto simp: same_ctl_def validatePipe_def validateTarg_def split: prod.splits if_splits)

lemma map_option_same: "map_option f y = map_option f z \<Longrightarrow> z = Some x \<Longrightarrow> \<exists>x'. y = Some x' \<and> f x' = f x"
  by (cases y) auto

lemma same_ctlD:
  assumes "same_ctl E i st st'"
  shows "tcds st i = Some t \<Longrightarrow> \<exists>t'. tcds st' i = Some t' \<and> tcd_core t' = tcd_core t"
    and "pipes st p = Some q \<Longrightarrow> \<exists>q'. pipes st' p = Some q' \<and> pipe_core q' = pipe_core q"
  using assms map_option_same[of tcd_core "tcds st' i" "tcds st i" t] map_option_same[of pipe_core "pipes st' p" "pipes st p" q]
  by (simp_all add: same_ctl_def)

lemma phase_same:
  assumes "same_ctl E i st st'" and "phase_at E i eo t p q st"
  obtains t' q' where "phase_at E i eo t' p q' st'" "tcd_core t' = tcd_core t"
proof -
  obtain t' q' where t': "tcds st' i = Some t'" "tcd_core t' = tcd_core t" and q': "pipes st' p = Some q'" "pipe_core q' = pipe_core q"
    using same_ctlD[OF assms(1)] assms(2) unfolding phase_at_def channel_def by metis
  note T = tcd_coreD[OF t'(2)] and Q = pipe_coreD[OF q'(2)]
  have ready: "pipe_ready E i (drv st') b = pipe_ready E i (drv st) a" if "pipe_core b = pipe_core a" for a b
    using assms(1) pipe_coreD[OF that] by (cases "table E i (drv st)") (simp_all add: pipe_ready_def same_ctl_def)
  have pipes: "pred_option (pipe_ready E i (drv st')) (pipes st' r) \<and> pipes st' r \<noteq> None"
    if some: "pred_option (pipe_ready E i (drv st)) (pipes st r) \<and> pipes st r \<noteq> None" for r
  proof -
    obtain a where a: "pipes st r = Some a" using some by blast
    moreover obtain b where "pipes st' r = Some b" "pipe_core b = pipe_core a"
      using same_ctlD(2)[OF assms(1) a] by blast
    ultimately show ?thesis using some ready by simp
  qed
  have ch: "channel E i t p q st" using assms(2) by (simp add: phase_at_def)
  have all: "list_all (\<lambda>p. pred_option (pipe_ready E i (drv st)) (pipes st p) \<and> pipes st p \<noteq> None) (tcd_pipes t)"
    using ch by (simp add: channel_def)
  have "list_all (\<lambda>p. pred_option (pipe_ready E i (drv st')) (pipes st' p) \<and> pipes st' p \<noteq> None) (tcd_pipes t)"
    by (rule list.pred_mono_strong[OF all]) (rule pipes)
  then have "channel E i t' p q' st'"
    using ch same_ctl_validate[OF assms(1)] t'(1) q'(1) T Q ready[OF q'(2)] assms(1)
    by (simp add: channel_def control_pipe_def same_ctl_def)
  then have "phase_at E i eo t' p q' st'" using assms T Q by (simp add: phase_at_def same_ctl_def)
  then show thesis using that t'(2) by blast
qed

section \<open>The driver calls\<close>

lemma endpoint_ready:
  assumes "pipe_ready E i (drv st) q"
  shows "endpoint E i (pEndpoint q) st = Some (the (table E i (drv st)) ! the (pEndpoint q))"
    and "pEndpoint2 q \<noteq> None \<Longrightarrow> endpoint E i (pEndpoint2 q) st = Some (the (table E i (drv st)) ! the (pEndpoint2 q))"
  using assms by (auto simp: pipe_ready_def endpoint_def split: option.splits)

lemma tcd_call:
  assumes "tcd_ok E i" and "tcds st i = Some t" and "attached t" and "harmless trb"
  obtains ok st' where "usbTcd E i trb st = Some (ok, st')" "same_ctl E i st st'" "st' = st\<lparr>drv := drv st'\<rparr>"
proof -
  let ?r = "exec E i trb (drv st)"
  have "table E i (snd ?r) = table E i (drv st)" using assms(1,4) by (simp add: tcd_ok_def)
  then show thesis using assms(2,3) that[of "fst ?r" "st\<lparr>drv := snd ?r\<rparr>"]
    by (simp add: usbTcd_def same_ctl_def split: prod.split)
qed

lemma tcd_submit:
  assumes "tcd_ok E i" and "tcds st i = Some t" and "attached t"
  obtains d where "usbTcdErpSubmit E i e st = Some (True, st\<lparr>drv := d\<rparr>)" "table E i d = table E i (drv st)"
proof -
  obtain ok d where r: "exec E i (Trb_erp_submit e (erp_mem st e)) (drv st) = (ok, d)" by force
  have "fst (exec E i (Trb_erp_submit e (erp_mem st e)) (drv st))" using assms(1) by (simp add: tcd_ok_def)
  moreover have "harmless (Trb_erp_submit e (erp_mem st e))" by (simp add: harmless_def)
  then have "table E i (snd (exec E i (Trb_erp_submit e (erp_mem st e)) (drv st))) = table E i (drv st)"
    using assms(1) unfolding tcd_ok_def by blast
  ultimately show thesis using assms(2,3) r that[of d] by (simp add: usbTcdErpSubmit_def usbTcd_def)
qed

text \<open>Between two phases each of the three packets can be submitted.\<close>

lemma initErp_phase:
  assumes "tcd_ok E i" and "phase_at E i None t p q st" and "ctl_erp i e"
  obtains st' where "initErp E i e (callback_of e) tog pid bfr len st = Some (OK, st')" "phase E i (Some e) st'"
proof -
  have c: "tcds st i = Some t" "attached t" "validateTarg (targChannel t) st = (OK, Some i, st)"
    "validatePipe (controlPipe t) st = (OK, Some p, st)" "pipes st p = Some q" "control_pipe E i (drv st) q"
    using assms(2) by (simp_all add: phase_at_def channel_def)
  have np: "\<not> erp_pending e t" using assms(2,3) by (auto simp: phase_at_def ctl_erp_def)
  define r where "r = zero_erp\<lparr>userPtr := Some i, userCallback := Some (callback_of e), erp_dataToggle := tog,
                   bfrList := [\<lparr>b_pid = pid, pBfr = bfr, bfrLen = ucast len, actLen = 0\<rparr>]\<rparr>"
  define s2 where "s2 = on_erp e (\<lambda>_. r) (on_tcd i (set_pending e True) st)"
  have s2: "validatePipe (controlPipe t) s2 = (OK, Some p, s2)" "drv s2 = drv st" "pipes s2 p = Some q" "tcds s2 i = Some (set_pending e True t)"
    using c(1,4,5) by (auto simp: s2_def on_erp_def on_tcd_def validatePipe_def split: prod.splits if_splits)
  have q: "pTcd q = i" "pipe_ready E i (drv st) q" "pEndpoint2 q \<noteq> None"
    "transferType (the (table E i (drv st)) ! the (pEndpoint q)) = USB_XFRTYPE_CONTROL"
    using c(6) by (simp_all add: control_pipe_def)
  have ep: "endpoint E i (pEndpoint q) s2 = Some (the (table E i (drv st)) ! the (pEndpoint q))"
    "endpoint E i (pEndpoint2 q) s2 = Some (the (table E i (drv st)) ! the (pEndpoint2 q))"
    using endpoint_ready[of E i s2 q] q s2(2) by simp_all
  define eid where "eid = endpointId (the (table E i (drv st)) ! the (if pid = USB_PID_IN then pEndpoint2 q else pEndpoint q))"
  define s3 where "s3 = on_pipe p (\<lambda>q. q\<lparr>erps := e # erps q\<rparr>)
      (on_erp e (\<lambda>r. r\<lparr>targPtr := Some p, erp_transferType := USB_XFRTYPE_CONTROL, erp_endpointId := eid\<rparr>) s2)"
  have s3: "tcds s3 i = Some (set_pending e True t)" "attached (set_pending e True t)" "drv s3 = drv st"
    using s2(2,4) c(2) assms(3) by (auto simp: s3_def on_pipe_def on_erp_def ctl_erp_def)
  obtain d where d: "usbTcdErpSubmit E i e s3 = Some (True, s3\<lparr>drv := d\<rparr>)" "table E i d = table E i (drv s3)"
    by (rule tcd_submit[OF assms(1) s3(1,2)])
  have "usbTargTransfer E (controlPipe t) (Some e) s2 = Some (OK, s3\<lparr>drv := d\<rparr>)"
    using s2 ep q d(1) unfolding usbTargTransfer_def s3_def eid_def
    by (cases "pid = USB_PID_IN") (simp_all add: Let_def s2_def r_def on_erp_def zero_erp_def)
  then have run: "initErp E i e (callback_of e) tog pid bfr len st = Some (OK, s3\<lparr>drv := d\<rparr>)"
    using c(1) np by (simp add: initErp_def Let_def s2_def r_def)
  let ?t = "set_pending e True t" and ?q = "q\<lparr>erps := e # erps q\<rparr>" and ?s = "s3\<lparr>drv := d\<rparr>"
  have t: "targChannel ?t = targChannel t" "controlPipe ?t = controlPipe t" "tcd_pipes ?t = tcd_pipes t"
    "setupErpPending ?t = (e = Setup_erp i)" "dataErpPending ?t = (e = Data_erp i)" "statusErpPending ?t = (e = Status_erp i)"
    using assms(2,3) by (auto simp: ctl_erp_def phase_at_def)
  have st: "hdls ?s = hdls st" "targ_initCount ?s = targ_initCount st" "pipes ?s = (pipes st)(p \<mapsto> ?q)" "erp_mem ?s e = r\<lparr>targPtr := Some p,
      erp_transferType := USB_XFRTYPE_CONTROL, erp_endpointId := eid\<rparr>"
    using c(5) by (simp_all add: s3_def s2_def on_pipe_def on_erp_def on_tcd_def)
  have valid: "validatePipe (controlPipe ?t) ?s = (OK, Some p, ?s)" "validateTarg (targChannel ?t) ?s = (OK, Some i, ?s)"
    using c(3,4) st(1,2) unfolding t validatePipe_def validateTarg_def by (auto split: prod.splits if_splits)
  have ready: "pipe_ready E i d ?q" "\<And>a. pipe_ready E i d a = pipe_ready E i (drv st) a"
    using q(2) d(2) s3(3) by (simp_all add: pipe_ready_def split: option.splits)
  have "channel E i ?t p ?q ?s"
    using assms(2) valid s3(1,2) st(3) t(2,3) q ready d(2) s3(3)
    by (auto simp: channel_def phase_at_def control_pipe_def list.pred_set)
  moreover have "filter (ctl_erp i) (erps ?q) = [e]" using assms(2,3) by (simp add: phase_at_def)
  moreover have "submitted i p e (erp_mem ?s e)" unfolding st(4) by (simp add: submitted_def r_def)
  ultimately have "phase_at E i (Some e) ?t p ?q ?s" using assms(3) t(4-6) by (simp add: phase_at_def)
  then show thesis using that[OF run] by (auto simp: phase_def)
qed

lemma phase_ctl: "phase E i eo st \<Longrightarrow> same_ctl E i st st' \<Longrightarrow> phase E i eo st'"
  unfolding phase_def by (metis phase_same)

lemma status_phase:
  assumes "tcd_ok E i" and "phase E i None st"
  shows "\<exists>st'. initStatusErp E i pid st = Some (OK, st') \<and> phase E i (Some (Status_erp i)) st'"
  using assms(2) initErp_phase[OF assms(1), of _ _ _ st "Status_erp i" USB_DATA1 pid Null_bfr 0]
  unfolding phase_def initStatusErp_def by (metis callback_of.simps(3) ctl_erp_def insertCI)

lemma data_phase:
  assumes "tcd_ok E i" and "phase E i None st"
  shows "\<exists>st'. initDataErpForResponse E i len st = Some (OK, st') \<and> phase E i (Some (Data_erp i)) st'"
  using assms(2) initErp_phase[OF assms(1), of _ _ _ st "Data_erp i" USB_DATA1 USB_PID_IN Data_bfr len]
  unfolding phase_def initDataErpForResponse_def by (metis callback_of.simps(2) ctl_erp_def insertCI)

lemma setup_phase:
  assumes "tcd_ok E i" and "phase E i None st"
  shows "\<exists>st'. initSetupErp E i st = Some (OK, st') \<and> phase E i (Some (Setup_erp i)) st'"
  using assms(2) initErp_phase[OF assms(1), of _ _ _ st "Setup_erp i" USB_DATA0 USB_PID_SETUP Setup_bfr 8]
  unfolding phase_def initSetupErp_def by (metis callback_of.simps(1) ctl_erp_def insertCI)

section \<open>The requests\<close>

text \<open>A request is taken, and its data or status phase begins, or refused, and nothing has begun.\<close>

definition handled :: "('d, 'a) targ_env \<Rightarrow> tcd_id \<Rightarrow> ('d, 'a) targ \<Rightarrow> (targ_status \<times> ('d, 'a) targ) option \<Rightarrow> bool" where
  "handled E i st r \<longleftrightarrow> (\<exists>s st'. r = Some (s, st')
     \<and> (if s = OK then phase E i (Some (Data_erp i)) st' \<or> phase E i (Some (Status_erp i)) st'
        else phase E i None st' \<and> erp_mem st' = erp_mem st))"

lemma handled_status:
  assumes "tcd_ok E i" and "phase E i None st" and "same_ctl E i st st2"
  shows "handled E i st (if s \<noteq> OK then Some (ERROR, st2) else initStatusErp E i pid st2)" "handled E i st (initStatusErp E i pid st2)"
  using status_phase[OF assms(1) phase_ctl[OF assms(2,3)], of pid] phase_ctl[OF assms(2,3)] assms(3)
  by (auto simp: handled_def same_ctl_def)

lemma handled_data:
  assumes "tcd_ok E i" and "phase E i None st" and "same_ctl E i st st2"
  shows "handled E i st (if s \<noteq> OK then Some (ERROR, st2) else initDataErpForResponse E i len st2)"
  using data_phase[OF assms(1) phase_ctl[OF assms(2,3)], of len] phase_ctl[OF assms(2,3)] assms(3)
  by (auto simp: handled_def same_ctl_def)

lemma handled_refused: "phase E i None st \<Longrightarrow> same_ctl E i st st2 \<Longrightarrow> handled E i st (Some (ERROR, st2))"
  using phase_ctl[of E i None st st2] by (auto simp: handled_def) (simp add: same_ctl_def)

lemma store_data_ctl: "same_ctl E i st (store_data i bs st)"
  by (cases "tcds st i") (simp_all add: same_ctl_def store_data_def on_tcd_def tcd_core_def)

lemma response_phase:
  assumes "tcd_ok E i" and "phase_at E i None t p q st" and "usbTargControlResponseSend E (targChannel t) len bfr st = Some (OK, st')"
  shows "phase E i (Some (Data_erp i)) st' \<or> phase E i (Some (Status_erp i)) st'"
proof -
  have v: "validateTarg (targChannel t) st = (OK, Some i, st)" using assms(2) by (simp add: phase_at_def channel_def)
  have ph: "phase E i None st" using assms(2) by (auto simp: phase_def)
  show ?thesis
  proof (cases bfr)
    case None
    obtain st1 where "initStatusErp E i USB_PID_IN st = Some (OK, st1)" "phase E i (Some (Status_erp i)) st1"
      using status_phase[OF assms(1) ph] by blast
    then show ?thesis using assms(3) v None
      by (simp add: usbTargControlResponseSend_def with_errno_def on_channel_def ossStatus_def)
  next
    case (Some bs)
    obtain st1 where "initDataErpForResponse E i len (store_data i (take (unat len) bs) st) = Some (OK, st1)" "phase E i (Some (Data_erp i)) st1"
      using data_phase[OF assms(1) phase_ctl[OF ph store_data_ctl]] by blast
    then show ?thesis using assms(3) v Some
      by (auto simp: usbTargControlResponseSend_def with_errno_def on_channel_def ossStatus_def split: if_splits)
  qed
qed

lemma handled_responds:
  assumes "tcd_ok E i" and "phase_at E i None t p q st" and "responds E (targChannel t) f"
  shows "handled E i st (Some (f st))"
proof -
  obtain a where a: "(fst (f st) \<noteq> OK \<and> snd (f st) = st\<lparr>app := a\<rparr>)
     \<or> (fst (f st) = OK \<and> (\<exists>len bfr. usbTargControlResponseSend E (targChannel t) len bfr (st\<lparr>app := a\<rparr>) = Some (OK, snd (f st))))"
    using assms(3) unfolding responds_def by blast
  have ph: "phase E i None st" using assms(2) by (auto simp: phase_def)
  obtain t' q' where t': "phase_at E i None t' p q' (st\<lparr>app := a\<rparr>)" "tcd_core t' = tcd_core t"
    using phase_same[OF same_ctl_app(1) assms(2)] .
  show ?thesis
  proof (cases "fst (f st) \<noteq> OK \<and> snd (f st) = st\<lparr>app := a\<rparr>")
    case True
    then show ?thesis using phase_ctl[OF ph same_ctl_app(1)] by (cases "f st") (auto simp: handled_def)
  next
    case False
    then obtain len bfr where r: "fst (f st) = OK" "usbTargControlResponseSend E (targChannel t') len bfr (st\<lparr>app := a\<rparr>) = Some (OK, snd (f st))"
      using a tcd_coreD(1)[OF t'(2)] by auto
    then show ?thesis using response_phase[OF assms(1) t'(1) r(2)] by (cases "f st") (auto simp: handled_def)
  qed
qed

text \<open>Resetting the data toggles concerns pipes, not the packets on them.\<close>

lemma ready_same:
  assumes "same_ctl E i st st'"
  shows "pred_option (pipe_ready E i (drv st)) (pipes st p) \<and> pipes st p \<noteq> None \<Longrightarrow>
    pred_option (pipe_ready E i (drv st')) (pipes st' p) \<and> pipes st' p \<noteq> None"
proof -
  assume "pred_option (pipe_ready E i (drv st)) (pipes st p) \<and> pipes st p \<noteq> None"
  then obtain q where q: "pipes st p = Some q" "pipe_ready E i (drv st) q" by auto
  obtain q' where q': "pipes st' p = Some q'" "pipe_core q' = pipe_core q" using same_ctlD(2)[OF assms q(1)] by blast
  have "pipe_ready E i (drv st') q'"
    using q(2) pipe_coreD[OF q'(2)] assms by (cases "table E i (drv st)") (simp_all add: pipe_ready_def same_ctl_def)
  then show ?thesis using q'(1) by simp
qed

lemma toggle_ctl: "same_ctl E i st (on_pipe p (\<lambda>q. q\<lparr>dataToggle := x\<rparr>) st)"
  by (cases "pipes st p") (simp_all add: same_ctl_def on_pipe_def pipe_core_def)

lemma state_set:
  assumes "tcd_ok E i" and "tcds st i = Some t" and "attached t"
  obtains ok st' where "usbTcdEndpointStateSet E i eid state st = Some (ok, st')" "same_ctl E i st st'"
    "tcds st' = tcds st" "pipes st' = pipes st"
proof -
  have h: "harmless (Trb_endpoint_state_set eid state)" by (simp add: harmless_def)
  obtain ok st' where r: "usbTcd E i (Trb_endpoint_state_set eid state) st = Some (ok, st')" "same_ctl E i st st'" "st' = st\<lparr>drv := drv st'\<rparr>"
    by (rule tcd_call[OF assms h])
  have "tcds st' = tcds (st\<lparr>drv := drv st'\<rparr>)" "pipes st' = pipes (st\<lparr>drv := drv st'\<rparr>)"
    using arg_cong[OF r(3), of tcds] arg_cong[OF r(3), of pipes] by this+
  then show thesis using that[of ok st'] r(1,2) by (simp add: usbTcdEndpointStateSet_def)
qed

lemma reset_one:
  assumes "tcd_ok E i" and "tcds st i = Some t" and "attached t" and "pipes st p = Some q" and "pipe_ready E i (drv st) q"
  obtains ep st' where "endpoint E i (pEndpoint q) st = Some ep" "same_ctl E i st st'" "tcds st' = tcds st"
    "reset_pipes E i conf intf num (p # ps) st = reset_pipes E i conf intf num ps st'"
proof -
  define ep where "ep = the (table E i (drv st)) ! the (pEndpoint q)"
  have ep: "endpoint E i (pEndpoint q) st = Some ep" using endpoint_ready(1)[OF assms(5)] by (simp add: ep_def)
  show thesis
  proof (cases "reset_applies conf intf num q (endpointNum ep)")
    case False
    then show thesis using that[OF ep same_ctl_refl] assms(4) ep by simp
  next
    case True
    define s0 where "s0 = on_pipe p (\<lambda>q. q\<lparr>dataToggle := USB_DATA0\<rparr>) st"
    have s0: "tcds s0 i = Some t" "same_ctl E i st s0" "tcds s0 = tcds st" using assms(2) toggle_ctl[of E i st p] by (simp_all add: s0_def on_pipe_def)
    obtain ok s1 where s1: "usbTcdEndpointStateSet E i (endpointId ep) TCD_ENDPOINT_DATA0 s0 = Some (ok, s1)" "same_ctl E i s0 s1"
      "tcds s1 = tcds s0" "pipes s1 = pipes s0" by (rule state_set[OF assms(1) s0(1) assms(3)])
    have c1: "same_ctl E i st s1" by (rule same_ctl_trans[OF s0(2) s1(2)])
    show thesis
    proof (cases "pEndpoint2 q")
      case None
      then show thesis using that[OF ep c1] s1(1,3) s0(3) True assms(4) ep by (simp add: s0_def)
    next
      case (Some k)
      have "pipe_ready E i (drv s1) q" using assms(5) c1 by (simp add: pipe_ready_def same_ctl_def)
      then obtain ep2 where ep2: "endpoint E i (Some k) s1 = Some ep2" using endpoint_ready(2)[of E i s1 q] Some by auto
      have t1: "tcds s1 i = Some t" using s1(3) s0(1) by simp
      obtain ok2 s2 where s2: "usbTcdEndpointStateSet E i (endpointId ep2) TCD_ENDPOINT_DATA0 s1 = Some (ok2, s2)" "same_ctl E i s1 s2"
        "tcds s2 = tcds s1" "pipes s2 = pipes s1" by (rule state_set[OF assms(1) t1 assms(3)])
      then show thesis using that[OF ep same_ctl_trans[OF c1 s2(2)]] s1(1,3) s0(3) True assms(4) ep ep2 Some by (simp add: s0_def)
    qed
  qed
qed

lemma reset_pipes_ctl:
  assumes "tcd_ok E i" and "tcds st i = Some t" and "attached t"
    and "list_all (\<lambda>p. pred_option (pipe_ready E i (drv st)) (pipes st p) \<and> pipes st p \<noteq> None) ps"
  shows "\<exists>st'. reset_pipes E i conf intf num ps st = Some st' \<and> same_ctl E i st st'"
  using assms(2,4)
proof (induction ps arbitrary: st)
  case (Cons p ps)
  then obtain q where q: "pipes st p = Some q" "pipe_ready E i (drv st) q" by auto
  obtain ep st1 where s: "same_ctl E i st st1" "tcds st1 = tcds st" "reset_pipes E i conf intf num (p # ps) st = reset_pipes E i conf intf num ps st1"
    by (rule reset_one[OF assms(1) Cons.prems(1) assms(3) q])
  have "list_all (\<lambda>p. pred_option (pipe_ready E i (drv st)) (pipes st p) \<and> pipes st p \<noteq> None) ps" using Cons.prems(2) by simp
  then have "list_all (\<lambda>p. pred_option (pipe_ready E i (drv st1)) (pipes st1 p) \<and> pipes st1 p \<noteq> None) ps"
    by (rule list.pred_mono_strong) (rule ready_same[OF s(1)])
  then obtain st' where "reset_pipes E i conf intf num ps st1 = Some st'" "same_ctl E i st1 st'"
    using Cons.IH[of st1] Cons.prems(1) s(2) by auto
  then show ?case using s(3) same_ctl_trans[OF s(1)] by auto
qed simp

lemma resetDataToggle_ctl:
  assumes "tcd_ok E i" and "phase E i eo st"
  obtains st' where "resetDataToggle E i conf intf num st = Some st'" "same_ctl E i st st'"
proof -
  obtain t where t: "tcds st i = Some t" "attached t"
    "list_all (\<lambda>p. pred_option (pipe_ready E i (drv st)) (pipes st p) \<and> pipes st p \<noteq> None) (tcd_pipes t)"
    using assms(2) by (auto simp: phase_def phase_at_def channel_def)
  show thesis using reset_pipes_ctl[OF assms(1) t, of conf intf num] that t(1) by (auto simp: resetDataToggle_def)
qed

text \<open>A refusal stalls both endpoints of the control pipe.\<close>

lemma stall_ctl:
  assumes "tcd_ok E i" and "phase_at E i eo t p q st"
  obtains s st' where "usbTargPipeStatusSet E (targChannel t) (controlPipe t) state st = Some (s, st')" "same_ctl E i st st'"
proof -
  have c: "tcds st i = Some t" "attached t" "validateTarg (targChannel t) st = (OK, Some i, st)" "controlPipe t \<noteq> 0"
    "validatePipe (controlPipe t) st = (OK, Some p, st)" "pipes st p = Some q" "pipe_ready E i (drv st) q" "pEndpoint2 q \<noteq> None"
    using assms(2) by (simp_all add: phase_at_def channel_def control_pipe_def)
  define ep where "ep = the (table E i (drv st)) ! the (pEndpoint q)"
  have ep: "endpoint E i (pEndpoint q) st = Some ep" using endpoint_ready(1)[OF c(7)] by (simp add: ep_def)
  obtain k k2 where k: "pEndpoint q = Some k" "pEndpoint2 q = Some k2" using c(8) ep by (cases "pEndpoint q") (auto simp: endpoint_def)
  obtain ok s1 where s1: "usbTcdEndpointStateSet E i (endpointId ep) state st = Some (ok, s1)" "same_ctl E i st s1" "tcds s1 = tcds st" "pipes s1 = pipes st"
    by (rule state_set[OF assms(1) c(1,2)])
  have "pipe_ready E i (drv s1) q" using c(7) s1(2) by (simp add: pipe_ready_def same_ctl_def)
  then obtain ep2 where ep2: "endpoint E i (Some k2) s1 = Some ep2" using endpoint_ready(2)[of E i s1 q] k by auto
  have t1: "tcds s1 i = Some t" using s1(3) c(1) by simp
  obtain ok2 s2 where s2: "usbTcdEndpointStateSet E i (endpointId ep2) state s1 = Some (ok2, s2)" "same_ctl E i s1 s2"
    by (rule state_set[OF assms(1) t1 c(2)])
  have run: "usbTargPipeStatusSet E (targChannel t) (controlPipe t) state st =
    Some (if ok then ossStatus (if ok2 then OK else S_usbTargLib_TCD_FAULT) s2 else ossStatus S_usbTargLib_TCD_FAULT s1)"
    using c ep ep2 k s1(1) s2(1) by (simp add: usbTargPipeStatusSet_def Let_def)
  show thesis
  proof (cases ok)
    case True
    have "same_ctl E i st (snd (ossStatus (if ok2 then OK else S_usbTargLib_TCD_FAULT) s2))"
      using same_ctl_trans[OF same_ctl_trans[OF s1(2) s2(2)]] same_ctl_app(2) by (simp add: ossStatus_def)
    then show thesis using that run True by (metis prod.collapse)
  next
    case False
    then show thesis using that run same_ctl_trans[OF s1(2) same_ctl_app(2)] by (simp add: ossStatus_def)
  qed
qed

lemma quietD:
  assumes "quiet f"
  shows "same_ctl E i st (snd (f st))"
  using assms same_ctl_app(1) unfolding quiet_def by metis

lemma quiet_answerD:
  assumes "quiet_answer f"
  shows "same_ctl E i st (store_data i bs (snd (snd (f st))))"
proof -
  obtain a where "snd (snd (f st)) = st\<lparr>app := a\<rparr>" using assms unfolding quiet_answer_def by blast
  then show ?thesis using same_ctl_trans[OF same_ctl_app(1) store_data_ctl] by simp
qed

text \<open>The two shapes of a handler: a callback that says whether it took the request, and one that supplies an answer.\<close>

lemma handled_call:
  assumes "tcd_ok E i" and "phase E i None st" and "same_ctl E i st st1" and "quiet f"
  shows "handled E i st (case f st1 of (s, st2) \<Rightarrow> if s \<noteq> OK then Some (ERROR, st2) else initStatusErp E i pid st2)"
  using handled_status(1)[OF assms(1,2) same_ctl_trans[OF assms(3) quietD[OF assms(4)]]] by (simp add: split_beta)

lemma handled_answer:
  assumes "tcd_ok E i" and "phase E i None st" and "quiet_answer f"
  shows "handled E i st (case f st of (s, r, st2) \<Rightarrow> let st3 = store_data i (g r) st2 in
           if s \<noteq> OK then Some (ERROR, st3) else initDataErpForResponse E i (l r) st3)"
  using handled_data[OF assms(1,2) quiet_answerD[OF assms(3)]] by (simp add: split_beta Let_def)

lemma app_okD:
  assumes "app_ok E T"
  shows "featureClear T = Some f1 \<Longrightarrow> quiet (f1 ch rt v x)" "featureSet T = Some f1 \<Longrightarrow> quiet (f1 ch rt v x)"
    "configurationGet T = Some f2 \<Longrightarrow> quiet_answer (f2 ch)" "configurationSet T = Some f3 \<Longrightarrow> quiet (f3 ch c)"
    "descriptorGet T = Some f4 \<Longrightarrow> quiet_answer (f4 ch rt c d x l)" "descriptorSet T = Some f5 \<Longrightarrow> responds E ch (f5 ch rt c d x l)"
    "interfaceGet T = Some f6 \<Longrightarrow> quiet_answer (f6 ch x)" "interfaceSet T = Some f7 \<Longrightarrow> quiet (f7 ch x c)"
    "statusGet T = Some f8 \<Longrightarrow> quiet_answer (f8 ch rt x l)" "addressSet T = Some f9 \<Longrightarrow> quiet (f9 ch x)"
    "synchFrameGet T = Some f10 \<Longrightarrow> quiet_answer (f10 ch x)" "vendorSpecific T = Some f11 \<Longrightarrow> responds E ch (f11 ch rt c v x l)"
    "mngmt_func T = Some f12 \<Longrightarrow> quiet (f12 ch w)"
  using assms by (simp_all add: app_ok_def)

lemma feature_handled:
  assumes "tcd_ok E i" and "phase_at E i None t p q st" and "app_ok E (app_of E t)"
  shows "handled E i st (requestSetFeature E i u st)"
proof -
  have ph: "phase E i None st" and t: "tcds st i = Some t" using assms(2) by (auto simp: phase_def phase_at_def channel_def)
  show ?thesis
    using t handled_call[OF assms(1) ph same_ctl_refl app_okD(2)[OF assms(3)]] handled_refused[OF ph same_ctl_refl]
    by (simp add: requestSetFeature_def split: option.split)
qed

lemma get_handled:
  assumes "tcd_ok E i" and "phase_at E i None t p q st" and "app_ok E (app_of E t)"
  shows "handled E i st (requestGetConfiguration E i u st)" "handled E i st (requestGetDescriptor E i u st)"
    "handled E i st (requestGetInterface E i u st)" "handled E i st (requestGetStatus E i u st)"
    "handled E i st (requestGetSynchFrame E i u st)"
proof -
  have ph: "phase E i None st" and t: "tcds st i = Some t" using assms(2) by (auto simp: phase_def phase_at_def channel_def)
  note A = handled_answer[OF assms(1) ph] and D = app_okD[OF assms(3)] and R = handled_refused[OF ph same_ctl_refl]
  show "handled E i st (requestGetConfiguration E i u st)"
    using t A[OF D(3), where g="\<lambda>b. [b]" and l="\<lambda>_. 1"] R by (simp add: requestGetConfiguration_def split_beta split: option.split)
  show "handled E i st (requestGetDescriptor E i u st)"
    using t A[OF D(5), where g=fst and l=snd] R by (simp add: requestGetDescriptor_def split_beta split: option.split)
  show "handled E i st (requestGetInterface E i u st)"
    using t A[OF D(7), where g="\<lambda>b. [b]" and l="\<lambda>_. 1"] R by (simp add: requestGetInterface_def split_beta split: option.split)
  show "handled E i st (requestGetStatus E i u st)"
    using t A[OF D(9), where g=fst and l=snd] R by (simp add: requestGetStatus_def split_beta split: option.split)
  show "handled E i st (requestGetSynchFrame E i u st)"
    using t A[OF D(11), where g="\<lambda>b. b" and l="\<lambda>_. 2"] R by (simp add: requestGetSynchFrame_def split_beta split: option.split)
qed

lemma delegated_handled:
  assumes "tcd_ok E i" and "phase_at E i None t p q st" and "app_ok E (app_of E t)"
  shows "handled E i st (requestSetDescriptor E i u st)" "handled E i st (requestVendorSpecific E i u st)"
proof -
  have ph: "phase E i None st" and t: "tcds st i = Some t" using assms(2) by (auto simp: phase_def phase_at_def channel_def)
  note R = handled_refused[OF ph same_ctl_refl]
  show "handled E i st (requestSetDescriptor E i u st)"
    using t handled_responds[OF assms(1,2) app_okD(6)[OF assms(3)]] R by (simp add: requestSetDescriptor_def split: option.split)
  show "handled E i st (requestVendorSpecific E i u st)"
    using t handled_responds[OF assms(1,2) app_okD(12)[OF assms(3)]] R by (simp add: requestVendorSpecific_def split: option.split)
qed

lemma app_of_same: "tcd_core t' = tcd_core t \<Longrightarrow> app_of E t' = app_of E t"
  using tcd_coreD(2)[of t' t] by (simp add: app_of_def)

lemma reset_handled:
  assumes "tcd_ok E i" and "phase_at E i None t p q st" and "app_ok E (app_of E t)"
  shows "handled E i st (requestClearFeature E i u st)" "handled E i st (requestSetConfiguration E i u st)"
    "handled E i st (requestSetInterface E i u st)"
proof -
  have ph: "phase E i None st" using assms(2) by (auto simp: phase_def)
  have core: "\<exists>t'. tcds st1 i = Some t' \<and> app_ok E (app_of E t')" if same: "same_ctl E i st st1" for st1
  proof -
    obtain t' q' where "phase_at E i None t' p q' st1" "tcd_core t' = tcd_core t" by (rule phase_same[OF same assms(2)])
    then show ?thesis using assms(3) app_of_same[of t' t E] by (simp add: phase_at_def channel_def)
  qed
  note C = handled_call[OF assms(1) ph _ app_okD(1)] handled_call[OF assms(1) ph _ app_okD(4)] handled_call[OF assms(1) ph _ app_okD(8)]
  define reset where "reset \<longleftrightarrow> requestType u = USB_RT_STANDARD OR USB_RT_ENDPOINT \<and> s_value u = USB_FSEL_DEV_ENDPOINT_HALT"
  obtain st1 where r: "(if reset then resetDataToggle E i ANY_CONFIGURATION ANY_ENDPOINT (s_index u) st else Some st) = Some st1" "same_ctl E i st st1"
    by (cases reset) (auto intro: resetDataToggle_ctl[OF assms(1) ph])
  obtain t1 where t1: "tcds st1 i = Some t1" "app_ok E (app_of E t1)" using core[OF r(2)] by blast
  show "handled E i st (requestClearFeature E i u st)"
    unfolding requestClearFeature_def reset_def[symmetric] r(1)
    using t1(1) C(1)[OF r(2) t1(2)] handled_refused[OF ph r(2)] by (simp split: option.split)
  obtain st2 where r2: "resetDataToggle E i (ucast (LSB (s_value u))) ANY_INTERFACE ANY_ENDPOINT st = Some st2" "same_ctl E i st st2"
    by (rule resetDataToggle_ctl[OF assms(1) ph])
  obtain t2 where t2: "tcds st2 i = Some t2" "app_ok E (app_of E t2)" using core[OF r2(2)] by blast
  show "handled E i st (requestSetConfiguration E i u st)"
    unfolding requestSetConfiguration_def Let_def r2(1)
    using t2(1) C(2)[OF r2(2) t2(2)] handled_refused[OF ph r2(2)] by (simp split: option.split)
  obtain st3 where r3: "resetDataToggle E i ANY_CONFIGURATION (s_index u) ANY_ENDPOINT st = Some st3" "same_ctl E i st st3"
    by (rule resetDataToggle_ctl[OF assms(1) ph])
  obtain t3 where t3: "tcds st3 i = Some t3" "app_ok E (app_of E t3)" using core[OF r3(2)] by blast
  show "handled E i st (requestSetInterface E i u st)"
    unfolding requestSetInterface_def r3(1)
    using t3(1) C(3)[OF r3(2) t3(2)] handled_refused[OF ph r3(2)] by (simp split: option.split)
qed

lemma address_ctl: "same_ctl E i st (on_tcd i (\<lambda>t. t\<lparr>deviceAddress := a\<rparr>) st)"
  by (cases "tcds st i") (simp_all add: same_ctl_def on_tcd_def tcd_core_def)

lemma address_handled:
  assumes "tcd_ok E i" and "phase_at E i None t p q st" and "app_ok E (app_of E t)"
  shows "handled E i st (requestSetAddress E i u st)"
proof -
  have ph: "phase E i None st" and t: "tcds st i = Some t" using assms(2) by (auto simp: phase_def phase_at_def channel_def)
  define s1 where "s1 = (case addressSet (app_of E t) of None \<Rightarrow> st | Some f \<Rightarrow> snd (f (targChannel t) (s_value u) st))"
  define s2 where "s2 = on_tcd i (\<lambda>t. t\<lparr>deviceAddress := s_value u\<rparr>) s1"
  have "same_ctl E i st s1" using quietD[OF app_okD(10)[OF assms(3)]] by (simp add: s1_def split: option.split)
  then have s2: "same_ctl E i st s2" using same_ctl_trans address_ctl unfolding s2_def by blast
  obtain t2 q2 where t2: "phase_at E i None t2 p q2 s2" by (rule phase_same[OF s2 assms(2)])
  then have t2: "tcds s2 i = Some t2" "attached t2" by (simp_all add: phase_at_def channel_def)
  have h: "harmless (Trb_address_set (s_value u))" by (simp add: harmless_def)
  obtain ok s3 where "usbTcd E i (Trb_address_set (s_value u)) s2 = Some (ok, s3)" "same_ctl E i s2 s3"
    by (rule tcd_call[OF assms(1) t2 h])
  then show ?thesis using handled_status(2)[OF assms(1) ph same_ctl_trans[OF s2]] t
    by (simp add: requestSetAddress_def usbTcdAddressSet_def s1_def[symmetric] s2_def[symmetric])
qed

lemmas requests_handled = feature_handled get_handled delegated_handled reset_handled address_handled

lemma parseSetupPacket_handled:
  assumes "tcd_ok E i" and "phase_at E i None t p q st" and "app_ok E (app_of E t)" and "bfrList (erp_mem st (Setup_erp i)) \<noteq> []"
  shows "handled E i st (parseSetupPacket E i st)"
proof -
  have ph: "phase E i None st" and t: "tcds st i = Some t" using assms(2) by (auto simp: phase_def phase_at_def channel_def)
  obtain b bs where b: "bfrList (erp_mem st (Setup_erp i)) = b # bs" using assms(4) by (cases "bfrList (erp_mem st (Setup_erp i))") auto
  have "handled E i st (request_handler r E i u st)" for r u
    unfolding request_handler_def using requests_handled[OF assms(1-3)] by simp
  then show ?thesis using t b requests_handled(8)[OF assms(1-3)] handled_refused[OF ph same_ctl_refl]
    by (simp add: parseSetupPacket_def Let_def)
qed

section \<open>From one phase to the next\<close>

text \<open>What the driver stores before it reports a packet: the result, the number of bytes, and the bytes of a setup packet.\<close>

definition report :: "tcd_id \<Rightarrow> erp_id \<Rightarrow> erp_result \<Rightarrow> u32 \<Rightarrow> u8 list \<Rightarrow> ('d, 'a) targ \<Rightarrow> ('d, 'a) targ" where
  "report i e r n bs st = on_tcd i (\<lambda>t. if e = Setup_erp i then t\<lparr>setupBfr := bs\<rparr> else t)
     (on_erp e (\<lambda>x. x\<lparr>erp_result := r, bfrList := map (\<lambda>b. b\<lparr>actLen := n\<rparr>) (bfrList x)\<rparr>) st)"

text \<open>The packets that may follow one that was not cancelled.\<close>

fun next_erps :: "tcd_id \<Rightarrow> erp_id \<Rightarrow> erp_result \<Rightarrow> erp_id list" where
  "next_erps i (Setup_erp _) r = (if r = RESULT_OK then [Data_erp i, Status_erp i, Setup_erp i] else [Setup_erp i])"
| "next_erps i (Data_erp _) r = [if r = RESULT_OK then Status_erp i else Setup_erp i]"
| "next_erps i (Status_erp _) r = [Setup_erp i]"
| "next_erps i (User_erp _) r = []"

lemma report_phase:
  assumes "phase_at E i (Some e) t p q st"
  obtains t' where "phase_at E i (Some e) t' p q (report i e r n bs st)" "erp_result (erp_mem (report i e r n bs st) e) = r"
proof -
  let ?t = "if e = Setup_erp i then t\<lparr>setupBfr := bs\<rparr> else t" and ?st = "report i e r n bs st"
  have c: "channel E i t p q st" using assms by (simp add: phase_at_def)
  have v: "validatePipe (controlPipe t) ?st = (OK, Some p, ?st)" "validateTarg (targChannel t) ?st = (OK, Some i, ?st)"
    using c by (auto simp: channel_def validatePipe_def validateTarg_def report_def on_tcd_def on_erp_def split: prod.splits if_splits)
  have "tcds ?st i = Some ?t" "pipes ?st = pipes st" "drv ?st = drv st" using c by (simp_all add: channel_def report_def on_tcd_def on_erp_def)
  then have "channel E i ?t p q ?st" using c v by (cases "e = Setup_erp i") (simp_all add: channel_def)
  moreover have "submitted i p e (erp_mem ?st e)" using assms by (simp add: phase_at_def submitted_def report_def on_tcd_def on_erp_def)
  ultimately have "phase_at E i (Some e) ?t p q ?st" using assms by (cases "e = Setup_erp i") (simp_all add: phase_at_def)
  then show thesis using that by (simp add: report_def on_tcd_def on_erp_def)
qed

text \<open>A reported packet leaves the pipe, and its callback clears the flag.\<close>

lemma unlink_phase:
  assumes "phase_at E i (Some e) t p q st"
  defines "st1 \<equiv> on_pipe p (\<lambda>q. q\<lparr>erps := remove1 e (erps q), erpDeleted := (if erpBeingDeleted q = Some e then True else erpDeleted q)\<rparr>) st"
  shows "erp_completed E e st = run_callback setupErpCallback E e st1" "erp_mem st1 = erp_mem st"
    "phase E i None (on_tcd i (set_pending e False) st1)"
proof -
  have c: "channel E i t p q st" and e: "ctl_erp i e" "submitted i p e (erp_mem st e)" using assms(1) by (simp_all add: phase_at_def)
  have q: "pipes st p = Some q" "tcds st i = Some t" using c by (simp_all add: channel_def)
  show "erp_mem st1 = erp_mem st" by (simp add: st1_def on_pipe_def)
  have "erp_transferType (erp_mem st e) \<notin> {USB_XFRTYPE_INTERRUPT, USB_XFRTYPE_BULK}"
    using e(2) by (simp add: submitted_def USB_XFRTYPE_CONTROL_def USB_XFRTYPE_INTERRUPT_def USB_XFRTYPE_BULK_def)
  then show "erp_completed E e st = run_callback setupErpCallback E e st1"
    using e(2) q(1) by (simp add: erp_completed_def usbTargErpCallback_def submitted_def st1_def)
  let ?t = "set_pending e False t" and ?s = "on_tcd i (set_pending e False) st1"
    and ?q = "q\<lparr>erps := remove1 e (erps q), erpDeleted := (if erpBeingDeleted q = Some e then True else erpDeleted q)\<rparr>"
  have t: "targChannel ?t = targChannel t" "controlPipe ?t = controlPipe t" "tcd_pipes ?t = tcd_pipes t" "attached ?t = attached t"
    "\<not> setupErpPending ?t" "\<not> dataErpPending ?t" "\<not> statusErpPending ?t"
    using assms(1) e(1) by (auto simp: ctl_erp_def phase_at_def)
  have s: "hdls ?s = hdls st" "targ_initCount ?s = targ_initCount st" "pipes ?s = (pipes st)(p \<mapsto> ?q)" "tcds ?s i = Some ?t" "drv ?s = drv st"
    using q by (simp_all add: st1_def on_pipe_def on_tcd_def)
  have v: "validatePipe (controlPipe t) ?s = (OK, Some p, ?s)" "validateTarg (targChannel t) ?s = (OK, Some i, ?s)"
    using c s(1,2) unfolding channel_def validatePipe_def validateTarg_def by (auto split: prod.splits if_splits)
  have r: "pipe_ready E i d ?q = pipe_ready E i d q" for d by (cases "table E i d") (simp_all add: pipe_ready_def)
  have "channel E i ?t p ?q ?s"
    using c v s t(1-4) r by (auto simp: channel_def control_pipe_def list.pred_set)
  moreover have "filter (ctl_erp i) (erps ?q) = []" using assms(1) by (simp add: phase_at_def filter_remove1)
  ultimately have "phase_at E i None ?t p ?q ?s" using t(5-7) by (simp add: phase_at_def)
  then show "phase E i None ?s" by (auto simp: phase_def)
qed

lemma set_pending_eq:
  "set_pending (Setup_erp i) b = (\<lambda>t. t\<lparr>setupErpPending := b\<rparr>)" "set_pending (Data_erp i) b = (\<lambda>t. t\<lparr>dataErpPending := b\<rparr>)"
  "set_pending (Status_erp i) b = (\<lambda>t. t\<lparr>statusErpPending := b\<rparr>)"
  by (simp_all add: fun_eq_iff)

lemma setup_done:
  assumes "tcd_ok E i" and "\<And>k. app_ok E (callback_tables E k)" and "phase E i None (on_tcd i (set_pending (Setup_erp i) False) st)"
    and "submitted i p (Setup_erp i) (erp_mem st (Setup_erp i))" and "erp_result (erp_mem st (Setup_erp i)) \<noteq> S_usbTcdLib_ERP_CANCELED"
  shows "\<exists>e' st'. setupErpCallback E (Setup_erp i) st = Some st' \<and> phase E i (Some e') st'
    \<and> e' \<in> set (next_erps i (Setup_erp i) (erp_result (erp_mem st (Setup_erp i))))"
proof -
  define r where "r = erp_result (erp_mem st (Setup_erp i))"
  define s1 where "s1 = on_tcd i (set_pending (Setup_erp i) False) st"
  obtain t q p' where ph: "phase_at E i None t p' q s1" using assms(3) by (auto simp: phase_def s1_def)
  have t: "tcds s1 i = Some t" "\<not> dataErpPending t" "\<not> statusErpPending t" using ph by (simp_all add: phase_at_def channel_def)
  have s1: "on_tcd i (\<lambda>t. t\<lparr>setupErpPending := False\<rparr>) st = s1" by (simp add: s1_def set_pending_eq)
  have mem: "erp_mem s1 = erp_mem st" by (simp add: s1_def on_tcd_def)
  have cb: "setupErpCallback E (Setup_erp i) st =
    (if r = RESULT_OK
     then Option.bind (parseSetupPacket E i s1) (\<lambda>(s, st3). if s = OK then Some st3
       else Option.bind (tcds st3 i) (\<lambda>t. Option.bind (usbTargPipeStatusSet E (targChannel t) (controlPipe t) TCD_ENDPOINT_STALL st3)
         (\<lambda>(_, st4). listen_again E i (Setup_erp i) st4)))
     else listen_again E i (Setup_erp i) s1)"
    using assms(4) t mem by (simp add: setupErpCallback_def submitted_def cancel_phase_def r_def s1)
  have listen: "\<exists>st'. listen_again E i (Setup_erp i) s2 = Some st' \<and> phase E i (Some (Setup_erp i)) st'"
    if h: "phase E i None s2" "erp_mem s2 = erp_mem st" for s2
    using setup_phase[OF assms(1) h(1)] h(2) assms(5) by (auto simp: listen_again_def)
  show ?thesis
  proof (cases "r = RESULT_OK")
    case False
    have "phase E i None s1" using assms(3) by (simp add: s1_def)
    from listen[OF this mem] show ?thesis using False cb by (auto simp: r_def)
  next
    case True
    have "bfrList (erp_mem s1 (Setup_erp i)) \<noteq> []" using assms(4) mem by (auto simp: submitted_def)
    then have "handled E i s1 (parseSetupPacket E i s1)"
      using parseSetupPacket_handled[OF assms(1) ph] assms(2) by (simp add: app_of_def)
    then obtain s s3 where h: "parseSetupPacket E i s1 = Some (s, s3)"
      "if s = OK then phase E i (Some (Data_erp i)) s3 \<or> phase E i (Some (Status_erp i)) s3 else phase E i None s3 \<and> erp_mem s3 = erp_mem s1"
      unfolding handled_def by blast
    show ?thesis
    proof (cases "s = OK")
      case True
      then show ?thesis using h cb \<open>r = RESULT_OK\<close> by (auto simp: r_def)
    next
      case False
      then obtain t3 p3 q3 where ph3: "phase_at E i None t3 p3 q3 s3" "erp_mem s3 = erp_mem s1" using h(2) by (auto simp: phase_def)
      obtain x s4 where s4: "usbTargPipeStatusSet E (targChannel t3) (controlPipe t3) TCD_ENDPOINT_STALL s3 = Some (x, s4)" "same_ctl E i s3 s4"
        by (rule stall_ctl[OF assms(1) ph3(1)])
      have "phase E i None s3" using ph3(1) by (auto simp: phase_def)
      then have "phase E i None s4" "erp_mem s4 = erp_mem st"
        using phase_ctl[OF _ s4(2)] ph3(2) s4(2) mem by (simp_all add: same_ctl_def)
      moreover have "tcds s3 i = Some t3" using ph3(1) by (simp add: phase_at_def channel_def)
      ultimately show ?thesis using listen[of s4] cb False h(1) s4(1) \<open>r = RESULT_OK\<close> by (auto simp: r_def)
    qed
  qed
qed

lemma control_step:
  assumes "tcd_ok E i" and "\<And>k. app_ok E (callback_tables E k)" and "phase E i (Some e) st" and "r \<noteq> S_usbTcdLib_ERP_CANCELED"
  shows "\<exists>e' st'. erp_completed E e (report i e r n bs st) = Some st' \<and> phase E i (Some e') st' \<and> e' \<in> set (next_erps i e r)"
proof -
  obtain t p q where "phase_at E i (Some e) t p q st" using assms(3) by (auto simp: phase_def)
  then obtain t' where ph: "phase_at E i (Some e) t' p q (report i e r n bs st)" "erp_result (erp_mem (report i e r n bs st) e) = r"
    by (rule report_phase)
  let ?st = "report i e r n bs st"
  have e: "ctl_erp i e" "submitted i p e (erp_mem ?st e)" using ph(1) by (simp_all add: phase_at_def)
  obtain st1 where s1: "erp_completed E e ?st = run_callback setupErpCallback E e st1" "erp_mem st1 = erp_mem ?st"
    "phase E i None (on_tcd i (set_pending e False) st1)" using unlink_phase[OF ph(1)] by blast
  have r: "erp_result (erp_mem st1 e) = r" "submitted i p e (erp_mem st1 e)" using ph(2) s1(2) e(2) by simp_all
  consider "e = Setup_erp i" | "e = Data_erp i" | "e = Status_erp i" using e(1) by (auto simp: ctl_erp_def)
  then show ?thesis
  proof cases
    case 1
    have "erp_completed E e ?st = setupErpCallback E e st1" using s1(1) r(2) 1 by (simp add: run_callback_def submitted_def)
    moreover have "erp_result (erp_mem st1 (Setup_erp i)) \<noteq> S_usbTcdLib_ERP_CANCELED" using r(1) assms(4) 1 by simp
    ultimately show ?thesis using setup_done[OF assms(1,2) s1(3)[unfolded 1] r(2)[unfolded 1]] r(1) 1 by simp
  next
    case 2
    have "phase E i None (on_tcd i (\<lambda>t. t\<lparr>dataErpPending := False\<rparr>) st1)" using s1(3) 2 by (simp add: set_pending_eq)
    from status_phase[OF assms(1) this, of USB_PID_OUT] setup_phase[OF assms(1) this]
    show ?thesis using s1(1) r assms(4) 2 by (auto simp: run_callback_def submitted_def responseErpCallback_def)
  next
    case 3
    have "phase E i None (on_tcd i (\<lambda>t. t\<lparr>statusErpPending := False\<rparr>) st1)" using s1(3) 3 by (simp add: set_pending_eq)
    from setup_phase[OF assms(1) this]
    show ?thesis using s1(1) r assms(4) 3 by (auto simp: run_callback_def submitted_def statusErpCallback_def)
  qed
qed

end
