(* ===== verification/Usb_Targ_Attach.thy ===== *)
theory Usb_Targ_Attach
  imports Usb_Targ_Control
begin

text \<open>
  A channel from its attachment on: \<open>usbTargTcdAttach\<close> leaves it listening for a setup packet, and whatever the driver then
  reports, one packet after the other, one of the three packets of the control pipe is with the driver.
\<close>

text \<open>What is expected of the driver when it assigns an endpoint: the entry has the new transfer type, and no endpoint comes or goes.\<close>

definition tcd_assigns :: "('d, 'a) targ_env \<Rightarrow> tcd_id \<Rightarrow> bool" where
  "tcd_assigns E i \<longleftrightarrow> (\<forall>eid num conf intf xfr dir d eps. table E i d = Some eps
     \<longrightarrow> fst (exec E i (Trb_endpoint_assign eid num conf intf xfr dir) d)
     \<longrightarrow> (\<exists>eps'. table E i (snd (exec E i (Trb_endpoint_assign eid num conf intf xfr dir) d)) = Some eps'
        \<and> map endpointId eps' = map endpointId eps
        \<and> map transferType eps' = map (\<lambda>ep. if endpointId ep = eid then xfr else transferType ep) eps))"

lemma find_id_some: "find_id eid n eps = Some k \<Longrightarrow> n \<le> k \<and> k - n < length eps \<and> endpointId (eps ! (k - n)) = eid"
  by (induction eps arbitrary: n) (fastforce simp: nth_Cons' split: if_splits)+

definition assigned :: "u16 \<Rightarrow> u16 \<Rightarrow> endpoint_info list \<Rightarrow> endpoint_info list \<Rightarrow> bool" where
  "assigned eid xfr eps eps' \<longleftrightarrow> map endpointId eps' = map endpointId eps
     \<and> (\<forall>k < length eps. endpointId (eps ! k) = eid \<longrightarrow> transferType (eps' ! k) = xfr)"

lemma assign_table:
  assumes "tcd_assigns E i" and "table E i (drv st) = Some eps"
    and "usbTcdEndpointAssign E i eid num conf intf xfr dir st = Some (True, st')"
  obtains eps' where "table E i (drv st') = Some eps'" "map endpointId eps' = map endpointId eps"
    "map transferType eps' = map (\<lambda>ep. if endpointId ep = eid then xfr else transferType ep) eps"
proof -
  let ?r = "exec E i (Trb_endpoint_assign eid num conf intf xfr dir) (drv st)"
  have r: "fst ?r" "drv st' = snd ?r" using assms(3) by (auto simp: usbTcdEndpointAssign_def usbTcd_def split: bind_splits if_splits prod.splits)
  then show thesis using that assms(1,2) unfolding tcd_assigns_def r(2) by blast
qed

lemma assign_assigned:
  assumes "map endpointId eps' = map endpointId eps" and "map transferType eps' = map (\<lambda>ep. if endpointId ep = eid then xfr else transferType ep) eps"
  shows "assigned eid xfr eps eps'" and "assigned eid' xfr eps0 eps \<Longrightarrow> assigned eid' xfr eps0 eps'"
proof -
  have l: "length eps' = length eps" using arg_cong[OF assms(1), of length] by simp
  have t: "transferType (eps' ! k) = (if endpointId (eps ! k) = eid then xfr else transferType (eps ! k))" if "k < length eps" for k
    using arg_cong[OF assms(2), of "\<lambda>l. l ! k"] that l by simp
  then show "assigned eid xfr eps eps'" using assms(1) by (simp add: assigned_def)
  assume a: "assigned eid' xfr eps0 eps"
  have "length eps0 = length eps" using a by (metis assigned_def length_map)
  then show "assigned eid' xfr eps0 eps'" using a t assms(1) by (simp add: assigned_def)
qed

lemma build_pipe_table:
  assumes "tcd_assigns E i" and "table E i (drv st) = Some eps" and "build_pipe E i eid eid2 num conf intf xfr dir k k2 st = Some (OK, pp, st')"
  shows "\<exists>eps'. table E i (drv st') = Some eps' \<and> assigned eid xfr eps eps'"
proof -
  obtain p s4 s5 where a: "usbTcdEndpointAssign E i eid num conf intf xfr dir s4 = Some (True, s5)" "drv s4 = drv st"
    "(case k2 of None \<Rightarrow> Some (OK, Some p, on_pipe p (\<lambda>q. q\<lparr>pEndpoint := Some k\<rparr>) s5)
      | Some k' \<Rightarrow> Option.bind (usbTcdEndpointAssign E i eid2 num conf intf xfr USB_DIR_IN (on_pipe p (\<lambda>q. q\<lparr>pEndpoint := Some k\<rparr>) s5))
          (\<lambda>(ok, st6). Some (if ok then (OK, Some p, on_pipe p (\<lambda>q. q\<lparr>pEndpoint2 := Some k'\<rparr>) st6)
                             else (S_usbTargLib_TCD_FAULT, Some p, st6)))) = Some (OK, pp, st')"
    using assms(3) by (auto simp: build_pipe_def calloc_def create_handle_def Let_def on_pipe_def split: if_splits option.splits bind_splits prod.splits)
  obtain eps1 where e1: "table E i (drv s5) = Some eps1" "map endpointId eps1 = map endpointId eps"
    "map transferType eps1 = map (\<lambda>ep. if endpointId ep = eid then xfr else transferType ep) eps"
    using assign_table[OF assms(1) _ a(1)] a(2) assms(2) by auto
  note a1 = assign_assigned(1)[OF e1(2,3)]
  show ?thesis
  proof (cases k2)
    case None
    then show ?thesis using a(3) e1(1) a1 by (auto simp: on_pipe_def)
  next
    case (Some k')
    let ?s5 = "on_pipe p (\<lambda>q. q\<lparr>pEndpoint := Some k\<rparr>) s5"
    obtain s6 where s6: "usbTcdEndpointAssign E i eid2 num conf intf xfr USB_DIR_IN ?s5 = Some (True, s6)" "drv st' = drv s6"
      using a(3) Some by (auto simp: on_pipe_def split: bind_splits if_splits)
    have "table E i (drv ?s5) = Some eps1" using e1(1) by (simp add: on_pipe_def)
    from assign_table[OF assms(1) this s6(1)] obtain eps2 where "table E i (drv s6) = Some eps2" "map endpointId eps2 = map endpointId eps1"
      "map transferType eps2 = map (\<lambda>ep. if endpointId ep = eid2 then xfr else transferType ep) eps1" .
    then show ?thesis using assign_assigned(2)[OF _ _ a1] s6(2) by auto
  qed
qed

lemma pipe_create_table:
  assumes "tcd_assigns E i" and "table E i (drv st) = Some eps" and "validateTarg ch st = (OK, Some i, st)"
    and "usbTargPipeCreate E False ch eid eid2 num conf intf xfr dir st = Some (OK, hh, st')"
  shows "\<exists>eps'. table E i (drv st') = Some eps' \<and> assigned eid xfr eps eps'"
  using assms(4)
proof (rule pipe_create_steps)
  let ?dir = "if xfr = USB_XFRTYPE_CONTROL then USB_DIR_OUT else dir"
  fix j t s1 k k2 x s3 pp st2
  assume v: "validateTarg ch st = (OK, Some j, st)"
    and b: "(if check_number E j ?dir num s1 st \<noteq> OK then Some (check_number E j ?dir num s1 st, None, st\<lparr>errno := x\<rparr>)
      else build_pipe E j eid eid2 num conf intf xfr ?dir (the k) k2 (st\<lparr>errno := x\<rparr>)) = Some (s3, pp, st2)"
    and f: "finish_pipe E j s3 pp st2 = Some (OK, hh, st')"
  have j: "j = i" using v assms(3) by simp
  have s3: "s3 = OK" using f by (auto simp: finish_pipe_def ossStatus_def split: if_splits bind_splits)
  then have "build_pipe E i eid eid2 num conf intf xfr ?dir (the k) k2 (st\<lparr>errno := x\<rparr>) = Some (OK, pp, st2)"
    using b j by (auto split: if_splits)
  moreover have "table E i (drv (st\<lparr>errno := x\<rparr>)) = Some eps" using assms(2) by simp
  ultimately have "\<exists>eps'. table E i (drv st2) = Some eps' \<and> assigned eid xfr eps eps'" using build_pipe_table[OF assms(1)] by blast
  moreover have "drv st' = drv st2" using f s3 by (auto simp: finish_pipe_def on_tcd_def split: bind_splits)
  ultimately show ?thesis by simp
qed

lemma validate_live:
  assumes "hdl_inv (hdls st)" and "h \<noteq> 0"
  shows "hdl_lookup (hdls st) h = Some (TARG_TCD_SIG, Some (Tcd_obj i)) \<Longrightarrow> targ_initCount st \<noteq> 0 \<Longrightarrow> validateTarg h st = (OK, Some i, st)"
    and "hdl_lookup (hdls st) h = Some (TARG_PIPE_SIG, Some (Pipe_obj p)) \<Longrightarrow> validatePipe h st = (OK, Some p, st)"
  using usbHandleValidate_iff[OF assms, of TARG_TCD_SIG "Some (Tcd_obj i)"] usbHandleValidate_iff[OF assms, of TARG_PIPE_SIG "Some (Pipe_obj p)"]
  by (simp_all add: validateTarg_def validatePipe_def)

text \<open>The control pipe of a new channel, before the first packet.\<close>

lemma attach_pipe:
  assumes "hdl_inv (hdls st)" and "tcd_assigns E i" and "table E i (drv st) = Some eps"
    and "tcds st i = Some t" and "attached t" and "tcd_pipes t = []"
    and "\<not> setupErpPending t" and "\<not> dataErpPending t" and "\<not> statusErpPending t"
    and "targChannel t \<noteq> 0" and "hdl_lookup (hdls st) (targChannel t) = Some (TARG_TCD_SIG, Some (Tcd_obj i))" and "targ_initCount st \<noteq> 0"
    and "usbTargPipeCreate E False (targChannel t) eid eid2 num conf intf USB_XFRTYPE_CONTROL dir st = Some (OK, ph, st')"
  defines "st2 \<equiv> on_tcd i (\<lambda>t. t\<lparr>controlPipe := the ph\<rparr>) st'"
  obtains t' p q where "phase_at E i None t' p q st2" "targChannel t' = targChannel t" "pCallbacks t' = pCallbacks t"
proof -
  have v: "validateTarg (targChannel t) st = (OK, Some i, st)"
    by (rule validate_live(1)[OF assms(1,10-12)])
  obtain p h where c: "ph = Some h" "findEndpointById E i eid st \<noteq> None" "h \<noteq> 0" "hdl_inv (hdls st')" "hdl_lookup (hdls st) h = None"
    "hdl_lookup (hdls st') = (hdl_lookup (hdls st))(h \<mapsto> (TARG_PIPE_SIG, Some (Pipe_obj p)))"
    "pipes st' = (pipes st)(p \<mapsto> new_pipe i conf intf h (findEndpointById E i eid st) (findEndpointById E i eid2 st))"
    "tcds st' = (tcds st)(i \<mapsto> t\<lparr>tcd_pipes := [p]\<rparr>)" "targ_initCount st' = targ_initCount st" "findEndpointById E i eid2 st \<noteq> None"
    using pipe_created[OF assms(1,13)] v assms(4,6) by auto
  obtain eps' where e: "table E i (drv st') = Some eps'" "assigned eid USB_XFRTYPE_CONTROL eps eps'"
    using pipe_create_table[OF assms(2,3) v assms(13)] by blast
  have "length eps' = length eps" using e(2) by (metis assigned_def length_map)
  then have kk: "k < length eps'" if "findEndpointById E i x st = Some k" for x k
    using that assms(3) by (auto simp: findEndpointById_def dest: find_id_some)
  obtain k k2 where k: "findEndpointById E i eid st = Some k" "findEndpointById E i eid2 st = Some k2" using c(2,10) by auto
  have xfr: "transferType (eps' ! k) = USB_XFRTYPE_CONTROL"
    using k(1) e(2) assms(3) by (auto simp: findEndpointById_def assigned_def dest: find_id_some)
  let ?t = "t\<lparr>tcd_pipes := [p], controlPipe := h\<rparr>" and ?q = "new_pipe i conf intf h (Some k) (Some k2)"
  have st2: "hdls st2 = hdls st'" "drv st2 = drv st'" "pipes st2 p = Some ?q" "targ_initCount st2 = targ_initCount st" "tcds st2 i = Some ?t"
    using c(1,7,8,9) k by (simp_all add: st2_def on_tcd_def)
  have h: "hdl_lookup (hdls st2) (targChannel t) = Some (TARG_TCD_SIG, Some (Tcd_obj i))" "hdl_lookup (hdls st2) h = Some (TARG_PIPE_SIG, Some (Pipe_obj p))"
    "hdl_inv (hdls st2)" using c(4,5,6) st2(1) assms(11) by auto
  have val: "validateTarg (targChannel t) st2 = (OK, Some i, st2)" "validatePipe h st2 = (OK, Some p, st2)"
    using validate_live(1)[OF h(3) assms(10) h(1)] validate_live(2)[OF h(3) c(3) h(2)] assms(12) st2(4) by simp_all
  have ready: "pipe_ready E i (drv st2) ?q" using e(1) kk k st2(2) by (simp add: pipe_ready_def new_pipe_def)
  then have "control_pipe E i (drv st2) ?q" using e(1) xfr st2(2) by (simp add: control_pipe_def new_pipe_def)
  then have "channel E i ?t p ?q st2" using st2 val ready assms(5) c(3) by (simp add: channel_def)
  then have "phase_at E i None ?t p ?q st2" using assms(7-9) by (simp add: phase_at_def new_pipe_def zero_pipe_def)
  then show thesis using that by simp
qed

lemma mngmt_ctl:
  assumes "\<And>k. app_ok E (callback_tables E k)" and "tcds st i = Some t"
  obtains s st' where "mngmtFunc E i code st = Some (s, st')" "same_ctl E i st st'"
proof (cases "mngmt_func (callback_tables E (pCallbacks t))")
  case None
  then show thesis using that[of OK st] assms(2) by (simp add: mngmtFunc_def)
next
  case (Some f)
  have "same_ctl E i st (snd (f (targChannel t) code st))" by (rule quietD[OF app_okD(13)[OF assms(1) Some]])
  then show thesis using that[of "fst (f (targChannel t) code st)" "snd (f (targChannel t) code st)"] assms(2) Some by (simp add: mngmtFunc_def)
qed

text \<open>The object of a channel and its handle, and the driver attached.\<close>

lemma attach_object:
  assumes "hdl_inv (hdls st)" and "attach_channel E cbs i st = Some (OK, st')"
  obtains st3 t eps where "hdl_inv (hdls st3)" "table E i (drv st3) = Some eps" "tcds st3 i = Some t" "attached t" "tcd_pipes t = []"
    "\<not> setupErpPending t" "\<not> dataErpPending t" "\<not> statusErpPending t" "targChannel t \<noteq> 0"
    "hdl_lookup (hdls st3) (targChannel t) = Some (TARG_TCD_SIG, Some (Tcd_obj i))" "targ_initCount st3 = targ_initCount st"
    "Option.bind (usbTargPipeCreate E False (targChannel t) (endpointId (eps ! 0)) (endpointId (eps ! 1)) 0
        NO_CONFIGURATION NO_INTERFACE USB_XFRTYPE_CONTROL USB_DIR_INOUT st3)
       (\<lambda>(s, ph, st4). if s \<noteq> OK then Some (s, st4)
          else Option.bind (initSetupErp E i (on_tcd i (\<lambda>t. t\<lparr>controlPipe := the ph\<rparr>) st4))
            (\<lambda>(s, st5). if s \<noteq> OK then Some (s, st5)
              else Option.bind (mngmtFunc E i TCD_MNGMT_ATTACH (st5\<lparr>tcdList := tcdList st5 @ [i]\<rparr>))
                (\<lambda>(s, st6). Some (if s \<noteq> OK then S_usbTargLib_APP_FAULT else OK, st6)))) = Some (OK, st')"
proof -
  let ?st1 = "st\<lparr>tcds := (tcds st)(i := Some (zero_tcd\<lparr>pCallbacks := cbs\<rparr>)),
                  erp_mem := (erp_mem st)(Setup_erp i := zero_erp, Data_erp i := zero_erp, Status_erp i := zero_erp)\<rparr>"
  have free: "hdl_free (hdls st)"
  proof (rule ccontr)
    assume "\<not> hdl_free (hdls st)"
    then show False using assms(2) usbHandleCreate_stuck[OF assms(1)] by (auto simp: attach_channel_def create_handle_def)
  qed
  obtain h H where h: "usbHandleCreate False True TARG_TCD_SIG (Some (Tcd_obj i)) (hdls st) = Some (hdl_status.OK, Some h, H)"
    "hdl_inv H" "h \<noteq> 0" "hdl_lookup (hdls st) h = None" "hdl_lookup H = (hdl_lookup (hdls st))(h \<mapsto> (TARG_TCD_SIG, Some (Tcd_obj i)))"
    by (rule usbHandleCreate_new[OF assms(1) free])
  define st2 where "st2 = on_tcd i (\<lambda>t. t\<lparr>targChannel := h\<rparr>) (?st1\<lparr>hdls := H\<rparr>)"
  obtain ok st3 where a: "usbTcdAttach E i st2 = (ok, st3)" by force
  have ch: "create_handle TARG_TCD_SIG (Tcd_obj i) ?st1 = Some (Some h, ?st1\<lparr>hdls := H\<rparr>)" using h(1) by (simp add: create_handle_def)
  obtain eps where eps: "ok" "table E i (drv st3) = Some eps" "\<not> length eps < 2"
    using assms(2) a unfolding attach_channel_def Let_def ch by (auto simp: st2_def[symmetric] split: if_splits option.splits)
  define t where "t = zero_tcd\<lparr>pCallbacks := cbs, targChannel := h, attached := True, speed := bus_speed E i (drv st3)\<rparr>"
  have st3: "tcds st3 i = Some t" "hdls st3 = H" "targ_initCount st3 = targ_initCount st"
    using a by (auto simp: usbTcdAttach_def st2_def on_tcd_def t_def zero_tcd_def split: prod.splits)
  have t: "targChannel t = h" "attached t" "tcd_pipes t = []" "\<not> setupErpPending t" "\<not> dataErpPending t" "\<not> statusErpPending t"
    by (simp_all add: t_def zero_tcd_def)
  have "attach_channel E cbs i st =
    Option.bind (usbTargPipeCreate E False (targChannel t) (endpointId (eps ! 0)) (endpointId (eps ! 1)) 0
        NO_CONFIGURATION NO_INTERFACE USB_XFRTYPE_CONTROL USB_DIR_INOUT st3)
       (\<lambda>(s, ph, st4). if s \<noteq> OK then Some (s, st4)
          else Option.bind (initSetupErp E i (on_tcd i (\<lambda>t. t\<lparr>controlPipe := the ph\<rparr>) st4))
            (\<lambda>(s, st5). if s \<noteq> OK then Some (s, st5)
              else Option.bind (mngmtFunc E i TCD_MNGMT_ATTACH (st5\<lparr>tcdList := tcdList st5 @ [i]\<rparr>))
                (\<lambda>(s, st6). Some (if s \<noteq> OK then S_usbTargLib_APP_FAULT else OK, st6))))"
    using a eps t(1) unfolding attach_channel_def Let_def ch by (simp add: st2_def[symmetric])
  then show thesis using that[of st3 eps t] assms(2) eps(2) st3 t h(2,3,5) by simp
qed

lemma attach_phase:
  assumes "tcd_ok E i" and "tcd_assigns E i" and "\<And>k. app_ok E (callback_tables E k)" and "hdl_inv (hdls st)" and "targ_initCount st \<noteq> 0"
    and "attach_channel E cbs i st = Some (OK, st')"
  shows "phase E i (Some (Setup_erp i)) st'"
proof (rule attach_object[OF assms(4,6)])
  fix st3 t eps
  assume o: "hdl_inv (hdls st3)" "table E i (drv st3) = Some eps" "tcds st3 i = Some t" "attached t" "tcd_pipes t = []"
    "\<not> setupErpPending t" "\<not> dataErpPending t" "\<not> statusErpPending t" "targChannel t \<noteq> 0"
    "hdl_lookup (hdls st3) (targChannel t) = Some (TARG_TCD_SIG, Some (Tcd_obj i))" "targ_initCount st3 = targ_initCount st"
    and run: "Option.bind (usbTargPipeCreate E False (targChannel t) (endpointId (eps ! 0)) (endpointId (eps ! 1)) 0
        NO_CONFIGURATION NO_INTERFACE USB_XFRTYPE_CONTROL USB_DIR_INOUT st3)
       (\<lambda>(s, ph, st4). if s \<noteq> OK then Some (s, st4)
          else Option.bind (initSetupErp E i (on_tcd i (\<lambda>t. t\<lparr>controlPipe := the ph\<rparr>) st4))
            (\<lambda>(s, st5). if s \<noteq> OK then Some (s, st5)
              else Option.bind (mngmtFunc E i TCD_MNGMT_ATTACH (st5\<lparr>tcdList := tcdList st5 @ [i]\<rparr>))
                (\<lambda>(s, st6). Some (if s \<noteq> OK then S_usbTargLib_APP_FAULT else OK, st6)))) = Some (OK, st')"
  have init: "targ_initCount st3 \<noteq> 0" using o(11) assms(5) by simp
  obtain ph st4 where c: "usbTargPipeCreate E False (targChannel t) (endpointId (eps ! 0)) (endpointId (eps ! 1)) 0
        NO_CONFIGURATION NO_INTERFACE USB_XFRTYPE_CONTROL USB_DIR_INOUT st3 = Some (OK, ph, st4)"
    using run by (auto split: bind_splits if_splits)
  let ?s = "on_tcd i (\<lambda>t. t\<lparr>controlPipe := the ph\<rparr>) st4"
  obtain t' p q where "phase_at E i None t' p q ?s" by (rule attach_pipe[OF o(1) assms(2) o(2-10) init c])
  then have "phase E i None ?s" by (auto simp: phase_def)
  then obtain st5 where s5: "initSetupErp E i ?s = Some (OK, st5)" "phase E i (Some (Setup_erp i)) st5" using setup_phase[OF assms(1)] by blast
  let ?s5 = "st5\<lparr>tcdList := tcdList st5 @ [i]\<rparr>"
  have "same_ctl E i st5 ?s5" by (simp add: same_ctl_def)
  then have p5: "phase E i (Some (Setup_erp i)) ?s5" by (rule phase_ctl[OF s5(2)])
  then obtain t5 where "tcds ?s5 i = Some t5" by (auto simp: phase_def phase_at_def channel_def)
  then obtain s st6 where s6: "mngmtFunc E i TCD_MNGMT_ATTACH ?s5 = Some (s, st6)" "same_ctl E i ?s5 st6" by (rule mngmt_ctl[OF assms(3)])
  have "st' = st6" using run c s5(1) s6(1) by simp
  then show ?thesis using phase_ctl[OF p5 s6(2)] by simp
qed

section \<open>A channel in operation\<close>

text \<open>The driver reports, time after time, the packet that is with it.\<close>

definition pending_erp :: "tcd_id \<Rightarrow> ('d, 'a) targ \<Rightarrow> erp_id option" where
  "pending_erp i st = Option.bind (tcds st i) (\<lambda>t. if setupErpPending t then Some (Setup_erp i)
     else if dataErpPending t then Some (Data_erp i) else if statusErpPending t then Some (Status_erp i) else None)"

fun control_run :: "('d, 'a) targ_env \<Rightarrow> tcd_id \<Rightarrow> (erp_result \<times> u32 \<times> u8 list) list \<Rightarrow> ('d, 'a) targ \<Rightarrow> ('d, 'a) targ option" where
  "control_run E i [] st = Some st"
| "control_run E i ((r, n, bs) # rs) st = do {
     e \<leftarrow> pending_erp i st;
     st' \<leftarrow> erp_completed E e (report i e r n bs st);
     control_run E i rs st'
   }"

lemma phase_pending: "phase E i (Some e) st \<Longrightarrow> pending_erp i st = Some e"
  by (auto simp: phase_def phase_at_def channel_def pending_erp_def ctl_erp_def)

lemma control_runs:
  assumes "tcd_ok E i" and "\<And>k. app_ok E (callback_tables E k)" and "phase E i (Some e) st"
    and "list_all (\<lambda>x. fst x \<noteq> S_usbTcdLib_ERP_CANCELED) reports"
  shows "\<exists>e' st'. control_run E i reports st = Some st' \<and> phase E i (Some e') st'"
  using assms(3,4)
proof (induction reports arbitrary: e st)
  case (Cons x reports)
  obtain r n bs where x: "x = (r, n, bs)" by (cases x)
  have r: "r \<noteq> S_usbTcdLib_ERP_CANCELED" using Cons.prems(2) x by simp
  obtain e' st' where s: "erp_completed E e (report i e r n bs st) = Some st'" "phase E i (Some e') st'"
    using control_step[OF assms(1,2) Cons.prems(1) r] by blast
  have "list_all (\<lambda>x. fst x \<noteq> S_usbTcdLib_ERP_CANCELED) reports" using Cons.prems(2) by simp
  from Cons.IH[OF s(2) this] show ?case using phase_pending[OF Cons.prems(1)] s(1) x by simp
qed auto

lemma attach_listens:
  assumes "tcd_ok E (nalloc st)" and "tcd_assigns E (nalloc st)" and "\<And>k. app_ok E (callback_tables E k)" and "hdl_inv (hdls st)"
    and "usbTargTcdAttach E null cbs st = Some (OK, hh, st')"
  shows "phase E (nalloc st) (Some (Setup_erp (nalloc st))) st'" "\<exists>t. tcds st' (nalloc st) = Some t \<and> hh = Some (targChannel t)"
proof -
  let ?s = "st\<lparr>nalloc := Suc (nalloc st)\<rparr>"
  have "targ_initCount st \<noteq> 0" "attach_channel E cbs (nalloc st) ?s = Some (OK, st')"
    "\<exists>t. tcds st' (nalloc st) = Some t \<and> hh = Some (targChannel t)"
    using assms(5) by (auto simp: usbTargTcdAttach_def calloc_def ossStatus_def Let_def split: if_splits bind_splits)
  then show "phase E (nalloc st) (Some (Setup_erp (nalloc st))) st'" "\<exists>t. tcds st' (nalloc st) = Some t \<and> hh = Some (targChannel t)"
    using attach_phase[OF assms(1-3), of ?s cbs st'] assms(4) by simp_all
qed


lemma demo_env_ok:
  shows "tcd_ok demo_env i" "tcd_assigns demo_env i" "app_ok demo_env (callback_tables demo_env k)"
proof -
  show "tcd_ok demo_env i" by (auto simp: tcd_ok_def demo_env_def demo_exec_def harmless_def split: trb.splits)
  show "tcd_assigns demo_env i" by (simp add: tcd_assigns_def demo_env_def demo_exec_def)
  show "app_ok demo_env (callback_tables demo_env k)"
    by (simp add: app_ok_def demo_env_def demo_callbacks_def quiet_def quiet_answer_def)
qed




end
