(* ===== verification/Usb_Descr.thy ===== *)
theory Usb_Descr
  imports Prelude "HOL-Library.Monad_Syntax"
begin

text \<open>
  Copying of descriptors (\<^verbatim>\<open>usbDescrCopyLib.c\<close>). Buffers are lists of bytes of their size, a string the list of its bytes before the
  terminator. A read or a store outside a buffer has no result, \<open>None\<close>; the second result is what is stored at \<^verbatim>\<open>pActLen\<close>.
\<close>

definition USB_DESCR_HDR_LEN :: nat where "USB_DESCR_HDR_LEN = 2"
definition USB_DESCR_STRING :: u8 where "USB_DESCR_STRING = 3"
definition MAX_DESCR_LEN :: nat where "MAX_DESCR_LEN = 255"

definition usbDescrCopy32 :: "u8 list \<Rightarrow> u8 list \<Rightarrow> u32 \<Rightarrow> (u8 list \<times> u32) option" where
  "usbDescrCopy32 pBfr pDescr bfrLen =
     (if pDescr = [] then None
      else let n = min bfrLen (ucast (hd pDescr))
           in if unat n \<le> length pDescr \<and> unat n \<le> length pBfr then Some (poke pBfr 0 (take (unat n) pDescr), n) else None)"

definition usbDescrCopy :: "u8 list \<Rightarrow> u8 list \<Rightarrow> u16 \<Rightarrow> (u8 list \<times> u16) option" where
  "usbDescrCopy pBfr pDescr bfrLen = do {
     (bfr, actLen) \<leftarrow> usbDescrCopy32 pBfr pDescr (ucast bfrLen);
     Some (bfr, ucast actLen)
   }"

text \<open>The characters as 16-bit units, low byte first.\<close>

fun put_string :: "u8 list \<Rightarrow> u8 list" where
  "put_string [] = []"
| "put_string (c # s) = c # 0 # put_string s"

text \<open>The descriptor is built in an array of 255 bytes; its length is a byte.\<close>

definition usbDescrStrCopy32 :: "u8 list \<Rightarrow> u8 list \<Rightarrow> u32 \<Rightarrow> (u8 list \<times> u32) option" where
  "usbDescrStrCopy32 pBfr pStr bfrLen =
     (let pString = of_nat (USB_DESCR_HDR_LEN + length pStr * 2) # USB_DESCR_STRING # put_string pStr
      in if length pString \<le> MAX_DESCR_LEN
         then usbDescrCopy32 pBfr (pString @ replicate (MAX_DESCR_LEN - length pString) 0) bfrLen else None)"

definition usbDescrStrCopy :: "u8 list \<Rightarrow> u8 list \<Rightarrow> u16 \<Rightarrow> (u8 list \<times> u16) option" where
  "usbDescrStrCopy pBfr pStr bfrLen = do {
     (bfr, actLen) \<leftarrow> usbDescrStrCopy32 pBfr pStr (ucast bfrLen);
     Some (bfr, ucast actLen)
   }"

section \<open>Correctness\<close>

text \<open>How a host reads a string descriptor.\<close>

fun get_string :: "u8 list \<Rightarrow> u8 list" where
  "get_string (c # _ # s) = c # get_string s"
| "get_string _ = []"

definition read_string_descr :: "u8 list \<Rightarrow> u8 list" where
  "read_string_descr d = get_string (drop 2 (take (unat (hd d)) d))"

lemma length_put_string [simp]: "length (put_string s) = 2 * length s"
  by (induction s) auto

lemma get_put_string [simp]: "get_string (put_string s) = s"
  by (induction s) auto

lemma usbDescrCopy_copies:
  assumes "pDescr \<noteq> []" and "unat (hd pDescr) \<le> length pDescr" and "min (unat bfrLen) (unat (hd pDescr)) \<le> length pBfr"
  shows "usbDescrCopy pBfr pDescr bfrLen = Some (poke pBfr 0 (take (min (unat bfrLen) (unat (hd pDescr))) pDescr),
    of_nat (min (unat bfrLen) (unat (hd pDescr))))"
proof -
  let ?n = "min (ucast bfrLen) (ucast (hd pDescr)) :: u32"
  have n: "unat ?n = min (unat bfrLen) (unat (hd pDescr))"
    using unsigned_less[of bfrLen, where ?'a=nat] unsigned_less[of "hd pDescr", where ?'a=nat]
    by (simp add: min_def word_le_nat_alt unsigned_ucast_eq take_bit_nat_eq_self)
  moreover have "(ucast ?n :: u16) = of_nat (unat ?n)" by simp
  ultimately show ?thesis using assms by (auto simp: usbDescrCopy_def usbDescrCopy32_def Let_def)
qed

text \<open>
  C18: a string of at most 126 characters becomes a well-formed string descriptor. The caller's buffer receives its first \<open>actLen\<close> bytes
  and nothing else changes; \<open>actLen\<close> is the shorter of the descriptor and \<open>bfrLen\<close>; a buffer with room for the whole descriptor gives
  the string back.
\<close>

theorem usbDescrStrCopy_descr:
  assumes "length s \<le> 126" and "min (unat bfrLen) (2 * length s + 2) \<le> length pBfr"
  shows "\<exists>bfr. usbDescrStrCopy pBfr s bfrLen = Some (bfr, of_nat (min (unat bfrLen) (2 * length s + 2)))
    \<and> length bfr = length pBfr
    \<and> drop (min (unat bfrLen) (2 * length s + 2)) bfr = drop (min (unat bfrLen) (2 * length s + 2)) pBfr
    \<and> take (min (unat bfrLen) (2 * length s + 2)) bfr
        = take (min (unat bfrLen) (2 * length s + 2)) (of_nat (2 * length s + 2) # USB_DESCR_STRING # put_string s)
    \<and> (2 * length s + 2 \<le> unat bfrLen \<longrightarrow> read_string_descr bfr = s)"
proof -
  let ?n = "min (unat bfrLen) (2 * length s + 2)"
  define d where "d = of_nat (2 * length s + 2) # USB_DESCR_STRING # put_string s"
  define src where "src = d @ replicate (MAX_DESCR_LEN - length d) 0"
  have u: "unat (of_nat m :: u8) = m" if "m < 256" for m using that by (simp add: unat_of_nat)
  have d: "length d = 2 * length s + 2" "hd d = of_nat (2 * length s + 2)" "drop 2 d = put_string s"
    by (simp_all only: d_def) simp_all
  have hd: "unat (hd d) = 2 * length s + 2" unfolding d(2) by (rule u) (use assms(1) in simp)
  have src: "src \<noteq> []" "unat (hd src) = 2 * length s + 2" "take ?n src = take ?n d" "2 * length s + 2 \<le> length src"
    using d(1) hd by (auto simp: src_def hd_append d_def[symmetric] simp flip: length_0_conv)
  have "usbDescrStrCopy pBfr s bfrLen = usbDescrCopy pBfr src bfrLen"
    using assms(1) d(1) by (simp add: usbDescrStrCopy_def usbDescrStrCopy32_def usbDescrCopy_def src_def d_def USB_DESCR_HDR_LEN_def MAX_DESCR_LEN_def
        add.commute mult.commute)
  also have "\<dots> = Some (poke pBfr 0 (take ?n d), of_nat ?n)"
    using usbDescrCopy_copies[OF src(1), of bfrLen pBfr] src(2-4) assms(2) by simp
  finally have run: "usbDescrStrCopy pBfr s bfrLen = Some (poke pBfr 0 (take ?n d), of_nat ?n)" .
  have len: "length (take ?n d) = ?n" using d(1) by simp
  have "read_string_descr (poke pBfr 0 (take ?n d)) = s" if "2 * length s + 2 \<le> unat bfrLen"
  proof -
    have "poke pBfr 0 (take ?n d) = d @ drop (2 * length s + 2) pBfr" using that d(1) by (simp add: poke_def min_def)
    moreover have "d \<noteq> []" using d(1) by auto
    ultimately show ?thesis using d(1,3) hd by (simp add: read_string_descr_def hd_append)
  qed
  then show ?thesis using run len assms(2) unfolding d_def[symmetric] by (intro exI[of _ "poke pBfr 0 (take ?n d)"]) (simp add: poke_def)
qed

theorem usbDescrStrCopy_descr_witness:
  "\<exists>bfr. usbDescrStrCopy (replicate 8 7) [72, 105] 8 = Some (bfr, 6) \<and> read_string_descr bfr = [72, 105]"
  using usbDescrStrCopy_descr[of "[72, 105]" 8 "replicate 8 7"] by fastforce

text \<open>A longer string is stored past the end of the array.\<close>

theorem usbDescrStrCopy_overrun: "126 < length s \<Longrightarrow> usbDescrStrCopy pBfr s bfrLen = None"
  by (simp add: usbDescrStrCopy_def usbDescrStrCopy32_def MAX_DESCR_LEN_def)

end
