(* ===== verification/Cmd_Parser.thy ===== *)
theory Cmd_Parser
  imports Prelude "HOL-Library.Sublist" "HOL-Library.Monad_Syntax"
begin

text \<open>
  The command parser of the USB tools (\<^verbatim>\<open>cmdParser.c\<close>). A string is the list of its characters before the
  terminator, and a pointer into a command line is the rest of the line. A store past the end of a buffer has no
  result, \<open>None\<close>. The functions of the client's table are a parameter; \<open>command_function\<close> is their contract.
\<close>

section \<open>Data\<close>

definition RET_OK :: u16 where "RET_OK = 0"
definition RET_ERROR :: u16 where "RET_ERROR = 1"
definition RET_CONTINUE :: u16 where "RET_CONTINUE = 2"
definition CMD_SEPARATOR :: char where "CMD_SEPARATOR = CHR '';''"
definition MAX_CMD_LEN :: nat where "MAX_CMD_LEN = 256"
definition MAX_KEYWORD_LEN :: nat where "MAX_KEYWORD_LEN = 32"
definition PAUSE_DISPLAY :: nat where "PAUSE_DISPLAY = 22"

datatype cmd_func = Help_func | Exit_func | User_func nat

text \<open>An entry of the table; the table ends with the list. \<open>minMatch\<close> is an int, here by its bits.\<close>

record cmd_descr =
  keyword :: string
  minMatch :: u32
  usage :: "string option"
  helpText :: "string option"
  execFunc :: cmd_func

text \<open>The two streams and what the parameter of the client points to.\<close>

record 's cmd_st =
  fin :: string
  fout :: string
  param :: 's

type_synonym 's command = "string \<Rightarrow> 's cmd_st \<Rightarrow> (u16 \<times> string \<times> 's cmd_st) option"

definition print :: "string \<Rightarrow> 's cmd_st \<Rightarrow> 's cmd_st" where
  "print s st = st\<lparr>fout := fout st @ s\<rparr>"

section \<open>Strings\<close>

definition IS_SPACE :: "char \<Rightarrow> bool" where
  "IS_SPACE c \<longleftrightarrow> (let n = of_char c :: nat in (9 \<le> n \<and> n \<le> 13 \<or> n = 32) \<or> (0 < n \<and> n < 32))"

definition toupper :: "char \<Rightarrow> int" where
  "toupper c = (let n = of_char c in if 97 \<le> n \<and> n \<le> 122 then n - 32 else n)"

fun KeywordMatch :: "string \<Rightarrow> string \<Rightarrow> int \<Rightarrow> int" where
  "KeywordMatch [] [] len = 0"
| "KeywordMatch [] (c2 # s2) len = (if len > 0 then 0 - toupper c2 else 0)"
| "KeywordMatch (c1 # s1) [] len = (if len > 0 then toupper c1 else 0)"
| "KeywordMatch (c1 # s1) (c2 # s2) len =
     (if len > 0
      then if toupper c1 - toupper c2 \<noteq> 0 then toupper c1 - toupper c2 else KeywordMatch s1 s2 (len - 1)
      else 0)"

definition SkipSpace :: "string \<Rightarrow> string" where
  "SkipSpace s = dropWhile IS_SPACE s"

text \<open>The length is kept in 16 bits: in a longer string the character that is looked at, and where it is cut, is not the last.\<close>

function TruncSpace :: "string \<Rightarrow> string \<times> u16" where
  "TruncSpace s =
     (let len = of_nat (length s) :: u16
      in if len > 0 \<and> IS_SPACE (s ! (unat len - 1)) then TruncSpace (take (unat len - 1) s) else (s, len))"
  by pat_completeness auto
termination
proof (relation "measure length")
  fix s :: string and len :: u16
  assume len: "len = of_nat (length s)" "len > 0 \<and> IS_SPACE (s ! (unat len - 1))"
  have "unat len \<le> length s" by (simp add: len(1) unat_of_nat)
  moreover have "0 < unat len" using len(2) by (simp add: word_less_nat_alt)
  ultimately show "(take (unat len - 1) s, s) \<in> measure length" by simp
qed simp

declare TruncSpace.simps [simp del]

text \<open>The token has \<open>n + 1\<close> bytes with its terminator once the buffer of \<open>n\<close> bytes is full.\<close>

fun copy_token :: "nat \<Rightarrow> string \<Rightarrow> string \<Rightarrow> string \<times> string" where
  "copy_token n tok [] = (tok, [])"
| "copy_token n tok (c # s) =
     (if length tok < n \<and> \<not> IS_SPACE c \<and> c \<noteq> CMD_SEPARATOR then copy_token n (tok @ [c]) s else (tok, c # s))"

definition GetNextToken :: "string \<Rightarrow> nat \<Rightarrow> (string \<times> string) option" where
  "GetNextToken s tokenLen =
     (let (tok, rest) = copy_token tokenLen [] (SkipSpace s) in if length tok + 1 \<le> tokenLen then Some (tok, rest) else None)"

text \<open>
  \<^verbatim>\<open>sscanf (temp, "%lx", ...)\<close>: an optional sign, an optional prefix, and as many digits as there are; \<open>None\<close> when there is none.
\<close>

definition hex_digit :: "char \<Rightarrow> nat option" where
  "hex_digit c = (let n = of_char c in
     if 48 \<le> n \<and> n \<le> 57 then Some (n - 48) else if 97 \<le> n \<and> n \<le> 102 then Some (n - 87)
     else if 65 \<le> n \<and> n \<le> 70 then Some (n - 55) else None)"

fun scan_digits :: "nat \<Rightarrow> string \<Rightarrow> nat" where
  "scan_digits v [] = v"
| "scan_digits v (c # s) = (case hex_digit c of None \<Rightarrow> v | Some d \<Rightarrow> scan_digits (16 * v + d) s)"

definition starts_hex :: "string \<Rightarrow> bool" where
  "starts_hex s \<longleftrightarrow> s \<noteq> [] \<and> hex_digit (hd s) \<noteq> None"

definition scan_hex :: "string \<Rightarrow> nat option" where
  "scan_hex s =
     (let body = (if take 2 s \<in> {''0x'', ''0X''} \<and> starts_hex (drop 2 s) then drop 2 s else s)
      in if starts_hex body then Some (scan_digits 0 body) else None)"

definition sscanf_lx :: "string \<Rightarrow> u32 option" where
  "sscanf_lx s =
     (if take 1 s = ''-'' then map_option (\<lambda>v. - of_nat v) (scan_hex (drop 1 s))
      else if take 1 s = ''+'' then map_option of_nat (scan_hex (drop 1 s)) else map_option of_nat (scan_hex s))"

definition GetHexToken :: "string \<Rightarrow> u32 \<Rightarrow> (u32 \<times> string) option" where
  "GetHexToken s defVal = do {
     (temp, rest) \<leftarrow> GetNextToken s 9;
     Some (case if temp = [] then None else sscanf_lx temp of None \<Rightarrow> defVal | Some v \<Rightarrow> v, rest)
   }"

section \<open>Commands\<close>

definition entry_matches :: "string \<Rightarrow> cmd_descr \<Rightarrow> bool" where
  "entry_matches kw e \<longleftrightarrow> KeywordMatch (keyword e) kw (sint (max (of_nat (length kw)) (minMatch e))) = 0"

definition pad_left :: "nat \<Rightarrow> string \<Rightarrow> string" where
  "pad_left w s = replicate (w - length s) (CHR '' '') @ s"

fun help_lines :: "string \<Rightarrow> cmd_descr list \<Rightarrow> nat \<Rightarrow> 's cmd_st \<Rightarrow> 's cmd_st" where
  "help_lines kw [] lines st = st"
| "help_lines kw (e # es) lines st =
     (case helpText e of
        None \<Rightarrow> help_lines kw es lines st
      | Some h \<Rightarrow>
          if kw \<noteq> [] \<and> \<not> entry_matches kw e then help_lines kw es lines st
          else
            let (lines1, st1) =
                  (if lines = PAUSE_DISPLAY
                   then (0, print [CHR 0x0D, CHR 0x09, CHR 0x09, CHR 0x0D]
                             ((print ''[Press a key to continue]'' st)\<lparr>fin := drop 1 (fin st)\<rparr>))
                   else (lines, st));
                name = (case usage e of None \<Rightarrow> keyword e | Some u \<Rightarrow> u)
            in help_lines kw es (Suc lines1)
                 (print (pad_left (if kw = [] then 22 else 0) name @ ''  '' @ h @ [CHR 0x0A]) st1))"

definition CmdParserHelpFunc :: "cmd_descr list \<Rightarrow> 's command" where
  "CmdParserHelpFunc T cmd st = do {
     (kw, rest) \<leftarrow> GetNextToken cmd MAX_KEYWORD_LEN;
     let st1 = (if kw = [] then print [CHR 0x0A] st else st);
     let st2 = help_lines kw T 0 st1;
     Some (RET_CONTINUE, rest, if kw = [] then print [CHR 0x0A, CHR 0x0A] st2 else st2)
   }"

definition CmdParserExitFunc :: "'s command" where
  "CmdParserExitFunc cmd st = Some (RET_OK, cmd, st)"

definition run_func :: "(nat \<Rightarrow> 's command) \<Rightarrow> cmd_descr list \<Rightarrow> cmd_func \<Rightarrow> 's command" where
  "run_func U T f = (case f of Help_func \<Rightarrow> CmdParserHelpFunc T | Exit_func \<Rightarrow> CmdParserExitFunc | User_func k \<Rightarrow> U k)"

text \<open>One turn of the loop of \<open>ExecCmd\<close> up to the search for the separator. The first result says whether the loop is left.\<close>

definition exec_one :: "(nat \<Rightarrow> 's command) \<Rightarrow> cmd_descr list \<Rightarrow> string \<Rightarrow> u16 \<Rightarrow> 's cmd_st \<Rightarrow> (bool \<times> u16 \<times> string \<times> 's cmd_st) option" where
  "exec_one U T cmd s st = do {
     (kw, rest) \<leftarrow> GetNextToken cmd MAX_KEYWORD_LEN;
     if kw = [] then Some (False, s, rest, st)
     else case find (entry_matches kw) T of
            None \<Rightarrow> Some (True, s, rest, print (''Unrecognized command: '' @ kw @ [CHR 0x0A]) st)
          | Some e \<Rightarrow> map_option (Pair False) (run_func U T (execFunc e) rest st)
   }"

definition next_command :: "string \<Rightarrow> string" where
  "next_command cmd = dropWhile (\<lambda>c. c = CMD_SEPARATOR) (dropWhile (\<lambda>c. c \<noteq> CMD_SEPARATOR) cmd)"

partial_function (option) exec_loop :: "(nat \<Rightarrow> 's command) \<Rightarrow> cmd_descr list \<Rightarrow> string \<Rightarrow> u16 \<Rightarrow> 's cmd_st \<Rightarrow> (u16 \<times> 's cmd_st) option" where
  "exec_loop U T cmd s st =
     Option.bind (exec_one U T cmd s st) (\<lambda>(stop, s', rest, st').
       if stop \<or> next_command rest = [] \<or> s' \<noteq> RET_CONTINUE then Some (s', st') else exec_loop U T (next_command rest) s' st')"

definition ExecCmd :: "(nat \<Rightarrow> 's command) \<Rightarrow> cmd_descr list \<Rightarrow> string \<Rightarrow> 's cmd_st \<Rightarrow> (u16 \<times> 's cmd_st) option" where
  "ExecCmd U T cmd st = exec_loop U T (fst (TruncSpace cmd)) RET_CONTINUE st"

text \<open>The prompt is the format of \<^verbatim>\<open>fprintf\<close>: a conversion in it would read an argument that is not there.\<close>

fun format_plain :: "string \<Rightarrow> string option" where
  "format_plain [] = Some []"
| "format_plain (c # s) =
     (if c = CHR ''%''
      then (case s of [] \<Rightarrow> None | d # s' \<Rightarrow> if d = CHR ''%'' then map_option (Cons d) (format_plain s') else None)
      else map_option (Cons c) (format_plain s))"

text \<open>\<^verbatim>\<open>fgets\<close>: at most \<open>n - 1\<close> characters, up to and with a newline; nothing at the end of the stream.\<close>

fun fgets :: "nat \<Rightarrow> string \<Rightarrow> string \<times> string" where
  "fgets 0 s = ([], s)"
| "fgets (Suc n) [] = ([], [])"
| "fgets (Suc n) (c # s) = (if c = CHR 0x0A then ([c], s) else let (l, r) = fgets n s in (c # l, r))"

definition PromptAndExecCmd :: "(nat \<Rightarrow> 's command) \<Rightarrow> cmd_descr list \<Rightarrow> string \<Rightarrow> 's cmd_st \<Rightarrow> (u16 \<times> 's cmd_st) option" where
  "PromptAndExecCmd U T prompt st = do {
     p \<leftarrow> format_plain prompt;
     let st1 = print p st;
     let (line, rest) = fgets (MAX_CMD_LEN - 1) (fin st1);
     if line = [] then Some (RET_ERROR, st1)
     else ExecCmd U T (takeWhile (\<lambda>c. c \<noteq> CHR 0x00) line) (st1\<lparr>fin := rest\<rparr>)
   }"

end
