(* ===== verification/Cmd_Parser_Correct.thy ===== *)
theory Cmd_Parser_Correct
  imports Cmd_Parser
begin

text \<open>
  The command parser: which words select a command, that a line is executed as the sequence of its commands, and what a hexadecimal
  token is read as.
\<close>

section \<open>Keywords\<close>

lemma toupper_zero: "toupper c = 0 \<longleftrightarrow> c = CHR 0x00"
proof
  assume "toupper c = 0"
  then have "of_char c = (0 :: int)" by (auto simp: toupper_def Let_def split: if_splits)
  then have "of_char c = (of_char (CHR 0x00) :: int)" by simp
  then show "c = CHR 0x00" by (simp only: of_char_eq_iff)
qed (simp add: toupper_def)

lemma KeywordMatch_take:
  assumes "CHR 0x00 \<notin> set s1" and "CHR 0x00 \<notin> set s2"
  shows "KeywordMatch s1 s2 (int n) = 0 \<longleftrightarrow> take n (map toupper s1) = take n (map toupper s2)"
  using assms
proof (induction s1 s2 "int n" arbitrary: n rule: KeywordMatch.induct)
  case (4 c1 s1 c2 s2)
  then show ?case by (cases n) auto
qed (auto simp: toupper_zero take_Cons' split: if_splits)

text \<open>
  C16: a word selects an entry exactly when it is, whatever its case, a beginning of the entry's keyword that is at least \<open>minMatch\<close>
  characters long, or the whole keyword.
\<close>

theorem entry_matches_iff:
  assumes "CHR 0x00 \<notin> set (keyword e)" and "CHR 0x00 \<notin> set kw" and "unat (minMatch e) < 2 ^ 31" and "length kw < 2 ^ 31"
  shows "entry_matches kw e \<longleftrightarrow> prefix (map toupper kw) (map toupper (keyword e))
    \<and> (unat (minMatch e) \<le> length kw \<or> length kw = length (keyword e))"
proof -
  let ?n = "max (length kw) (unat (minMatch e))" and ?K = "map toupper (keyword e)" and ?k = "map toupper kw"
  have n: "max (of_nat (length kw)) (minMatch e) = (of_nat ?n :: u32)"
    using assms(4) by (auto simp: max_def word_le_nat_alt unat_of_nat)
  have "sint (of_nat ?n :: u32) = int ?n" using assms(3,4) by (simp add: signed_of_nat signed_take_bit_int_eq_self)
  then have "entry_matches kw e \<longleftrightarrow> take ?n ?K = take ?n ?k"
    unfolding entry_matches_def n using KeywordMatch_take[OF assms(1,2), of ?n] by simp
  also have "\<dots> \<longleftrightarrow> take ?n ?K = ?k" by simp
  also have "\<dots> \<longleftrightarrow> prefix ?k ?K \<and> (unat (minMatch e) \<le> length kw \<or> length kw = length (keyword e))"
  proof
    assume eq: "take ?n ?K = ?k"
    then have "prefix ?k ?K" by (metis take_is_prefix)
    moreover have "length kw = min ?n (length (keyword e))" using arg_cong[OF eq, of length] by simp
    ultimately show "prefix ?k ?K \<and> (unat (minMatch e) \<le> length kw \<or> length kw = length (keyword e))" by linarith
  next
    assume p: "prefix ?k ?K \<and> (unat (minMatch e) \<le> length kw \<or> length kw = length (keyword e))"
    then obtain zs where zs: "?K = ?k @ zs" by (auto simp: prefix_def)
    have "zs = [] \<or> ?n = length kw" using p arg_cong[OF zs, of length] by auto
    then show "take ?n ?K = ?k" unfolding zs by auto
  qed
  finally show ?thesis .
qed

theorem entry_matches_iff_witness:
  "entry_matches ''EXI'' \<lparr>keyword = ''Exit'', minMatch = 2, usage = None, helpText = None, execFunc = Exit_func\<rparr>
   \<and> \<not> entry_matches ''E'' \<lparr>keyword = ''Exit'', minMatch = 2, usage = None, helpText = None, execFunc = Exit_func\<rparr>"
  using entry_matches_iff[of "\<lparr>keyword = ''Exit'', minMatch = 2, usage = None, helpText = None, execFunc = Exit_func\<rparr>" "''EXI''"]
    entry_matches_iff[of "\<lparr>keyword = ''Exit'', minMatch = 2, usage = None, helpText = None, execFunc = Exit_func\<rparr>" "''E''"]
  by (simp add: toupper_def)

section \<open>Tokens\<close>

text \<open>What follows a command: nothing, or a separator.\<close>

definition stops :: "string \<Rightarrow> bool" where
  "stops tail \<longleftrightarrow> tail = [] \<or> hd tail = CMD_SEPARATOR"

lemma not_space_separator [simp]: "\<not> IS_SPACE CMD_SEPARATOR"
  by (simp add: IS_SPACE_def CMD_SEPARATOR_def)

lemma SkipSpace_append:
  assumes "stops tail"
  shows "SkipSpace (s @ tail) = SkipSpace s @ tail"
  using assms by (cases tail; induction s) (auto simp: SkipSpace_def stops_def)

lemma copy_token_append:
  assumes "stops tail"
  shows "copy_token n tok (s @ tail) = apsnd (\<lambda>r. r @ tail) (copy_token n tok s)"
  using assms by (induction s arbitrary: tok) (cases tail; auto simp: stops_def)+

lemma copy_token_suffix: "copy_token n tok s = (t, r) \<Longrightarrow> suffix r s"
  by (induction n tok s rule: copy_token.induct) (auto split: if_splits intro: suffix_ConsI)

lemma GetNextToken_append:
  assumes "stops tail"
  shows "GetNextToken (s @ tail) n = map_option (apsnd (\<lambda>r. r @ tail)) (GetNextToken s n)"
  by (simp add: GetNextToken_def SkipSpace_append[OF assms] copy_token_append[OF assms] Let_def split_beta apsnd_def map_prod_def)

lemma GetNextToken_suffix: "GetNextToken s n = Some (t, r) \<Longrightarrow> suffix r s"
  using copy_token_suffix[of n "[]" "SkipSpace s"] suffix_dropWhile[of IS_SPACE s]
  by (auto simp: GetNextToken_def SkipSpace_def Let_def split: prod.splits if_splits intro: suffix_order.trans)

section \<open>The functions of a command table\<close>

text \<open>
  The contract of a \<^verbatim>\<open>CMD_EXEC_FUNC\<close>: it moves the pointer forward over the parameters it takes, and these end at the separator, so
  that it does the same whether or not another command follows.
\<close>

locale command_function =
  fixes f :: "'s command"
  assumes forward: "f args st = Some (s, rest, st') \<Longrightarrow> suffix rest args"
    and ends: "CMD_SEPARATOR \<notin> set args \<Longrightarrow> stops tail \<Longrightarrow>
      f (args @ tail) st = map_option (\<lambda>(s, rest, st'). (s, rest @ tail, st')) (f args st)"
begin

lemma rest_of_line:
  assumes "CMD_SEPARATOR \<notin> set args" and "stops tail" and "f args st = Some (s, rest, st')"
  shows "f (args @ tail) st = Some (s, rest @ tail, st')" "CMD_SEPARATOR \<notin> set rest"
  using ends[OF assms(1,2), of st] forward[OF assms(3)] assms(1,3) set_mono_suffix by fastforce+

end

interpretation help_command: command_function "CmdParserHelpFunc T"
proof
  show "suffix rest args" if "CmdParserHelpFunc T args st = Some (s, rest, st')" for args st s rest st'
    using that by (auto simp: CmdParserHelpFunc_def Let_def split: bind_splits dest: GetNextToken_suffix)
  show "CmdParserHelpFunc T (args @ tail) st = map_option (\<lambda>(s, rest, st'). (s, rest @ tail, st')) (CmdParserHelpFunc T args st)"
    if "stops tail" for args tail st
    using GetNextToken_append[OF that, of args MAX_KEYWORD_LEN]
    by (cases "GetNextToken args MAX_KEYWORD_LEN") (auto simp: CmdParserHelpFunc_def Let_def)
qed

interpretation exit_command: command_function CmdParserExitFunc
  by unfold_locales (auto simp: CmdParserExitFunc_def)

lemma run_func_command:
  assumes "\<And>k. command_function (U k)"
  shows "command_function (run_func U T f)"
  by (cases f) (simp_all add: run_func_def assms help_command.command_function_axioms exit_command.command_function_axioms)

section \<open>A line is the sequence of its commands\<close>

fun split_cmds :: "string \<Rightarrow> string list" where
  "split_cmds [] = [[]]"
| "split_cmds (c # s) = (if c = CMD_SEPARATOR then [] # split_cmds s
     else case split_cmds s of [] \<Rightarrow> [[c]] | x # xs \<Rightarrow> (c # x) # xs)"

text \<open>The commands in turn, until one is unknown or does not ask to go on.\<close>

fun run_commands :: "(nat \<Rightarrow> 's command) \<Rightarrow> cmd_descr list \<Rightarrow> string list \<Rightarrow> u16 \<Rightarrow> 's cmd_st \<Rightarrow> (u16 \<times> 's cmd_st) option" where
  "run_commands U T [] s st = Some (s, st)"
| "run_commands U T (c # cs) s st = do {
     (stop, s', _, st') \<leftarrow> exec_one U T c s st;
     if stop \<or> s' \<noteq> RET_CONTINUE then Some (s', st') else run_commands U T cs s' st'
   }"

lemma split_cmds_append: "CMD_SEPARATOR \<notin> set c \<Longrightarrow> split_cmds (c @ CMD_SEPARATOR # tail) = c # split_cmds tail"
  by (induction c) auto

lemma split_cmds_single: "CMD_SEPARATOR \<notin> set c \<Longrightarrow> split_cmds c = [c]"
  by (induction c) auto

lemma exec_one_empty [simp]: "exec_one U T [] s st = Some (False, s, [], st)"
  by (simp add: exec_one_def GetNextToken_def SkipSpace_def MAX_KEYWORD_LEN_def)

lemma run_commands_skip:
  "run_commands U T (split_cmds (dropWhile (\<lambda>c. c = CMD_SEPARATOR) tail)) RET_CONTINUE st = run_commands U T (split_cmds tail) RET_CONTINUE st"
  by (induction tail) auto

lemma exec_one_rest:
  assumes "\<And>k. command_function (U k)" and "CMD_SEPARATOR \<notin> set c" and "stops tail"
  shows "exec_one U T (c @ tail) s st = map_option (\<lambda>(stop, s', rest, st'). (stop, s', rest @ tail, st')) (exec_one U T c s st)"
    and "exec_one U T c s st = Some (stop, s', rest, st') \<Longrightarrow> CMD_SEPARATOR \<notin> set rest"
proof -
  have t: "CMD_SEPARATOR \<notin> set r" if h: "GetNextToken c n = Some (k, r)" for n k r
    using GetNextToken_suffix[OF h] assms(2) set_mono_suffix by fastforce
  have F: "command_function (run_func U T g)" for g by (rule run_func_command) (rule assms(1))
  show "exec_one U T (c @ tail) s st = map_option (\<lambda>(stop, s', rest, st'). (stop, s', rest @ tail, st')) (exec_one U T c s st)"
  proof (cases "GetNextToken c MAX_KEYWORD_LEN")
    case (Some kr)
    obtain kw r where kr: "kr = (kw, r)" by (cases kr)
    have "run_func U T g (r @ tail) st = map_option (\<lambda>(s, rest, st'). (s, rest @ tail, st')) (run_func U T g r st)" for g
      using command_function.ends[OF F t assms(3)] Some kr by simp
    then show ?thesis using Some kr
      by (auto simp: exec_one_def GetNextToken_append[OF assms(3)] option.map_comp comp_def split_beta split: option.split intro!: option.map_cong)
  qed (simp add: exec_one_def GetNextToken_append[OF assms(3)])
  assume h: "exec_one U T c s st = Some (stop, s', rest, st')"
  then obtain kw r where kr: "GetNextToken c MAX_KEYWORD_LEN = Some (kw, r)" by (auto simp: exec_one_def split: bind_splits)
  have "rest = r \<or> (\<exists>g. run_func U T g r st = Some (s', rest, st'))"
    using h kr by (auto simp: exec_one_def split: if_splits option.splits)
  then have "suffix rest r" using command_function.forward[OF F, of _ r st s' rest st'] by auto
  then show "CMD_SEPARATOR \<notin> set rest" using t[OF kr] set_mono_suffix by blast
qed

lemma exec_loop_commands:
  assumes "\<And>k. command_function (U k)"
  shows "exec_loop U T line s st = run_commands U T (split_cmds line) s st"
proof (induction "length line" arbitrary: line s st rule: less_induct)
  case less
  define c where "c = takeWhile (\<lambda>c. c \<noteq> CMD_SEPARATOR) line"
  define tail where "tail = dropWhile (\<lambda>c. c \<noteq> CMD_SEPARATOR) line"
  have line: "line = c @ tail" by (simp add: c_def tail_def)
  have c: "CMD_SEPARATOR \<notin> set c" using set_takeWhileD[of CMD_SEPARATOR] by (auto simp: c_def)
  have tail: "tail = [] \<or> tail = CMD_SEPARATOR # tl tail"
  proof (cases tail)
    case (Cons d ds)
    then have "d = CMD_SEPARATOR" unfolding tail_def dropWhile_eq_Cons_conv by simp
    then show ?thesis using Cons by simp
  qed simp
  then have st: "stops tail" unfolding stops_def by (metis list.sel(1))
  have one: "exec_one U T line s st = map_option (\<lambda>(stop, s', rest, st'). (stop, s', rest @ tail, st')) (exec_one U T c s st)"
    unfolding line by (rule exec_one_rest(1)) (rule assms c st)+
  show ?case
  proof (cases "exec_one U T c s st")
    case None
    have "\<exists>cs. split_cmds line = c # cs" using tail split_cmds_append[OF c] split_cmds_single[OF c] line by (metis append_Nil2)
    then show ?thesis using None one by (subst exec_loop.simps) auto
  next
    case (Some x)
    obtain stop s' rest st' where x: "x = (stop, s', rest, st')" by (cases x)
    have rest: "CMD_SEPARATOR \<notin> set rest" by (rule exec_one_rest(2)[OF _ c st Some[unfolded x]]) (rule assms)
    have "dropWhile (\<lambda>c. c \<noteq> CMD_SEPARATOR) (rest @ tail) = dropWhile (\<lambda>c. c \<noteq> CMD_SEPARATOR) tail"
      using rest by (intro dropWhile_append2) auto
    also have "\<dots> = tail" using tail by (cases tail) simp_all
    finally have "next_command (rest @ tail) = dropWhile (\<lambda>c. c = CMD_SEPARATOR) tail"
      unfolding next_command_def by (rule arg_cong)
    then have run: "exec_loop U T line s st = (if stop \<or> dropWhile (\<lambda>c. c = CMD_SEPARATOR) tail = [] \<or> s' \<noteq> RET_CONTINUE then Some (s', st')
        else exec_loop U T (dropWhile (\<lambda>c. c = CMD_SEPARATOR) tail) s' st')"
      using one Some x by (subst exec_loop.simps) simp
    show ?thesis
    proof (cases tail)
      case Nil
      then show ?thesis using run Some x line split_cmds_single[OF c] by simp
    next
      case (Cons d tail')
      then have d: "tail = CMD_SEPARATOR # tail'" using tail by simp
      have "length (dropWhile (\<lambda>c. c = CMD_SEPARATOR) tail) < length line"
        using length_dropWhile_le[of "\<lambda>c. c = CMD_SEPARATOR" tail'] line d by simp
      from less[OF this] have "exec_loop U T (dropWhile (\<lambda>c. c = CMD_SEPARATOR) tail) RET_CONTINUE st' = run_commands U T (split_cmds tail) RET_CONTINUE st'"
        by (simp add: run_commands_skip)
      moreover have "run_commands U T (split_cmds tail) RET_CONTINUE st' = Some (RET_CONTINUE, st')"
        if "dropWhile (\<lambda>c. c = CMD_SEPARATOR) tail = []"
        using run_commands_skip[of U T tail st'] that by simp
      ultimately show ?thesis using run Some x line split_cmds_append[OF c, of tail'] d by (auto split: if_splits)
    qed
  qed
qed

lemma TruncSpace_trims:
  assumes "length s < 2 ^ 16"
  shows "TruncSpace s = (rev (dropWhile IS_SPACE (rev s)), of_nat (length (rev (dropWhile IS_SPACE (rev s)))))"
  using assms
proof (induction s rule: rev_induct)
  case Nil
  show ?case by (subst TruncSpace.simps) simp
next
  case (snoc c s)
  have u: "unat (of_nat (length (s @ [c])) :: u16) = length s + 1" using snoc.prems by (simp add: unat_of_nat del: of_nat_Suc)
  then have "0 < (of_nat (length (s @ [c])) :: u16)" by (simp add: word_less_nat_alt del: of_nat_Suc)
  then show ?case using snoc u by (subst TruncSpace.simps) (simp add: Let_def del: of_nat_Suc)
qed


definition demo_commands :: "cmd_descr list" where
  "demo_commands = [\<lparr>keyword = ''Help'', minMatch = 4, usage = Some ''Help/?'', helpText = Some ''Displays list of commands.'', execFunc = Help_func\<rparr>,
     \<lparr>keyword = ''Exit'', minMatch = 4, usage = Some ''Exit'', helpText = Some ''Exits program.'', execFunc = Exit_func\<rparr>]"


section \<open>Hexadecimal tokens\<close>

definition hex_char :: "nat \<Rightarrow> char" where
  "hex_char d = char_of (if d < 10 then 48 + d else 87 + d)"

text \<open>How \<^verbatim>\<open>"%lx"\<close> prints a number.\<close>

fun hex_string :: "nat \<Rightarrow> string" where
  "hex_string n = (if n < 16 then [hex_char n] else hex_string (n div 16) @ [hex_char (n mod 16)])"

declare hex_string.simps [simp del]

lemma hex_char_digit:
  assumes "d < 16"
  shows "hex_digit (hex_char d) = Some d" "\<not> IS_SPACE (hex_char d)" "hex_char d \<noteq> CMD_SEPARATOR"
    "hex_char d \<notin> {CHR ''x'', CHR ''X'', CHR ''-'', CHR ''+''}"
proof -
  have n: "of_char (hex_char d) = (if d < 10 then 48 + d else 87 + d)" using assms by (simp add: hex_char_def)
  then show "hex_digit (hex_char d) = Some d" "\<not> IS_SPACE (hex_char d)" using assms by (auto simp: hex_digit_def IS_SPACE_def Let_def)
  have neq: "hex_char d \<noteq> c" if c: "of_char c \<noteq> (if d < 10 then 48 + d else 87 + d)" for c using c n by metis
  show "hex_char d \<noteq> CMD_SEPARATOR" by (rule neq) (use assms in \<open>auto simp: CMD_SEPARATOR_def\<close>)
  show "hex_char d \<notin> {CHR ''x'', CHR ''X'', CHR ''-'', CHR ''+''}"
    using neq[of "CHR ''x''"] neq[of "CHR ''X''"] neq[of "CHR ''-''"] neq[of "CHR ''+''"] assms by (auto split: if_splits)
qed

lemma hex_string_set: "c \<in> set (hex_string n) \<Longrightarrow> \<exists>d < 16. c = hex_char d"
proof (induction n rule: hex_string.induct)
  case (1 n)
  have "\<exists>d < 16. hex_char (n mod 16) = hex_char d" by (rule exI[of _ "n mod 16"]) simp
  then show ?case using 1 by (subst (asm) (2) hex_string.simps) (auto split: if_splits)
qed

lemma scan_digits_append: "(\<forall>c \<in> set s. hex_digit c \<noteq> None) \<Longrightarrow> scan_digits v (s @ t) = scan_digits (scan_digits v s) t"
  by (induction s arbitrary: v) auto

lemma scan_hex_string: "scan_digits 0 (hex_string n) = n"
proof (induction n rule: hex_string.induct)
  case (1 n)
  have "\<forall>c \<in> set (hex_string m). hex_digit c \<noteq> None" for m using hex_string_set hex_char_digit(1) by fastforce
  then show ?case using 1 by (subst hex_string.simps) (auto simp: hex_char_digit(1) scan_digits_append)
qed

lemma hex_string_length: "n < 16 ^ k \<Longrightarrow> 0 < k \<Longrightarrow> length (hex_string n) \<le> k"
proof (induction k arbitrary: n)
  case (Suc k)
  then show ?case
  proof (cases "n < 16")
    case False
    then have "k \<noteq> 0" using Suc.prems(1) by (cases k) auto
    then have "length (hex_string (n div 16)) \<le> k" using Suc by (simp add: less_mult_imp_div_less mult.commute)
    then show ?thesis using False by (subst hex_string.simps) simp
  qed (subst hex_string.simps, simp)
qed simp

lemma hex_string_nonempty [simp]: "hex_string n \<noteq> []"
  by (subst hex_string.simps) simp

lemma copy_token_all:
  assumes "\<forall>c \<in> set s. \<not> IS_SPACE c \<and> c \<noteq> CMD_SEPARATOR" and "length tok + length s < n"
    and "tail = [] \<or> IS_SPACE (hd tail) \<or> hd tail = CMD_SEPARATOR"
  shows "copy_token n tok (s @ tail) = (tok @ s, tail)"
  using assms
proof (induction s arbitrary: tok)
  case Nil
  then show ?case by (cases tail) auto
qed simp

text \<open>
  C17: a 32-bit number written in hexadecimal, after any white space and before white space, a separator or the end of the line, is
  read back by \<open>GetHexToken\<close>, which moves the pointer just past it.
\<close>

theorem GetHexToken_reads:
  assumes "list_all IS_SPACE ws" and "tail = [] \<or> IS_SPACE (hd tail) \<or> hd tail = CMD_SEPARATOR"
  shows "GetHexToken (ws @ hex_string (unat (v :: u32)) @ tail) defVal = Some (v, tail)"
proof -
  let ?h = "hex_string (unat v)"
  have len: "length ?h \<le> 8" using unsigned_less[of v, where ?'a=nat] by (intro hex_string_length) simp_all
  have cs: "\<forall>c \<in> set ?h. \<not> IS_SPACE c \<and> c \<noteq> CMD_SEPARATOR" using hex_string_set hex_char_digit(2,3) by fastforce
  obtain d ds where h: "?h = d # ds" "\<not> IS_SPACE d" using cs hex_string_nonempty[of "unat v"] by (cases ?h) auto
  have "SkipSpace (ws @ ?h @ tail) = ?h @ tail" using assms(1) h by (simp add: SkipSpace_def dropWhile_append2 list_all_iff)
  moreover have "copy_token 9 [] (?h @ tail) = (?h, tail)" using copy_token_all[OF cs, of "[]" 9 tail] assms(2) len by simp
  ultimately have tok: "GetNextToken (ws @ ?h @ tail) 9 = Some (?h, tail)" using len by (simp add: GetNextToken_def)
  have x: "c \<notin> {CHR ''x'', CHR ''X'', CHR ''-'', CHR ''+''} \<and> hex_digit c \<noteq> None" if c: "c \<in> set ?h" for c
    using hex_string_set[OF c] hex_char_digit(1,4) by auto
  have d: "d \<notin> {CHR ''x'', CHR ''X'', CHR ''-'', CHR ''+''} \<and> hex_digit d \<noteq> None" using x[of d] h(1) by simp
  have "take 2 ?h \<notin> {''0x'', ''0X''}" using x h(1) by (cases ds) auto
  then have "scan_hex ?h = Some (unat v)" using h(1) d scan_hex_string[of "unat v"] by (auto simp: scan_hex_def starts_hex_def)
  then have "sscanf_lx ?h = Some v" using h(1) d by (auto simp: sscanf_lx_def)
  then show ?thesis using tok by (simp add: GetHexToken_def)
qed

theorem GetHexToken_reads_witness: "GetHexToken (''  '' @ hex_string (unat (0xbeef :: u32)) @ ''; next'') 7 = Some (0xbeef, ''; next'')"
  by (rule GetHexToken_reads) (simp_all add: IS_SPACE_def CMD_SEPARATOR_def)

text \<open>
  A word as long as the buffer overruns it by its terminator: \<open>GetNextToken\<close> has no result exactly when the word, up to white space or a
  separator, has at least \<open>tokenLen\<close> characters.
\<close>

lemma copy_token_takeWhile:
  "length tok \<le> n \<Longrightarrow> fst (copy_token n tok s) = tok @ take (n - length tok) (takeWhile (\<lambda>c. \<not> IS_SPACE c \<and> c \<noteq> CMD_SEPARATOR) s)"
  by (induction n tok s rule: copy_token.induct) (auto simp: Suc_diff_Suc[symmetric])

theorem GetNextToken_overrun:
  "GetNextToken s tokenLen = None \<longleftrightarrow> tokenLen \<le> length (takeWhile (\<lambda>c. \<not> IS_SPACE c \<and> c \<noteq> CMD_SEPARATOR) (SkipSpace s))"
  using copy_token_takeWhile[of "[]" tokenLen "SkipSpace s"] by (auto simp: GetNextToken_def Let_def split_beta)

end
