(* ===== verification/Spec2Isabelle.thy ===== *)
theory Spec2Isabelle
  imports Ppp_Lcp_Link Ppp_Chap_Handshake Usb_Queue Usb_List Usb_Targ_Attach Usb_Descr Cmd_Parser_Correct
begin

text \<open>
  A verification library for the protocol and support code of a VxWorks source tree: the PPP
  daemon (\<^verbatim>\<open>src/vxworks_test/netinet/ppp\<close>, headers in \<^verbatim>\<open>src/target/h/netinet/ppp\<close>) and the
  target and support libraries of the USB stack (\<^verbatim>\<open>src/target/src/usb\<close>, headers in \<^verbatim>\<open>src/target/h/usb\<close>).

  \<^bold>\<open>The PPP daemon.\<close> A PPP unit is a task that reads packets (\<^verbatim>\<open>pppLib.c: io\<close>), hands them to
  the protocol named in their header, and runs timeouts from a list of callouts
  (\<^verbatim>\<open>ppp_timeout\<close>, \<^verbatim>\<open>ppp_untimeout\<close>, \<^verbatim>\<open>alrm\<close>). LCP (\<^verbatim>\<open>lcp.c\<close>) negotiates the options of the
  link and IPCP (\<^verbatim>\<open>ipcp.c\<close>) the addresses; both are clients of a common automaton (\<^verbatim>\<open>fsm.c\<close>) that
  calls them back to write and judge options and when the layer comes up or goes down. When LCP
  is up, \<^verbatim>\<open>auth.c\<close> decides between authentication and the network phase; CHAP (\<^verbatim>\<open>chap.c\<close>)
  authenticates with secrets from a table (\<^verbatim>\<open>pppSecretLib.c\<close>) or a file.

  The automaton and LCP:

  \<^item> \<open>Prelude\<close>: C integer types, the GET/PUT macros, stores into buffers.
  \<^item> \<open>Ppp_Timer\<close>: the callout list (\<^verbatim>\<open>pppLib.c\<close>) as a delta list; \<open>agenda\<close> is the list of
    absolute expiry times it implements. The operating system's timer and clock are the
    parameter \<open>timer_os\<close>. Refinement of insertion and removal on the agenda, what an alarm
    fires, and that \<open>adjtimeout\<close> charges elapsed time twice.
  \<^item> \<open>Ppp_State\<close>: the records \<open>fsm\<close>, \<open>lcp_options\<close> and the part \<open>ppp_io\<close> of the unit that
    every protocol uses; \<^verbatim>\<open>magic.c\<close>. Packets sent are the list \<open>wire_out\<close>.
  \<^item> \<open>Ppp_Fsm\<close>: every function of \<^verbatim>\<open>fsm.c\<close>, over a record of callbacks. A callback that does
    not return makes the packet's processing \<open>None\<close>.
  \<^item> \<open>Ppp_Fsm_Client\<close>: what the automaton promises any client, as the locales
    \<open>fsm_protocol\<close>, \<open>fsm_layer_below\<close> and \<open>fsm_layered\<close>: waiting states have a timer, \<open>OPENED\<close>
    is entered by agreement only, the up and down calls alternate, retransmission ends.
  \<^item> \<open>Ppp_Fsm_Stable\<close>: the locale \<open>fsm_stable\<close>: a property that the callbacks, the output and the
    automaton's own timers keep is kept by every entry point.
  \<^item> \<open>Ppp_Lcp_Options\<close>: the option macros and \<open>lcp_cilen\<close>, \<open>lcp_addci\<close>, \<open>lcp_ackci\<close>,
    \<open>lcp_nakci\<close>, \<open>lcp_rejci\<close>. \<open>nak_rest\<close>, the loop of \<open>lcp_nakci\<close>, may not end and is a partial
    function into \<open>option\<close>.
  \<^item> \<open>Ppp_Lcp_Reqci\<close>: \<open>lcp_reqci\<close> with its in-place output and, as its specification, one
    pass over the list of options.
  \<^item> \<open>Ppp_Lcp\<close>: the unit, the layer actions, the echo keepalive, \<^verbatim>\<open>link_established\<close> and the
    other phase changes of \<^verbatim>\<open>auth.c\<close>, \<open>die\<close>, the entry points, \<open>io_packet\<close>, and \<open>lcp_reach\<close>, the
    states reachable by any sequence of events. Calls to CHAP, PAP, IPCP and the
    interface are recorded in the unit, in order.
  \<^item> \<open>Ppp_Lcp_Correct\<close>: interpretation of the client locales on LCP's callbacks and the
    invariants of all reachable states.
  \<^item> \<open>Ppp_Lcp_Link\<close>: giving up, the frame on the wire and its bounds, echo, phases.
  \<^item> \<open>Ppp_Lcp_Log\<close>: the locale \<open>lcp_stable\<close>, interpreted on the record of calls, which only grows,
    and on the timers of CHAP, which LCP leaves alone.

  IPCP and the unit with both:

  \<^item> \<open>Ppp_Ipcp_Options\<close>, \<open>Ppp_Ipcp_Reqci\<close>: as for LCP. The requests and answers about addresses
    have a list of options as their specification.
  \<^item> \<open>Ppp_Ipcp\<close>, \<open>Ppp_Ipcp_Correct\<close>: the layer actions on the network interface, whose ioctls are the
    parameter \<open>ip_answers\<close>, and the interface up exactly while IPCP is open.
  \<^item> \<open>Ppp_Link\<close>: LCP and IPCP on one unit; what LCP records is carried out for IPCP.

  Authentication:

  \<^item> \<open>Ppp_Words\<close>: \<open>getword\<close> of \<^verbatim>\<open>options.c\<close>, the reader of option and secret files, and quoting as
    its inverse.
  \<^item> \<open>Ppp_Secret\<close>: the table of secrets, secret files (\<open>scan_authfile\<close>) and the addresses a peer may
    use. Files and name resolution are parameters.
  \<^item> \<open>Ppp_Auth\<close>: the choice of protocols and the checks of passwords of \<^verbatim>\<open>auth.c\<close>; the hash and the
    login library are the parameters \<open>pppCryptRtn\<close> and \<open>loginUserVerify\<close>.
  \<^item> \<open>Ppp_Chap\<close>: every function of \<^verbatim>\<open>chap.c\<close>, and the unit with LCP, IPCP and CHAP: events, alarms and
    the reachable states \<open>unit_reach\<close>. MD5 is the parameter \<open>md5\<close>.
  \<^item> \<open>Ppp_Chap_Correct\<close>: the locale \<open>unit_invariant\<close> for properties of CHAP's state and timers. CHAP
    accepts only the right response; a challenge that waits has its timer.
  \<^item> \<open>Ppp_Chap_Handshake\<close>: packets on the wire, the exchange between two units with a common secret,
    giving up, and the exchange of a unit with itself.

  \<^bold>\<open>The USB libraries.\<close>

  \<^item> \<open>Usb_Handle\<close> (\<^verbatim>\<open>usbHandleLib.c\<close>): the table of handles and its search, which ends only if
    a slot is free; the locale \<open>handle_table\<close> is the finite map it implements.
  \<^item> \<open>Usb_Queue\<close> (\<^verbatim>\<open>usbQueueLib.c\<close>): \<open>usbQueuePut\<close> and \<open>usbQueueGet\<close> as whole calls and as the
    steps of tasks that the kernel interleaves; semaphores and mutex are the parameter
    \<open>kernel\<close> with the hypothesis \<open>kernel_ok\<close>. First in first out under every interleaving.
  \<^item> \<open>Usb_List\<close> (\<^verbatim>\<open>usbListLib.c\<close>): doubly linked lists on a memory of addresses, with the
    head taken for a link as the code does; the locale \<open>link_sequence\<close> is the sequence.

  \<^item> \<open>Usb_Targ\<close> (\<^verbatim>\<open>usbTargLib.c\<close>, \<^verbatim>\<open>usbTcdLib.c\<close>): the peripheral side of a USB device. A channel is attached to a
    controller driver; its default control pipe receives setup packets, which are parsed and answered with the callbacks of the
    application; further pipes are created on endpoints of the driver's table. Channels and pipes are objects with handles of
    \<open>Usb_Handle\<close>; the driver and the application are the parameter \<open>targ_env\<close>.
  \<^item> \<open>Usb_Targ_Demo\<close>: a small controller and application, on which the hypotheses of the theorems hold.
  \<^item> \<open>Usb_Targ_Correct\<close>: pipes are created whole or not at all, the data toggle, and where the library gives up.
  \<^item> \<open>Usb_Targ_Control\<close>, \<open>Usb_Targ_Attach\<close>: the phases of a control transfer. \<open>phase\<close> is the invariant that exactly one of
    the three packets of a channel is with the driver. Every request handler keeps it for a driver that takes packets
    (\<open>tcd_ok\<close>) and an application that answers a request or refuses it (\<open>app_ok\<close>), and an attachment establishes it for a driver
    that assigns endpoints as asked (\<open>tcd_assigns\<close>).
  \<^item> \<open>Usb_Descr\<close> (\<^verbatim>\<open>usbDescrCopyLib.c\<close>): copying of descriptors and strings, with their bounds.
  \<^item> \<open>Cmd_Parser\<close>, \<open>Cmd_Parser_Correct\<close> (\<^verbatim>\<open>cmdParser.c\<close>): the command parser of the USB tools. The locale
    \<open>command_function\<close> is the contract of the functions of a command table, interpreted on those of the library; a line is the
    sequence of its commands.

  \<^bold>\<open>Bounds.\<close> Machine integers are words of their width wherever the code's behaviour
  depends on it (options, identifiers, handles, queue indices and sizes); times and counters
  that only grow by small steps are unbounded. \<open>run_task\<close> is given six steps, the length of
  a call. The handle table is bounded by \<open>12 * n < 2 ^ 32\<close>, the size of its block; the queue's
  depth by 8189, beyond which \<open>usbQueueCreate\<close> allocates too little. CHAP names have fewer than
  256 characters, as their arrays do.

  \<^bold>\<open>Not modelled.\<close> Logging and the show routines; the PPP network interface (\<^verbatim>\<open>if_ppp.c\<close>), the
  task's start-up and tty handling, the table of options, the DES hash; PAP and MD5, whose files
  are not in the tree; \<^verbatim>\<open>ossLib.c\<close>, whose functions pass their arguments to the kernel; the tasks
  of the USB target library, whose entry points run under one mutex and are whole calls here; board support packages, drivers, boot
  configuration and demonstration programs, which are sequences of register accesses and
  library calls.
\<close>

end
